(* ===== verification/Prelude.thy ===== *)
theory Prelude
  imports Complex_Main "HOL-Library.Word" "HOL-Library.Multiset" "HOL-Library.AList"
begin

text \<open>
  Shared vocabulary of the development: Python's byte strings, slices, substring search and
  number formatting, the error values of the models, dictionaries with insertion order, and
  the locales that several components instantiate.

  \<^item> \<open>bytes\<close> is a list of 8-bit words; \<open>str\<close> values that come from ASCII literals or from
    formatting are \<open>string\<close>; text that was decoded from the wire is a list of code points
    (\<open>ustr\<close>).
  \<^item> A read cursor \<open>pos\<close> into an immutable buffer is modelled by the suffix that starts there;
    indexing is checked and yields \<open>IndexError\<close> where Python raises it.
  \<^item> A dictionary is an association list updated in place (\<open>AList.update\<close>), which is Python's
    insertion-ordered \<open>dict\<close>.
  \<^item> Times are seconds as \<open>real\<close>; \<open>time.time()\<close> is an argument \<open>now\<close>.
\<close>

unbundle bit_operations_syntax

named_theorems res_simps "unfolding rules of the result type"

type_synonym byte = "8 word"
type_synonym bytes = "byte list"
type_synonym ustr = "nat list"
type_synonym time = real

section \<open>Errors as values\<close>

datatype pyerr =
    TlsParseError string
  | IndexError
  | ValueError string
  | KeyError
  | RuntimeError "string list"

type_synonym 'a res = "pyerr + 'a"

definition bindR :: "'e + 'a \<Rightarrow> ('a \<Rightarrow> 'e + 'b) \<Rightarrow> 'e + 'b" where
  "bindR r f = (case r of Inl e \<Rightarrow> Inl e | Inr x \<Rightarrow> f x)"

definition guardR :: "bool \<Rightarrow> 'e \<Rightarrow> 'e + 'b \<Rightarrow> 'e + 'b" where
  \<comment> \<open>\<open>if c: raise e\<close>, then the rest\<close>
  "guardR c e r = (if c then Inl e else r)"

lemma bindR_Inr [simp, res_simps]: "bindR (Inr x) f = f x"
  by (simp add: bindR_def)

lemma bindR_Inl [simp, res_simps]: "bindR (Inl e) f = Inl e"
  by (simp add: bindR_def)

lemma bindR_eq_Inr: "bindR r f = Inr y \<longleftrightarrow> (\<exists>x. r = Inr x \<and> f x = Inr y)"
  by (cases r) auto

lemma bindR_eq_Inl: "bindR r f = Inl e \<longleftrightarrow> r = Inl e \<or> (\<exists>x. r = Inr x \<and> f x = Inl e)"
  by (cases r) auto

lemma guardR_True [simp, res_simps]: "c \<Longrightarrow> guardR c e r = Inl e"
  by (simp add: guardR_def)

lemma guardR_False [simp, res_simps]: "\<not> c \<Longrightarrow> guardR c e r = r"
  by (simp add: guardR_def)

lemma guardR_eq_Inl: "guardR c e r = Inl e' \<longleftrightarrow> c \<and> e = e' \<or> \<not> c \<and> r = Inl e'"
  by (simp add: guardR_def)

lemma guardR_eq_Inr: "guardR c e r = Inr x \<longleftrightarrow> \<not> c \<and> r = Inr x"
  by (simp add: guardR_def)

section \<open>Bytes\<close>

definition ascii :: "string \<Rightarrow> bytes" where
  "ascii s = map of_char s"

definition byte_at :: "bytes \<Rightarrow> nat \<Rightarrow> nat res" where
  \<comment> \<open>\<open>data[i]\<close> for \<open>i >= 0\<close>\<close>
  "byte_at bs i = (if i < length bs then Inr (unat (bs ! i)) else Inl IndexError)"

definition py_slice :: "'a list \<Rightarrow> nat \<Rightarrow> nat \<Rightarrow> 'a list" where
  \<comment> \<open>\<open>xs[a:b]\<close> for non-negative bounds: clipped, never an error\<close>
  "py_slice xs a b = take (b - a) (drop a xs)"

definition be_int :: "bytes \<Rightarrow> nat" where
  \<comment> \<open>\<open>int.from_bytes(bs, "big")\<close>\<close>
  "be_int bs = foldl (\<lambda>acc b. 256 * acc + unat b) 0 bs"

definition be16 :: "nat \<Rightarrow> nat \<Rightarrow> nat" where
  \<comment> \<open>\<open>(hi << 8) | lo\<close>\<close>
  "be16 hi lo = (push_bit 8 hi OR lo)"

definition enc16 :: "nat \<Rightarrow> bytes" where
  "enc16 n = [of_nat (n div 256), of_nat n]"

definition enc24 :: "nat \<Rightarrow> bytes" where
  "enc24 n = [of_nat (n div 65536), of_nat (n div 256), of_nat n]"

lemma unat_byte_lt [simp]: "unat (b :: byte) < 256"
  using unsigned_less [of b] by simp

lemma unat_byte_le [simp]: "unat (b :: byte) \<le> 255"
  using unat_byte_lt [of b] by linarith

lemma unat_of_nat_byte: "unat (of_nat n :: byte) = n mod 256"
  by (simp add: unat_of_nat)

lemma shift_or_byte:
  assumes "l < (256 :: nat)"
  shows "(push_bit 8 h OR l) = 256 * h + l"
proof -
  have l: "take_bit 8 l = l"
    using assms by (simp add: take_bit_nat_eq_self)
  have "\<not> bit l n" if "8 \<le> n" for n
    using that l by (metis bit_take_bit_iff not_le)
  then have "(push_bit 8 h AND l) = 0"
    by (intro bit_eqI) (auto simp: bit_simps)
  then have "(push_bit 8 h OR l) = push_bit 8 h + l"
    by (rule disjunctive_add_eq_or [symmetric])
  then show ?thesis
    by (simp add: push_bit_eq_mult)
qed

lemma be16_eq: "lo < 256 \<Longrightarrow> be16 hi lo = 256 * hi + lo"
  by (simp add: be16_def shift_or_byte)

lemma be16_bytes: "be16 (unat (h :: byte)) (unat (l :: byte)) = be_int [h, l]"
  by (simp add: be16_eq be_int_def)

lemma be_int_Nil [simp]: "be_int [] = 0"
  by (simp add: be_int_def)

lemma be_int_1 [simp]: "be_int [a] = unat a"
  by (simp add: be_int_def)

lemma be_int_2 [simp]: "be_int [a, b] = 256 * unat a + unat b"
  by (simp add: be_int_def)

lemma be_int_3 [simp]: "be_int [a, b, c] = 65536 * unat a + 256 * unat b + unat c"
  by (simp add: be_int_def)

lemma be_int_snoc: "be_int (bs @ [b]) = 256 * be_int bs + unat b"
  by (simp add: be_int_def)

lemma be_int_lt: "be_int bs < 256 ^ length bs"
proof (induction bs rule: rev_induct)
  case Nil
  then show ?case by simp
next
  case (snoc b bs)
  have "256 * be_int bs + unat b < 256 * 256 ^ length bs"
    using snoc unat_byte_lt [of b] by linarith
  then show ?case by (simp add: be_int_snoc)
qed

lemma length_enc16 [simp]: "length (enc16 n) = 2"
  by (simp add: enc16_def)

lemma length_enc24 [simp]: "length (enc24 n) = 3"
  by (simp add: enc24_def)

lemma be_int_2_lt: "be_int [a, b] < 65536"
  using be_int_lt [of "[a, b]"] by (simp only: length_Cons list.size) simp

lemma be_int_enc16: "n < 65536 \<Longrightarrow> be_int (enc16 n) = n"
  by (simp add: enc16_def unat_of_nat_byte)

lemma be_int_enc24: "n < 16777216 \<Longrightarrow> be_int (enc24 n) = n"
proof -
  assume n: "n < 16777216"
  have "256 * (n div 256) + n mod 256 = n" by simp
  moreover have "256 * (n div 256 div 256) + n div 256 mod 256 = n div 256" by simp
  moreover have "n div 256 div 256 = n div 65536"
    by (simp add: div_mult2_eq [symmetric])
  ultimately have "65536 * (n div 65536) + 256 * (n div 256 mod 256) + n mod 256 = n"
    by linarith
  with n show ?thesis
    by (simp add: enc24_def unat_of_nat_byte)
qed

lemma byte_of_unat [simp]: "(of_nat (unat (b :: byte)) :: byte) = b"
  by simp

lemma enc16_be_int: "length bs = 2 \<Longrightarrow> enc16 (be_int bs) = bs"
proof -
  assume "length bs = 2"
  then obtain a b where bs: "bs = [a, b]"
    by (metis (no_types, opaque_lifting) One_nat_def Suc_1 length_0_conv length_Suc_conv)
  have "unat (of_nat (256 * unat a + unat b) :: byte) = unat b"
    by (simp only: unat_of_nat_byte mod_mult_self4) simp
  then have "(of_nat (256 * unat a + unat b) :: byte) = b"
    by (simp only: word_unat_eq_iff)
  moreover have "(256 * unat a + unat b) div 256 = unat a"
    using unat_byte_lt [of b] by simp
  ultimately show ?thesis
    by (simp add: bs enc16_def)
qed

lemma and_ffff: "(n AND 0xFFFF) = n mod 65536" for n :: nat
proof -
  have "(n AND mask 16) = n mod 2 ^ 16"
    by (simp only: take_bit_eq_mask [symmetric] take_bit_eq_mod)
  then show ?thesis by (simp add: mask_eq_exp_minus_1)
qed

section \<open>Text\<close>

fun find_sub :: "'a list \<Rightarrow> 'a list \<Rightarrow> nat option" where
  \<comment> \<open>\<open>s.find(pat)\<close>, with \<open>None\<close> for -1\<close>
  "find_sub pat [] = (if pat = [] then Some 0 else None)"
| "find_sub pat (x # xs) =
     (if take (length pat) (x # xs) = pat then Some 0 else map_option Suc (find_sub pat xs))"

definition find_from :: "'a list \<Rightarrow> 'a list \<Rightarrow> nat \<Rightarrow> nat option" where
  \<comment> \<open>\<open>s.find(pat, i)\<close> for \<open>i <= len(s)\<close>\<close>
  "find_from pat s i = map_option (\<lambda>k. i + k) (find_sub pat (drop i s))"

definition contains :: "'a list \<Rightarrow> 'a list \<Rightarrow> bool" where
  \<comment> \<open>\<open>pat in s\<close>\<close>
  "contains pat s \<longleftrightarrow> find_sub pat s \<noteq> None"

definition starts_with :: "'a list \<Rightarrow> 'a list \<Rightarrow> bool" where
  "starts_with pat s \<longleftrightarrow> take (length pat) s = pat"

definition ends_with :: "'a list \<Rightarrow> 'a list \<Rightarrow> bool" where
  "ends_with pat s \<longleftrightarrow> length pat \<le> length s \<and> drop (length s - length pat) s = pat"

definition byte_upper :: "byte \<Rightarrow> byte" where
  "byte_upper b = (if 97 \<le> b \<and> b \<le> 122 then b - 32 else b)"

definition bytes_upper :: "bytes \<Rightarrow> bytes" where
  \<comment> \<open>\<open>bytes.upper()\<close> touches ASCII letters only\<close>
  "bytes_upper bs = map byte_upper bs"

definition char_lower :: "char \<Rightarrow> char" where
  "char_lower c =
     (let n = (of_char c :: nat) in if 65 \<le> n \<and> n \<le> 90 then char_of (n + 32) else c)"

definition str_lower :: "string \<Rightarrow> string" where
  "str_lower s = map char_lower s"

definition is_space :: "char \<Rightarrow> bool" where
  "is_space c \<longleftrightarrow> (let n = (of_char c :: nat) in n = 32 \<or> (9 \<le> n \<and> n \<le> 13) \<or> (28 \<le> n \<and> n \<le> 31))"

definition str_strip :: "string \<Rightarrow> string" where
  "str_strip s = rev (dropWhile is_space (rev (dropWhile is_space s)))"

definition hex_digit :: "nat \<Rightarrow> char" where
  "hex_digit n = ''0123456789abcdef'' ! n"

fun hex_of :: "nat \<Rightarrow> string" where
  "hex_of n = (if n < 16 then [hex_digit n] else hex_of (n div 16) @ [hex_digit (n mod 16)])"

fun dec_of :: "nat \<Rightarrow> string" where
  "dec_of n = (if n < 10 then [char_of (48 + n)] else dec_of (n div 10) @ [char_of (48 + n mod 10)])"

declare hex_of.simps [simp del] dec_of.simps [simp del]

definition dec_int :: "int \<Rightarrow> string" where
  "dec_int i = (if i < 0 then ''-'' @ dec_of (nat (- i)) else dec_of (nat i))"

definition pad0 :: "nat \<Rightarrow> string \<Rightarrow> string" where
  "pad0 k s = replicate (k - length s) (CHR ''0'') @ s"

definition hex4 :: "nat \<Rightarrow> string" where
  \<comment> \<open>\<open>f"{v:04x}"\<close>\<close>
  "hex4 v = pad0 4 (hex_of v)"

definition hex0x :: "nat \<Rightarrow> string" where
  \<comment> \<open>\<open>hex(v)\<close>\<close>
  "hex0x v = ''0x'' @ hex_of v"

definition utext :: "string \<Rightarrow> ustr" where
  \<comment> \<open>an ASCII literal as text\<close>
  "utext s = map of_char s"

fun join :: "'a list \<Rightarrow> 'a list list \<Rightarrow> 'a list" where
  "join sep [] = []"
| "join sep [x] = x"
| "join sep (x # y # zs) = x @ sep @ join sep (y # zs)"

fun text_less :: "string \<Rightarrow> string \<Rightarrow> bool" where
  \<comment> \<open>\<open>a < b\<close> on Python strings\<close>
  "text_less a [] = False"
| "text_less [] (y # ys) = True"
| "text_less (x # xs) (y # ys) =
     ((of_char x :: nat) < of_char y \<or> x = y \<and> text_less xs ys)"

lemma length_dec_of: "0 < k \<Longrightarrow> n < 10 ^ k \<Longrightarrow> length (dec_of n) \<le> k"
proof (induction k arbitrary: n)
  case 0
  then show ?case by simp
next
  case (Suc k)
  show ?case
  proof (cases "n < 10")
    case True
    then show ?thesis by (simp add: dec_of.simps [of n])
  next
    case False
    then have "0 < k" using Suc.prems by (cases k) auto
    moreover have "n div 10 < 10 ^ k" using Suc.prems by (simp add: less_mult_imp_div_less mult.commute)
    ultimately have "length (dec_of (n div 10)) \<le> k" by (rule Suc.IH)
    with False show ?thesis by (simp add: dec_of.simps [of n])
  qed
qed

lemma length_pad0: "length s \<le> k \<Longrightarrow> length (pad0 k s) = k"
  by (simp add: pad0_def)

lemma find_sub_bound: "find_sub pat s = Some i \<Longrightarrow> i + length pat \<le> length s"
proof (induction s arbitrary: i)
  case Nil
  then show ?case by (auto split: if_splits)
next
  case (Cons x xs)
  show ?case
  proof (cases "take (length pat) (x # xs) = pat")
    case True
    then have "length pat \<le> length (x # xs)"
      by (metis length_take min.cobounded1)
    with True Cons.prems show ?thesis by simp
  next
    case False
    with Cons show ?thesis by auto
  qed
qed

lemma find_sub_at: "find_sub pat s = Some i \<Longrightarrow> take (length pat) (drop i s) = pat"
  by (induction s arbitrary: i) (auto split: if_splits)

lemma find_sub_None_iff: "find_sub pat s = None \<longleftrightarrow> (\<forall>a b. s \<noteq> a @ pat @ b)"
proof (induction s)
  case Nil
  then show ?case by auto
next
  case (Cons x xs)
  have "take (length pat) (x # xs) = pat \<longleftrightarrow> (\<exists>b. x # xs = pat @ b)"
    by (metis append_eq_conv_conj append_take_drop_id)
  then show ?case
    using Cons by (auto simp: Cons_eq_append_conv)
qed

lemma contains_iff: "contains pat s \<longleftrightarrow> (\<exists>a b. s = a @ pat @ b)"
  by (auto simp: contains_def find_sub_None_iff)

lemma contains_subset: "contains pat s \<Longrightarrow> set pat \<subseteq> set s"
  by (auto simp: contains_iff)

section \<open>Dictionaries with insertion order\<close>

type_synonym ('k, 'v) dict = "('k \<times> 'v) list"

abbreviation dget :: "('k, 'v) dict \<Rightarrow> 'k \<Rightarrow> 'v option" where
  "dget \<equiv> map_of"

abbreviation dset :: "'k \<Rightarrow> 'v \<Rightarrow> ('k, 'v) dict \<Rightarrow> ('k, 'v) dict" where
  "dset \<equiv> AList.update"

abbreviation ddel :: "'k \<Rightarrow> ('k, 'v) dict \<Rightarrow> ('k, 'v) dict" where
  "ddel \<equiv> AList.delete"

definition dget_or :: "('k, 'v) dict \<Rightarrow> 'k \<Rightarrow> 'v \<Rightarrow> 'v" where
  "dget_or d k v = (case dget d k of None \<Rightarrow> v | Some x \<Rightarrow> x)"

definition dict_ok :: "('k, 'v) dict \<Rightarrow> bool" where
  "dict_ok d \<longleftrightarrow> distinct (map fst d)"

lemma dict_ok_Nil [simp]: "dict_ok []"
  by (simp add: dict_ok_def)

lemma dict_ok_dset [simp, intro]: "dict_ok d \<Longrightarrow> dict_ok (dset k v d)"
  by (simp add: dict_ok_def distinct_update)

lemma dict_ok_ddel [simp, intro]: "dict_ok d \<Longrightarrow> dict_ok (ddel k d)"
  by (simp add: dict_ok_def distinct_delete)

lemma dget_dset [simp]: "dget (dset k v d) = (dget d)(k \<mapsto> v)"
  by (rule update_conv')

lemma dget_ddel [simp]: "dget (ddel k d) = (dget d)(k := None)"
  by (rule delete_conv')

lemma length_ddel_less: "dget d k = Some v \<Longrightarrow> length (ddel k d) < length d"
proof (induction d)
  case Nil
  then show ?case by simp
next
  case (Cons p d)
  then show ?case
    by (cases p) (auto simp: less_Suc_eq_le length_delete_le split: if_splits)
qed

lemma length_dset_le: "length (dset k v d) \<le> Suc (length d)"
  by (induction d) auto

end
