(* ===== verification/Interfaces.thy ===== *)
theory Interfaces
  imports Prelude
begin

text \<open>
  The contracts that several components of the program share, stated once as locales and
  interpreted by the components that provide them:

  \<^item> \<open>framing\<close>: a length-prefixed wire format whose read step inverts its encoder. The loops
    over TLS extensions, handshake messages and certificate entries are instances.
  \<^item> \<open>fifo\<close>: a buffer that is read from the front and acknowledged by dropping a prefix. The
    agent's disk queue and the capture publisher's deque are instances.
  \<^item> \<open>rule_engine\<close>: a list of rules that append to a log and read nothing but the facts beside
    it. The session rules and the flow rules are instances.
  \<^item> \<open>single_use\<close>: a store that accepts each key at most once. The ticket stores of the
    authentication layer and the OIDC state store are instances.
\<close>

section \<open>Length-prefixed frames\<close>

fun frames :: "nat \<Rightarrow> ('b list \<Rightarrow> ('a \<times> 'b list) option) \<Rightarrow> 'b list \<Rightarrow> 'a list \<times> 'b list" where
  \<comment> \<open>at most \<open>n\<close> frames from the front of the input, and the unread rest\<close>
  "frames 0 step bs = ([], bs)"
| "frames (Suc n) step bs =
     (case step bs of
        None \<Rightarrow> ([], bs)
      | Some (x, r) \<Rightarrow> (let (xs, r') = frames n step r in (x # xs, r')))"

lemma frames_None: "step bs = None \<Longrightarrow> frames n step bs = ([], bs)"
  by (cases n) auto

lemma length_frames: "length (fst (frames n step bs)) \<le> n"
  by (induction n arbitrary: bs) (auto split: option.splits prod.splits simp: Let_def split_beta)

locale framing =
  fixes enc :: "'a \<Rightarrow> 'b list"
    and ok :: "'a \<Rightarrow> bool"
    and step :: "'b list \<Rightarrow> ('a \<times> 'b list) option"
  assumes step_enc: "ok x \<Longrightarrow> step (enc x @ rest) = Some (x, rest)"
    and step_sound: "step bs = Some (x, rest) \<Longrightarrow> ok x \<and> bs = enc x @ rest"
begin

lemma frames_enc:
  "list_all ok xs \<Longrightarrow> length xs \<le> n \<Longrightarrow>
   frames n step (concat (map enc xs) @ rest) =
     (let (ys, r) = frames (n - length xs) step rest in (xs @ ys, r))"
proof (induction xs arbitrary: n)
  case Nil
  then show ?case by (simp add: Let_def split_beta)
next
  case (Cons x xs)
  then obtain m where "n = Suc m" by (cases n) auto
  with Cons show ?case
    by (simp add: step_enc Let_def split_beta)
qed

lemma frames_enc_all:
  "list_all ok xs \<Longrightarrow> length xs \<le> n \<Longrightarrow> step [] = None \<Longrightarrow>
   frames n step (concat (map enc xs)) = (xs, [])"
  using frames_enc [of xs n "[]"] by (simp add: frames_None)

lemma frames_sound:
  "frames n step bs = (xs, r) \<Longrightarrow> bs = concat (map enc xs) @ r \<and> list_all ok xs"
proof (induction n arbitrary: bs xs)
  case 0
  then show ?case by simp
next
  case (Suc n)
  show ?case
  proof (cases "step bs")
    case None
    with Suc.prems show ?thesis by simp
  next
    case (Some p)
    then obtain x r0 where p: "step bs = Some (x, r0)" by (cases p) auto
    with Suc.prems obtain ys where "frames n step r0 = (ys, r)" "xs = x # ys"
      by (auto split: prod.splits)
    with Suc.IH [of r0 ys] step_sound [OF p] show ?thesis by simp
  qed
qed

lemma frames_stop:
  "frames n step bs = (xs, r) \<Longrightarrow> length xs < n \<Longrightarrow> step r = None"
proof (induction n arbitrary: bs xs)
  case 0
  then show ?case by simp
next
  case (Suc n)
  then show ?case by (fastforce split: option.splits prod.splits)
qed

end

section \<open>First-in first-out buffers\<close>

datatype 'a fifo_op = Push 'a | Ship nat

locale fifo =
  fixes items :: "'q \<Rightarrow> 'a list"
    and push :: "'a \<Rightarrow> 'q \<Rightarrow> 'q"
    and peek :: "nat \<Rightarrow> 'q \<Rightarrow> 'a list"
    and pop :: "nat \<Rightarrow> 'q \<Rightarrow> 'q"
    and good :: "'q \<Rightarrow> bool"
    and fits :: "'a \<Rightarrow> 'q \<Rightarrow> bool"
  assumes items_push: "good q \<Longrightarrow> fits x q \<Longrightarrow> items (push x q) = items q @ [x]"
    and good_push: "good q \<Longrightarrow> fits x q \<Longrightarrow> good (push x q)"
    and peek_eq: "good q \<Longrightarrow> peek n q = take n (items q)"
    and items_pop: "good q \<Longrightarrow> n \<le> length (items q) \<Longrightarrow> items (pop n q) = drop n (items q)"
    and good_pop: "good q \<Longrightarrow> n \<le> length (items q) \<Longrightarrow> good (pop n q)"
begin

fun run :: "'a fifo_op list \<Rightarrow> 'q \<times> 'a list \<times> 'a list \<Rightarrow> 'q \<times> 'a list \<times> 'a list" where
  \<comment> \<open>a producer pushes, a consumer reads a batch, hands it over and acknowledges it; the last
     two components record everything pushed and everything handed over\<close>
  "run [] s = s"
| "run (Push x # ops) (q, pushed, sent) = run ops (push x q, pushed @ [x], sent)"
| "run (Ship n # ops) (q, pushed, sent) =
     (let b = peek n q in run ops (pop (length b) q, pushed, sent @ b))"

fun admitted :: "'a fifo_op list \<Rightarrow> 'q \<Rightarrow> bool" where
  "admitted [] q \<longleftrightarrow> True"
| "admitted (Push x # ops) q \<longleftrightarrow> fits x q \<and> admitted ops (push x q)"
| "admitted (Ship n # ops) q \<longleftrightarrow> admitted ops (pop (length (peek n q)) q)"

lemma run_delivers:
  "good q \<Longrightarrow> admitted ops q \<Longrightarrow> sent @ items q = pushed \<Longrightarrow>
   run ops (q, pushed, sent) = (q', pushed', sent') \<Longrightarrow>
   good q' \<and> sent' @ items q' = pushed'"
proof (induction ops arbitrary: q pushed sent)
  case Nil
  then show ?case by simp
next
  case (Cons op ops)
  show ?case
  proof (cases op)
    case (Push x)
    from Cons.prems Push have "good (push x q)" "sent @ items (push x q) = pushed @ [x]"
      by (simp_all add: good_push items_push)
    with Cons.prems Push show ?thesis by (intro Cons.IH [of "push x q"]) auto
  next
    case (Ship n)
    let ?b = "peek n q"
    have b: "?b = take n (items q)" "length ?b \<le> length (items q)"
      using Cons.prems(1) by (simp_all add: peek_eq)
    then have "items (pop (length ?b) q) = drop (length ?b) (items q)"
      using Cons.prems(1) by (intro items_pop) auto
    then have "(sent @ ?b) @ items (pop (length ?b) q) = pushed"
      using Cons.prems(3) b(1) by (auto simp: min_def)
    moreover have "good (pop (length ?b) q)"
      using Cons.prems(1) b(2) by (rule good_pop)
    ultimately show ?thesis
      using Cons.prems Ship by (intro Cons.IH [of "pop (length ?b) q"]) (auto simp: Let_def)
  qed
qed

end

section \<open>Rules that append to a log\<close>

locale rule_engine =
  fixes rules :: "('s \<Rightarrow> 's) list"
    and facts :: "'s \<Rightarrow> 's"
    and log :: "'s \<Rightarrow> 'f list"
  assumes keeps_facts: "r \<in> set rules \<Longrightarrow> facts (r s) = facts s"
    and appends: "r \<in> set rules \<Longrightarrow> log (r s) = log s @ log (r (facts s))"
begin

definition run :: "'s \<Rightarrow> 's" where
  "run s = foldl (\<lambda>s r. r s) s rules"

lemma run_prefix_facts:
  "set rs \<subseteq> set rules \<Longrightarrow> facts (foldl (\<lambda>s r. r s) s rs) = facts s"
  by (induction rs arbitrary: s) (simp_all add: keeps_facts)

lemma run_prefix_log:
  "set rs \<subseteq> set rules \<Longrightarrow>
   log (foldl (\<lambda>s r. r s) s rs) = log s @ concat (map (\<lambda>r. log (r (facts s))) rs)"
proof (induction rs arbitrary: s)
  case Nil
  then show ?case by simp
next
  case (Cons r rs)
  then have "r \<in> set rules" "set rs \<subseteq> set rules" by simp_all
  with Cons.IH [of "r s"] show ?case
    by (simp add: keeps_facts appends [of r s])
qed

lemma run_facts: "facts (run s) = facts s"
  unfolding run_def by (rule run_prefix_facts) simp

lemma run_log: "log (run s) = log s @ concat (map (\<lambda>r. log (r (facts s))) rules)"
  unfolding run_def by (rule run_prefix_log) simp

lemma run_log_mem:
  "f \<in> set (log (run s)) \<longleftrightarrow> f \<in> set (log s) \<or> (\<exists>r\<in>set rules. f \<in> set (log (r (facts s))))"
  by (simp add: run_log)

end

section \<open>Stores that accept a key once\<close>

locale single_use =
  fixes used :: "'s \<Rightarrow> 'k \<Rightarrow> bool"
    and burn :: "'k \<Rightarrow> 's \<Rightarrow> 's option"
    and room :: "'s \<Rightarrow> bool"
    and same :: "'k \<Rightarrow> 'k \<Rightarrow> bool"
  assumes burn_None: "burn k s = None \<longleftrightarrow> used s k"
    and burn_used: "burn k s = Some s' \<Longrightarrow> same k j \<Longrightarrow> used s' j"
    and burn_keeps: "burn k s = Some s' \<Longrightarrow> room s \<Longrightarrow> used s j \<Longrightarrow> used s' j"
begin

fun burn_all :: "'k list \<Rightarrow> 's \<Rightarrow> bool list \<times> 's" where
  "burn_all [] s = ([], s)"
| "burn_all (k # ks) s =
     (case burn k s of
        None \<Rightarrow> (let (rs, t) = burn_all ks s in (False # rs, t))
      | Some s' \<Rightarrow> (let (rs, t) = burn_all ks s' in (True # rs, t)))"

fun roomy :: "'k list \<Rightarrow> 's \<Rightarrow> bool" where
  "roomy [] s \<longleftrightarrow> True"
| "roomy (k # ks) s \<longleftrightarrow>
     room s \<and> (case burn k s of None \<Rightarrow> roomy ks s | Some s' \<Rightarrow> roomy ks s')"

lemma burn_twice: "burn k s = Some s' \<Longrightarrow> same k j \<Longrightarrow> burn j s' = None"
  by (simp add: burn_None burn_used)

lemma used_never_accepted:
  "used s k \<Longrightarrow> roomy ks s \<Longrightarrow> i < length ks \<Longrightarrow> ks ! i = k \<Longrightarrow> \<not> fst (burn_all ks s) ! i"
proof (induction ks arbitrary: s i)
  case Nil
  then show ?case by simp
next
  case (Cons j ks)
  show ?case
  proof (cases "burn j s")
    case None
    with Cons.prems Cons.IH [of s "i - 1"] show ?thesis
      by (cases i) (auto simp: Let_def split_beta)
  next
    case (Some s')
    then have "used s' k" using burn_keeps [OF Some] Cons.prems by simp
    moreover have "j \<noteq> k" using Some Cons.prems(1) burn_None by (metis option.distinct(1))
    ultimately show ?thesis
      using Some Cons.prems Cons.IH [of s' "i - 1"]
      by (cases i) (auto simp: Let_def split_beta)
  qed
qed

lemma accepted_at_most_once:
  "roomy ks s \<Longrightarrow> i < j \<Longrightarrow> j < length ks \<Longrightarrow> same (ks ! i) (ks ! j) \<Longrightarrow>
   fst (burn_all ks s) ! i \<Longrightarrow> \<not> fst (burn_all ks s) ! j"
proof (induction ks arbitrary: s i j)
  case Nil
  then show ?case by simp
next
  case (Cons k ks)
  obtain j' where j: "j = Suc j'" using Cons.prems(2) by (cases j) auto
  show ?case
  proof (cases i)
    case 0
    with Cons.prems obtain s' where s': "burn k s = Some s'"
      by (cases "burn k s") (auto simp: Let_def split_beta)
    moreover have "same k (ks ! j')" using Cons.prems 0 j by simp
    ultimately have "used s' (ks ! j')" by (rule burn_used)
    moreover have "roomy ks s'" "j' < length ks"
      using Cons.prems s' 0 j by auto
    ultimately show ?thesis
      using used_never_accepted [of s' "ks ! j'" ks j'] s' j by (simp add: Let_def split_beta)
  next
    case (Suc i')
    with Cons.prems Cons.IH [of _ i' j'] j show ?thesis
      by (cases "burn k s") (auto simp: Let_def split_beta)
  qed
qed

end

end
