(* ===== verification/TLS_Records.thy ===== *)
theory TLS_Records
  imports Interfaces
begin

text \<open>
  TLS record framing and the search for the plaintext/TLS boundary
  (src/backend/app/parsing/tls_records.py). The wire format of a record is \<open>enc_record\<close>;
  the loop of \<open>parse_tls_records\<close> is related to the reference loop \<open>frames\<close> over the
  one-record step \<open>tls_step\<close>, which interprets the \<open>framing\<close> contract.
\<close>

section \<open>Definitions\<close>

record tls_record =
  content_type :: nat
  rec_version :: nat
  rec_payload :: bytes

definition read_header :: "bytes \<Rightarrow> (nat \<times> nat \<times> nat) res" where
  \<comment> \<open>content type, version and length of the record whose first byte is at the cursor\<close>
  "read_header rest =
     bindR (byte_at rest 0) (\<lambda>ct.
     bindR (byte_at rest 1) (\<lambda>v1.
     bindR (byte_at rest 2) (\<lambda>v2.
     bindR (byte_at rest 3) (\<lambda>l1.
     bindR (byte_at rest 4) (\<lambda>l2.
       Inr (ct, be16 v1 v2, be16 l1 l2))))))"

definition tls_content_types :: "nat list" where
  "tls_content_types = [20, 21, 22, 23]"

definition max_record_length :: nat where
  "max_record_length = 65535 + 2048"

definition bad_type_msg :: "nat \<Rightarrow> nat \<Rightarrow> string" where
  "bad_type_msg ct pos =
     ''invalid TLS content type 0x'' @ pad0 2 (hex_of ct) @ '' at offset '' @ dec_of pos"

definition absurd_length_msg :: "nat \<Rightarrow> nat \<Rightarrow> string" where
  "absurd_length_msg len pos =
     ''absurd TLS record length '' @ dec_of len @ '' at offset '' @ dec_of pos"

function parse_records_loop ::
  "nat \<Rightarrow> nat \<Rightarrow> bytes \<Rightarrow> tls_record list \<Rightarrow> tls_record list res" where
  \<comment> \<open>\<open>rest\<close> is \<open>data[pos:]\<close>\<close>
  "parse_records_loop max_records pos rest records =
     (if rest = [] then Inr records
      else if length rest < 5 then Inr records
      else (case read_header rest of
        Inl e \<Rightarrow> Inl e
      | Inr (ct, ver, len) \<Rightarrow>
          if ct \<notin> set tls_content_types then Inl (TlsParseError (bad_type_msg ct pos))
          else if max_record_length < len then Inl (TlsParseError (absurd_length_msg len pos))
          else if length rest - 5 < len then Inr records
          else (let records' = records @
                      [\<lparr>content_type = ct, rec_version = ver, rec_payload = py_slice rest 5 (5 + len)\<rparr>]
                in if max_records \<le> length records' then Inr records'
                   else parse_records_loop max_records (pos + 5 + len) (drop (5 + len) rest) records')))"
  by pat_completeness auto
termination
  by (relation "measure (\<lambda>(m, p, rest, rs). length rest)") auto

declare parse_records_loop.simps [simp del]

definition parse_tls_records :: "bytes \<Rightarrow> nat \<Rightarrow> tls_record list res" where
  "parse_tls_records data max_records = parse_records_loop max_records 0 data []"

definition default_max_records :: nat where
  "default_max_records = 4096"

definition starttls_command :: "string \<Rightarrow> bytes option" where
  "starttls_command protocol =
     (if protocol = ''SMTP'' then Some (ascii ''STARTTLS'')
      else if protocol = ''IMAP'' then Some (ascii ''STARTTLS'')
      else if protocol = ''POP3'' then Some (ascii ''STLS'')
      else None)"

definition tls_versions :: "nat list" where
  "tls_versions = [0x0300, 0x0301, 0x0302, 0x0303, 0x0304]"

definition valid_record_at :: "bytes \<Rightarrow> nat \<Rightarrow> (nat \<times> nat) option" where
  "valid_record_at data pos =
     (if length data < pos + 5 then None
      else (case read_header (drop pos data) of
        Inl e \<Rightarrow> None
      | Inr (ct, ver, len) \<Rightarrow>
          if ct \<notin> set tls_content_types then None
          else if ver \<notin> set tls_versions then None
          else if max_record_length < len then None
          else if length data < pos + 5 + len then None
          else Some (ct, len)))"

definition scan_positions :: "bytes \<Rightarrow> nat \<Rightarrow> nat list" where
  \<comment> \<open>the values \<open>pos\<close> takes in \<open>while pos <= min(len(data) - 5, max_scan)\<close>\<close>
  "scan_positions data max_scan =
     (if length data < 5 then [] else [0 ..< Suc (min (length data - 5) max_scan)])"

definition find_tls_offset :: "bytes \<Rightarrow> nat \<Rightarrow> nat option" where
  "find_tls_offset data max_scan =
     (if data = [] then None
      else List.find (\<lambda>pos. valid_record_at data pos \<noteq> None) (scan_positions data max_scan))"

definition default_max_scan :: nat where
  "default_max_scan = 8192"

definition crlf :: bytes where
  "crlf = [13, 10]"

definition find_starttls_offset :: "bytes \<Rightarrow> string \<Rightarrow> nat option" where
  "find_starttls_offset plaintext_segment protocol =
     (case starttls_command protocol of
        None \<Rightarrow> None
      | Some cmd \<Rightarrow>
          (case find_sub cmd plaintext_segment of
             None \<Rightarrow> None
           | Some idx \<Rightarrow>
               (case find_from crlf plaintext_segment idx of
                  None \<Rightarrow> None
                | Some eol \<Rightarrow> Some (eol + 2))))"

section \<open>The wire format\<close>

definition rec_ok :: "tls_record \<Rightarrow> bool" where
  "rec_ok r \<longleftrightarrow> content_type r \<in> set tls_content_types \<and> rec_version r < 65536
     \<and> length (rec_payload r) < 65536"

definition enc_record :: "tls_record \<Rightarrow> bytes" where
  "enc_record r =
     of_nat (content_type r) # enc16 (rec_version r) @ enc16 (length (rec_payload r)) @ rec_payload r"

definition tls_step :: "bytes \<Rightarrow> (tls_record \<times> bytes) option" where
  \<comment> \<open>one complete record from the front, if there is one\<close>
  "tls_step rest =
     (if length rest < 5 then None
      else (case read_header rest of
        Inl e \<Rightarrow> None
      | Inr (ct, ver, len) \<Rightarrow>
          if ct \<notin> set tls_content_types \<or> length rest - 5 < len then None
          else Some (\<lparr>content_type = ct, rec_version = ver, rec_payload = py_slice rest 5 (5 + len)\<rparr>,
                     drop (5 + len) rest)))"

definition starts_record :: "bytes \<Rightarrow> nat \<Rightarrow> bool" where
  \<comment> \<open>a complete record of a known version starts at \<open>pos\<close>\<close>
  "starts_record data pos \<longleftrightarrow>
     (\<exists>r rest. pos \<le> length data \<and> drop pos data = enc_record r @ rest \<and> rec_ok r
        \<and> rec_version r \<in> set tls_versions)"

section \<open>Lemmas\<close>

lemma length_ge_5E:
  assumes "5 \<le> length xs"
  obtains a b c d e ys where "xs = a # b # c # d # e # ys"
  using assms by (auto simp: numeral_eq_Suc Suc_le_length_iff)

lemma rec_eta [simp]:
  "\<lparr>content_type = content_type r, rec_version = rec_version r, rec_payload = rec_payload r\<rparr> = r"
  by (cases r) simp

lemma drop_5 [simp]: "drop (5 + n) (a # b # c # d # e # ys) = drop n ys"
  by (simp add: numeral_eq_Suc)

lemma read_header_Cons:
  "read_header (a # b # c # d # e # ys) = Inr (unat a, be_int [b, c], be_int [d, e])"
  by (simp add: read_header_def byte_at_def be16_bytes del: be_int_2)

lemma read_header_ok:
  assumes "5 \<le> length rest"
  obtains ct ver len where "read_header rest = Inr (ct, ver, len)" "ver < 65536" "len < 65536"
proof -
  from assms obtain a b c d e ys where "rest = a # b # c # d # e # ys" by (rule length_ge_5E)
  then show ?thesis
    using that be_int_2_lt by (simp only: read_header_Cons)
qed

lemma content_type_lt: "c \<in> set tls_content_types \<Longrightarrow> c < 256"
  by (auto simp: tls_content_types_def)

lemma read_header_enc:
  assumes "rec_ok r"
  shows "read_header (enc_record r @ rest) =
    Inr (content_type r, rec_version r, length (rec_payload r))"
proof -
  obtain b c where v: "enc16 (rec_version r) = [b, c]" by (simp add: enc16_def)
  obtain d e where l: "enc16 (length (rec_payload r)) = [d, e]" by (simp add: enc16_def)
  have "be_int [b, c] = rec_version r" "be_int [d, e] = length (rec_payload r)"
    using be_int_enc16 assms v l unfolding rec_ok_def by metis+
  moreover have "unat (of_nat (content_type r) :: byte) = content_type r"
    using content_type_lt assms by (simp add: unat_of_nat_byte rec_ok_def)
  ultimately show ?thesis
    by (simp add: enc_record_def v l read_header_Cons del: be_int_2)
qed

lemma length_enc_record [simp]: "length (enc_record r) = 5 + length (rec_payload r)"
  by (simp add: enc_record_def)

lemma drop_enc_record: "drop (5 + length (rec_payload r)) (enc_record r @ rest) = rest"
  using length_enc_record [of r] by (metis append_eq_conv_conj)

lemma slice_enc_record:
  "py_slice (enc_record r @ rest) 5 (5 + length (rec_payload r)) = rec_payload r"
  by (simp add: py_slice_def enc_record_def enc16_def)

lemma tls_step_enc: "rec_ok r \<Longrightarrow> tls_step (enc_record r @ rest) = Some (r, rest)"
  unfolding tls_step_def
  by (simp add: read_header_enc slice_enc_record drop_enc_record rec_ok_def del: drop_append)

lemma tls_step_sound:
  assumes "tls_step bs = Some (r, rest)"
  shows "rec_ok r \<and> bs = enc_record r @ rest"
proof -
  from assms have "5 \<le> length bs" by (simp add: tls_step_def split: if_splits)
  then obtain a b c d e ys where bs: "bs = a # b # c # d # e # ys" by (rule length_ge_5E)
  let ?len = "be_int [d, e]"
  have r: "r = \<lparr>content_type = unat a, rec_version = be_int [b, c], rec_payload = take ?len ys\<rparr>"
    and rest: "rest = drop ?len ys" and a: "unat a \<in> set tls_content_types"
    and len: "?len \<le> length ys"
    using assms
    by (auto simp: tls_step_def bs read_header_Cons py_slice_def simp del: be_int_2 split: if_splits)
  have e: "enc16 (be_int [b, c]) = [b, c]" "enc16 ?len = [d, e]"
    by (simp_all add: enc16_be_int del: be_int_2)
  show ?thesis
    using a len be_int_2_lt
    by (simp add: r rest bs rec_ok_def enc_record_def e min_def del: be_int_2)
qed

interpretation tls: framing enc_record rec_ok tls_step
  by unfold_locales (auto simp: tls_step_enc dest: tls_step_sound)

lemma tls_step_Nil [simp]: "tls_step [] = None"
  by (simp add: tls_step_def)

lemma parse_loop_step:
  assumes "tls_step rest = Some (r, rest')"
  shows "parse_records_loop m pos rest rs =
     (if m \<le> Suc (length rs) then Inr (rs @ [r])
      else parse_records_loop m (pos + 5 + length (rec_payload r)) rest' (rs @ [r]))"
proof -
  from tls_step_sound [OF assms] have ok: "rec_ok r" and rest: "rest = enc_record r @ rest'"
    by auto
  have "length (rec_payload r) \<le> max_record_length"
    using ok by (simp add: rec_ok_def max_record_length_def)
  moreover have "enc_record r \<noteq> []" by (simp add: enc_record_def)
  ultimately show ?thesis
    using ok
    by (subst parse_records_loop.simps)
      (simp add: rest read_header_enc slice_enc_record drop_enc_record Let_def rec_ok_def
        not_less del: drop_append)
qed

lemma parse_loop_stop:
  assumes "tls_step rest = None"
  shows "parse_records_loop m pos rest rs = Inr rs \<or>
    (\<exists>ct ver len. read_header rest = Inr (ct, ver, len) \<and> ct \<notin> set tls_content_types \<and>
       parse_records_loop m pos rest rs = Inl (TlsParseError (bad_type_msg ct pos)))"
proof (cases "length rest < 5")
  case True
  then show ?thesis by (simp add: parse_records_loop.simps [of m pos rest])
next
  case False
  then obtain ct ver len where h: "read_header rest = Inr (ct, ver, len)" "len < 65536"
    by (metis read_header_ok not_less)
  have "\<not> max_record_length < len" using h(2) by (simp add: max_record_length_def)
  with False h assms show ?thesis
    by (auto simp: parse_records_loop.simps [of m pos rest] tls_step_def split: if_splits)
qed

lemma parse_loop_frames:
  "length rs < m \<Longrightarrow> parse_records_loop m pos rest rs = Inr out \<Longrightarrow>
   out = rs @ fst (frames (m - length rs) tls_step rest)"
proof (induction "length rest" arbitrary: pos rest rs rule: less_induct)
  case less
  obtain k where k: "m - length rs = Suc k" using less.prems(1) by (cases "m - length rs") auto
  show ?case
  proof (cases "tls_step rest")
    case None
    then show ?thesis
      using parse_loop_stop [OF None, of m pos rs] less.prems by (auto simp: frames_None)
  next
    case (Some p)
    then obtain r rest' where p: "tls_step rest = Some (r, rest')" by (cases p) auto
    then have "length rest' < length rest" using tls_step_sound [OF p] by simp
    moreover have "m - length (rs @ [r]) = k" using k by simp
    ultimately show ?thesis
      using less.hyps [of rest' "rs @ [r]" "pos + 5 + length (rec_payload r)"] less.prems k p
      by (auto simp: parse_loop_step [OF p] Let_def split_beta split: if_splits)
  qed
qed

lemma parse_loop_enc:
  "list_all rec_ok xs \<Longrightarrow> length rs + length xs \<le> m \<Longrightarrow> xs \<noteq> [] \<Longrightarrow>
   parse_records_loop m pos (concat (map enc_record xs)) rs = Inr (rs @ xs)"
proof (induction xs arbitrary: pos rs)
  case Nil
  then show ?case by simp
next
  case (Cons x xs)
  then have "tls_step (concat (map enc_record (x # xs))) = Some (x, concat (map enc_record xs))"
    by (simp add: tls_step_enc)
  note step = parse_loop_step [OF this]
  show ?case
  proof (cases "xs = []")
    case True
    with Cons.prems show ?thesis
      using step [of m pos rs] by (simp add: parse_records_loop.simps [of m _ "[]"])
  next
    case False
    then have "Suc (length rs) < m" using Cons.prems by (cases xs) auto
    with Cons False show ?thesis
      using step [of m pos rs] by simp
  qed
qed

lemma valid_record_at_iff:
  "valid_record_at data pos = Some (ct, len) \<longleftrightarrow>
   (\<exists>r rest. pos \<le> length data \<and> drop pos data = enc_record r @ rest \<and> rec_ok r
      \<and> rec_version r \<in> set tls_versions \<and> content_type r = ct \<and> length (rec_payload r) = len)"
proof
  assume v: "valid_record_at data pos = Some (ct, len)"
  then have len5: "5 \<le> length (drop pos data)" and pos: "pos \<le> length data"
    by (auto simp: valid_record_at_def split: if_splits)
  obtain ver where h: "read_header (drop pos data) = Inr (ct, ver, len)"
    "ct \<in> set tls_content_types" "ver \<in> set tls_versions" "pos + 5 + len \<le> length data"
    using v by (auto simp: valid_record_at_def not_less split: if_splits sum.splits prod.splits)
  obtain r rest where s: "tls_step (drop pos data) = Some (r, rest)"
    "content_type r = ct" "rec_version r = ver" "length (rec_payload r) = len"
  proof -
    let ?r = "\<lparr>content_type = ct, rec_version = ver, rec_payload = py_slice (drop pos data) 5 (5 + len)\<rparr>"
    have "tls_step (drop pos data) = Some (?r, drop (5 + len) (drop pos data))"
      using h len5 by (simp add: tls_step_def)
    moreover have "length (rec_payload ?r) = len"
      using h len5 by (simp add: py_slice_def)
    ultimately show ?thesis using that by simp
  qed
  with tls_step_sound [OF s(1)] h pos show "\<exists>r rest. pos \<le> length data \<and>
      drop pos data = enc_record r @ rest \<and> rec_ok r \<and> rec_version r \<in> set tls_versions \<and>
      content_type r = ct \<and> length (rec_payload r) = len"
    by blast
next
  assume "\<exists>r rest. pos \<le> length data \<and> drop pos data = enc_record r @ rest \<and> rec_ok r
      \<and> rec_version r \<in> set tls_versions \<and> content_type r = ct \<and> length (rec_payload r) = len"
  then obtain r rest where r: "pos \<le> length data" "drop pos data = enc_record r @ rest" "rec_ok r"
    "rec_version r \<in> set tls_versions" "content_type r = ct" "length (rec_payload r) = len"
    by blast
  have "length (drop pos data) = 5 + len + length rest" using r by simp
  then have "pos + 5 + len \<le> length data" using r(1) by simp
  moreover have "\<not> max_record_length < len"
    using r by (simp add: rec_ok_def max_record_length_def)
  ultimately show "valid_record_at data pos = Some (ct, len)"
    using r by (simp add: valid_record_at_def read_header_enc rec_ok_def)
qed

lemma starts_record_iff: "valid_record_at data pos \<noteq> None \<longleftrightarrow> starts_record data pos"
proof -
  have "valid_record_at data pos \<noteq> None \<longleftrightarrow> (\<exists>ct len. valid_record_at data pos = Some (ct, len))"
    by auto
  then show ?thesis by (simp only: valid_record_at_iff starts_record_def) blast
qed

lemma find_Some_first:
  "List.find P [0 ..< n] = Some p \<longleftrightarrow> p < n \<and> P p \<and> (\<forall>q < p. \<not> P q)"
  by (auto simp: find_Some_iff)

lemma find_tls_offset_first:
  "find_tls_offset data m = Some p \<longleftrightarrow>
   p \<le> m \<and> valid_record_at data p \<noteq> None \<and> (\<forall>q < p. \<not> (valid_record_at data q \<noteq> None))"
proof -
  have len: "p + 5 \<le> length data" if "valid_record_at data p \<noteq> None"
    using that by (simp add: valid_record_at_def not_less split: if_splits)
  show ?thesis
    using len
    by (auto simp: find_tls_offset_def scan_positions_def find_Some_first
        simp del: upt_Suc not_None_eq)
qed


lemma parse_loop_error:
  "parse_records_loop m pos rest rs = Inl e \<Longrightarrow>
   \<exists>ct p. ct \<notin> set tls_content_types \<and> e = TlsParseError (bad_type_msg ct p)"
proof (induction "length rest" arbitrary: pos rest rs rule: less_induct)
  case less
  show ?case
  proof (cases "tls_step rest")
    case None
    then show ?thesis
      using parse_loop_stop [OF None, of m pos rs] less.prems by auto
  next
    case (Some p)
    then obtain r rest' where p: "tls_step rest = Some (r, rest')" by (cases p) auto
    then have "length rest' < length rest" using tls_step_sound [OF p] by simp
    with less show ?thesis
      by (auto simp: parse_loop_step [OF p] split: if_splits)
  qed
qed

section \<open>Properties\<close>

lemma parse_tls_records_enc:
  assumes "list_all rec_ok rs" and "length rs \<le> max_records"
  shows "parse_tls_records (concat (map enc_record rs)) max_records = Inr rs"
proof (cases "rs = []")
  case True
  then show ?thesis by (simp add: parse_tls_records_def parse_records_loop.simps [of _ _ "[]"])
next
  case False
  then show ?thesis
    using parse_loop_enc [of rs "[]" max_records 0] assms by (simp add: parse_tls_records_def)
qed

text \<open>C11: Serialising well-formed TLS records and parsing the bytes gives the records back, for any
  number of records up to the limit.\<close>
theorem parse_tls_records_roundtrip:
  assumes "list_all rec_ok rs" and "length rs \<le> max_records"
  shows "parse_tls_records (concat (map enc_record rs)) max_records = Inr rs"
  using assms by (rule parse_tls_records_enc)

theorem parse_tls_records_roundtrip_witness:
  "parse_tls_records [22, 3, 3, 0, 2, 7, 9, 23, 3, 1, 0, 1, 5] 4096 =
     Inr [\<lparr>content_type = 22, rec_version = 0x0303, rec_payload = [7, 9]\<rparr>,
          \<lparr>content_type = 23, rec_version = 0x0301, rec_payload = [5]\<rparr>]"
proof -
  have e: "(771 :: byte) = 3" "(769 :: byte) = 1" by simp_all
  show ?thesis
  using parse_tls_records_roundtrip
    [of "[\<lparr>content_type = 22, rec_version = 0x0303, rec_payload = [7, 9]\<rparr>,
          \<lparr>content_type = 23, rec_version = 0x0301, rec_payload = [5]\<rparr>]" 4096]
  by (simp add: rec_ok_def tls_content_types_def enc_record_def enc16_def e)
qed

text \<open>Whatever bytes arrive, a successful parse is a decomposition of the input: the records are
  well formed, their encodings followed by an unread rest are the input, and when the limit was not
  reached the rest holds no complete record.\<close>
theorem parse_tls_records_sound:
  assumes "parse_tls_records data max_records = Inr rs" and "0 < max_records"
  shows "\<exists>rest. data = concat (map enc_record rs) @ rest \<and> list_all rec_ok rs
    \<and> length rs \<le> max_records \<and> (length rs < max_records \<longrightarrow> tls_step rest = None)"
proof -
  obtain rest where f: "frames max_records tls_step data = (rs, rest)"
    using parse_loop_frames [of "[]" max_records 0 data rs] assms
    by (auto simp: parse_tls_records_def prod_eq_iff)
  then show ?thesis
    using tls.frames_sound [OF f] tls.frames_stop [OF f]
      length_frames [of max_records tls_step data] by auto
qed

theorem parse_tls_records_sound_witness:
  "\<exists>rest. [22, 3, 3, 0, 1, 7, 23, 3] =
      concat (map enc_record [\<lparr>content_type = 22, rec_version = 0x0303, rec_payload = [7]\<rparr>]) @ rest"
proof -
  have "parse_tls_records [22, 3, 3, 0, 1, 7, 23, 3] 5 =
      Inr [\<lparr>content_type = 22, rec_version = 0x0303, rec_payload = [7]\<rparr>]"
    by (simp add: parse_tls_records_def parse_records_loop.simps read_header_Cons
        tls_content_types_def max_record_length_def py_slice_def)
  from parse_tls_records_sound [OF this] show ?thesis by auto
qed

text \<open>The parser never indexes outside the buffer, and the only error it can raise is the one for
  an unknown content type: the documented error for an absurd record length cannot occur, since a
  16-bit length never exceeds the bound.\<close>
theorem parse_tls_records_only_type_error:
  assumes "parse_tls_records data max_records = Inl e"
  shows "\<exists>ct pos. ct \<notin> {20, 21, 22, 23} \<and> e = TlsParseError (bad_type_msg ct pos)"
  using parse_loop_error assms unfolding parse_tls_records_def tls_content_types_def by fastforce

theorem parse_tls_records_only_type_error_witness:
  "\<exists>ct pos. ct \<notin> {20, 21, 22, 23 :: nat} \<and>
     TlsParseError (bad_type_msg 72 0) = TlsParseError (bad_type_msg ct pos)"
proof -
  have "parse_tls_records (ascii ''HELO x'') 5 = Inl (TlsParseError (bad_type_msg 72 0))"
    by (simp add: parse_tls_records_def parse_records_loop.simps read_header_Cons ascii_def
        tls_content_types_def)
  from parse_tls_records_only_type_error [OF this] show ?thesis .
qed

text \<open>\<open>find_tls_offset\<close> returns the first offset, within the scan bound, at which one complete
  record with a known version starts, and \<open>None\<close> exactly when there is none.\<close>
theorem find_tls_offset_correct:
  "find_tls_offset data max_scan = Some p \<longleftrightarrow>
     p \<le> max_scan \<and> starts_record data p \<and> (\<forall>q < p. \<not> starts_record data q)"
  unfolding starts_record_iff [symmetric] find_tls_offset_first by simp

theorem find_tls_offset_correct_witness:
  "find_tls_offset [50, 13, 10, 22, 3, 3, 0, 1, 0] 8192 = Some 3 \<and>
   starts_record [50, 13, 10, 22, 3, 3, 0, 1, 0] 3"
proof -
  have "find_tls_offset [50, 13, 10, 22, 3, 3, 0, 1, 0] 8192 = Some 3"
    by (simp add: find_tls_offset_def scan_positions_def valid_record_at_def read_header_Cons
        tls_content_types_def tls_versions_def max_record_length_def upt_rec)
  with find_tls_offset_correct [of "[50, 13, 10, 22, 3, 3, 0, 1, 0]" 8192 3] show ?thesis by simp
qed

text \<open>The comment on \<open>find_tls_offset\<close> promises a position from which "the whole tail parses cleanly";
  the code checks one header only.\<close>

lemma find_tls_offset_tail_may_be_malformed:
  "find_tls_offset [20, 3, 3, 0, 0, 1, 1, 1, 1, 1] 8192 = Some 0 \<and>
   parse_tls_records [20, 3, 3, 0, 0, 1, 1, 1, 1, 1] 4096 = Inl (TlsParseError (bad_type_msg 1 5))"
  by (simp add: find_tls_offset_def scan_positions_def valid_record_at_def read_header_Cons
      tls_content_types_def tls_versions_def max_record_length_def upt_rec
      parse_tls_records_def parse_records_loop.simps py_slice_def)

end
