(* ===== verification/TCP_Reassembly.thy ===== *)
theory TCP_Reassembly
  imports TLS_Records "HOL-Library.List_Lexorder" "HOL-Library.Char_ord"
begin

text \<open>
  Online TCP reassembly (src/backend/app/parsing/reassembly.py, classes \<open>_HalfStream\<close>, \<open>_Stream\<close>
  and \<open>StreamAssembler\<close>). Sequence numbers are Python integers, so they are \<open>int\<close> here and do not
  wrap. The packet sources of the program hand over addresses as strings already, so \<open>_ip_str\<close> is
  the identity.
\<close>

section \<open>Half streams\<close>

record half_stream =
  base_seq :: "int option"
  frontier :: "int option"
  pending :: "(int, bytes) dict"
  hs_buf :: bytes
  fin_seq :: "int option"
  hs_rst :: bool
  hs_first_ts :: time
  hs_last_ts :: time
  syn_seq :: "int option"
  syn_ts :: time

definition new_half_stream :: half_stream where
  "new_half_stream = \<lparr>base_seq = None, frontier = None, pending = [], hs_buf = [], fin_seq = None,
     hs_rst = False, hs_first_ts = 0, hs_last_ts = 0, syn_seq = None, syn_ts = 0\<rparr>"

function flush_loop :: "int \<Rightarrow> (int, bytes) dict \<Rightarrow> bytes \<Rightarrow> int \<times> (int, bytes) dict \<times> bytes" where
  "flush_loop f pend buf =
     (case dget pend f of
        None \<Rightarrow> (f, pend, buf)
      | Some seg \<Rightarrow> flush_loop (f + int (length seg)) (ddel f pend) (buf @ seg))"
  by pat_completeness auto
termination
  by (relation "measure (\<lambda>(f, pend, buf). length pend)") (auto dest: length_ddel_less)

declare flush_loop.simps [simp del]

definition flush :: "int \<Rightarrow> half_stream \<Rightarrow> half_stream" where
  "flush f hs =
     (let (f', pend, buf) = flush_loop f (pending hs) (hs_buf hs)
      in hs\<lparr>frontier := Some f', pending := pend, hs_buf := buf\<rparr>)"

definition anchor :: "int \<Rightarrow> time \<Rightarrow> half_stream \<Rightarrow> half_stream" where
  \<comment> \<open>the time stamps, the base sequence number and the frontier of the first stored segment\<close>
  "anchor seq ts hs =
     (let hs = (if hs_first_ts hs = 0 then hs\<lparr>hs_first_ts := ts\<rparr> else hs);
          hs = hs\<lparr>hs_last_ts := ts\<rparr>;
          hs = (case (syn_seq hs, base_seq hs) of
                  (Some s, None) \<Rightarrow> hs\<lparr>base_seq := Some (s + 1)\<rparr>
                | _ \<Rightarrow> hs);
          hs = (if base_seq hs = None then hs\<lparr>base_seq := Some seq\<rparr> else hs)
      in if frontier hs = None then hs\<lparr>frontier := base_seq hs\<rparr> else hs)"

definition store :: "int \<Rightarrow> bytes \<Rightarrow> time \<Rightarrow> half_stream \<Rightarrow> half_stream" where
  "store seq data ts hs =
     (if data = [] then hs
      else
        (let hs = anchor seq ts hs;
             f = the (frontier hs);
             end = seq + int (length data)
         in if end \<le> f then hs
            else
              (let (data, seq) = (if seq < f then (drop (nat (f - seq)) data, f) else (data, seq))
               in flush f (hs\<lparr>pending := dset seq data (pending hs)\<rparr>))))"

fun store_all :: "(int \<times> bytes \<times> time) list \<Rightarrow> half_stream \<Rightarrow> half_stream" where
  "store_all [] hs = hs"
| "store_all ((seq, data, ts) # segs) hs = store_all segs (store seq data ts hs)"

section \<open>Bidirectional streams\<close>

type_synonym endpoint = "string \<times> nat"
type_synonym skey = "string \<times> nat \<times> string \<times> nat"

record stream =
  ip_a :: string
  port_a :: nat
  ip_b :: string
  port_b :: nat
  ha :: half_stream
  hb :: half_stream
  syn_by_a :: bool
  syn_by_b :: bool
  st_complete :: bool
  st_first_ts :: time

definition new_stream :: "skey \<Rightarrow> time \<Rightarrow> stream" where
  "new_stream k ts = (case k of (ia, pa, ib, pb) \<Rightarrow>
     \<lparr>ip_a = ia, port_a = pa, ip_b = ib, port_b = pb, ha = new_half_stream, hb = new_half_stream,
      syn_by_a = False, syn_by_b = False, st_complete = False, st_first_ts = ts\<rparr>)"

definition endpoint_le :: "endpoint \<Rightarrow> endpoint \<Rightarrow> bool" where
  "endpoint_le a b \<longleftrightarrow> fst a < fst b \<or> (fst a = fst b \<and> snd a \<le> snd b)"

definition stream_key :: "string \<Rightarrow> nat \<Rightarrow> string \<Rightarrow> nat \<Rightarrow> skey" where
  "stream_key ip1 p1 ip2 p2 =
     (if endpoint_le (ip1, p1) (ip2, p2) then (ip1, p1, ip2, p2) else (ip2, p2, ip1, p1))"

record packet =
  p_ts :: time
  p_src :: string
  p_dst :: string
  p_sport :: nat
  p_dport :: nat
  p_seq :: int
  p_ack :: int
  p_flags :: nat
  p_payload :: bytes

type_synonym streams = "(skey, stream) dict"

definition flag_set :: "nat \<Rightarrow> nat \<Rightarrow> bool" where
  "flag_set flags m \<longleftrightarrow> (flags AND m) \<noteq> 0"

definition note_flags :: "packet \<Rightarrow> half_stream \<Rightarrow> half_stream" where
  "note_flags p hs =
     (let hs = (if flag_set (p_flags p) 0x02
                then hs\<lparr>syn_seq := Some (p_seq p), syn_ts := p_ts p\<rparr> else hs);
          hs = (if flag_set (p_flags p) 0x01
                then hs\<lparr>fin_seq := Some (p_seq p + int (length (p_payload p)))\<rparr> else hs)
      in if flag_set (p_flags p) 0x04 then hs\<lparr>hs_rst := True\<rparr> else hs)"

definition stream_done :: "stream \<Rightarrow> bool" where
  "stream_done st \<longleftrightarrow> hs_rst (ha st) \<or> hs_rst (hb st) \<or>
     (fin_seq (ha st) \<noteq> None \<and> fin_seq (hb st) \<noteq> None)"

definition feed_stream :: "packet \<Rightarrow> bool \<Rightarrow> stream \<Rightarrow> stream" where
  "feed_stream p dir_a st =
     (let upd = (\<lambda>hs. store (p_seq p) (p_payload p) (p_ts p) (note_flags p hs));
          st = (if flag_set (p_flags p) 0x02
                then (if dir_a then st\<lparr>syn_by_a := True\<rparr> else st\<lparr>syn_by_b := True\<rparr>) else st);
          st = (if dir_a then st\<lparr>ha := upd (ha st)\<rparr> else st\<lparr>hb := upd (hb st)\<rparr>)
      in if stream_done st then st\<lparr>st_complete := True\<rparr> else st)"

definition packet_key :: "packet \<Rightarrow> skey" where
  "packet_key p = stream_key (p_src p) (p_sport p) (p_dst p) (p_dport p)"

definition feed :: "packet \<Rightarrow> streams \<Rightarrow> streams" where
  "feed p sts =
     (let key = packet_key p;
          st = (case dget sts key of None \<Rightarrow> new_stream key (p_ts p) | Some st \<Rightarrow> st);
          dir_a = ((p_src p, p_sport p) = (fst key, fst (snd key)))
      in dset key (feed_stream p dir_a st) sts)"

section \<open>Client and server roles\<close>

datatype protocol = SMTP | IMAP | POP3 | UNKNOWN

definition port_to_proto :: "nat \<Rightarrow> protocol option" where
  "port_to_proto p =
     map_of [(25, SMTP), (465, SMTP), (587, SMTP), (110, POP3), (995, POP3), (143, IMAP), (993, IMAP)] p"

definition implicit_tls_ports :: "nat list" where
  "implicit_tls_ports = [465, 993, 995]"

definition known_port :: "nat \<Rightarrow> bool" where
  "known_port p \<longleftrightarrow> port_to_proto p \<noteq> None"

definition client_is_a :: "stream \<Rightarrow> bool" where
  \<comment> \<open>\<open>_resolve_client\<close> returns the A side\<close>
  "client_is_a st =
     (if syn_by_a st \<and> \<not> syn_by_b st then True
      else if syn_by_b st \<and> \<not> syn_by_a st then False
      else if known_port (port_a st) \<and> \<not> known_port (port_b st) then False
      else if known_port (port_b st) \<and> \<not> known_port (port_a st) then True
      else
        (let ta = hs_first_ts (ha st); tb = hs_first_ts (hb st)
         in if ta \<noteq> 0 \<and> (tb = 0 \<or> ta < tb) then True
            else if tb \<noteq> 0 \<and> (ta = 0 \<or> tb < ta) then False
            else True))"

definition resolve_client :: "stream \<Rightarrow> endpoint" where
  "resolve_client st = (if client_is_a st then (ip_a st, port_a st) else (ip_b st, port_b st))"

section \<open>Lemmas on the frontier\<close>

lemma flush_loop_frontier:
  "flush_loop f pend buf = (f', pend', buf') \<Longrightarrow>
   f' - int (length buf') = f - int (length buf) \<and> (\<exists>ext. buf' = buf @ ext) \<and> dget pend' f' = None"
proof (induction f pend buf rule: flush_loop.induct)
  case (1 f pend buf)
  show ?case
  proof (cases "dget pend f")
    case None
    with "1.prems" show ?thesis by (simp add: flush_loop.simps [of f])
  next
    case (Some seg)
    with "1.prems" have "flush_loop (f + int (length seg)) (ddel f pend) (buf @ seg) = (f', pend', buf')"
      by (simp add: flush_loop.simps [of f])
    from "1.IH" [OF Some this] show ?thesis by auto
  qed
qed

definition hs_inv :: "half_stream \<Rightarrow> bool" where
  \<comment> \<open>emitted bytes are exactly the interval from the base to the frontier, and the segment at the
     frontier is never left waiting\<close>
  "hs_inv hs \<longleftrightarrow>
     (case frontier hs of
        None \<Rightarrow> pending hs = [] \<and> hs_buf hs = []
      | Some f \<Rightarrow> (\<exists>b. base_seq hs = Some b \<and> f = b + int (length (hs_buf hs)))
          \<and> dget (pending hs) f = None)"

lemma hs_inv_new: "hs_inv new_half_stream"
  by (simp add: hs_inv_def new_half_stream_def)

lemma anchor_frame [simp]:
  "pending (anchor seq ts hs) = pending hs" "hs_buf (anchor seq ts hs) = hs_buf hs"
  "fin_seq (anchor seq ts hs) = fin_seq hs" "hs_rst (anchor seq ts hs) = hs_rst hs"
  "syn_seq (anchor seq ts hs) = syn_seq hs"
  "hs_last_ts (anchor seq ts hs) = ts"
  by (simp_all add: anchor_def Let_def split: option.split)

lemma anchor_frontier: "\<exists>f. frontier (anchor seq ts hs) = Some f"
  by (auto simp: anchor_def Let_def split: option.split)

lemma anchor_inv: "hs_inv hs \<Longrightarrow> hs_inv (anchor seq ts hs)"
  by (auto simp: anchor_def Let_def hs_inv_def split: option.splits)

lemma flush_inv:
  assumes "base_seq hs = Some b" and "f = b + int (length (hs_buf hs))"
  shows "hs_inv (flush f hs)"
proof -
  obtain f' pend' buf' where e: "flush_loop f (pending hs) (hs_buf hs) = (f', pend', buf')"
    by (cases "flush_loop f (pending hs) (hs_buf hs)") auto
  have "flush f hs = hs\<lparr>frontier := Some f', pending := pend', hs_buf := buf'\<rparr>"
    by (simp add: flush_def e)
  then show ?thesis
    using flush_loop_frontier [OF e] assms by (simp add: hs_inv_def)
qed

lemma flush_extends: "\<exists>ext. hs_buf (flush f hs) = hs_buf hs @ ext"
  using flush_loop_frontier [of f "pending hs" "hs_buf hs"]
  by (cases "flush_loop f (pending hs) (hs_buf hs)") (simp add: flush_def)

lemma store_inv: "hs_inv hs \<Longrightarrow> hs_inv (store seq data ts hs)"
proof -
  assume inv: "hs_inv hs"
  let ?h = "anchor seq ts hs"
  obtain f where f: "frontier ?h = Some f" using anchor_frontier by blast
  have "hs_inv ?h" using inv by (rule anchor_inv)
  with f obtain b where "base_seq ?h = Some b" "f = b + int (length (hs_buf ?h))"
    by (auto simp: hs_inv_def)
  then show ?thesis
    using inv \<open>hs_inv ?h\<close> f by (auto simp: store_def Let_def intro!: flush_inv)
qed

lemma store_extends: "\<exists>ext. hs_buf (store seq data ts hs) = hs_buf hs @ ext"
proof -
  have "\<exists>ext. hs_buf (flush f h) = hs_buf hs @ ext" if "hs_buf h = hs_buf hs" for f h
    using flush_extends [of f h] that by simp
  then show ?thesis by (auto simp: store_def Let_def)
qed

lemma store_all_inv: "hs_inv hs \<Longrightarrow> hs_inv (store_all segs hs)"
  by (induction segs hs rule: store_all.induct) (auto simp: store_inv)

lemma store_all_extends: "\<exists>ext. hs_buf (store_all segs hs) = hs_buf hs @ ext"
proof (induction segs hs rule: store_all.induct)
  case (2 seq data ts segs hs)
  with store_extends [of seq data ts hs] show ?case by auto
qed simp

lemma store_all_append: "store_all (xs @ ys) hs = store_all ys (store_all xs hs)"
  by (induction xs hs rule: store_all.induct) auto

section \<open>Segments that tile the stream, in any order\<close>

definition chunk_off :: "bytes list \<Rightarrow> nat \<Rightarrow> int" where
  "chunk_off ds i = int (length (concat (take i ds)))"

definition chunk_seg :: "int \<Rightarrow> bytes list \<Rightarrow> nat \<times> time \<Rightarrow> int \<times> bytes \<times> time" where
  \<comment> \<open>the segment that carries the \<open>i\<close>th chunk of a stream based at \<open>b\<close>\<close>
  "chunk_seg b ds a = (case a of (i, ts) \<Rightarrow> (b + chunk_off ds i, ds ! i, ts))"

definition holds_chunks :: "int \<Rightarrow> bytes list \<Rightarrow> nat set \<Rightarrow> (int, bytes) dict \<Rightarrow> bool" where
  "holds_chunks b ds S pend \<longleftrightarrow>
     (\<forall>i\<in>S. dget pend (b + chunk_off ds i) = Some (ds ! i)) \<and>
     (\<forall>k. dget pend k \<noteq> None \<longrightarrow> (\<exists>i\<in>S. k = b + chunk_off ds i))"

definition awaiting_syn :: "int \<Rightarrow> half_stream \<Rightarrow> bool" where
  \<comment> \<open>the SYN with sequence number \<open>b - 1\<close> was seen and no data yet\<close>
  "awaiting_syn b hs \<longleftrightarrow> syn_seq hs = Some (b - 1) \<and> base_seq hs = None \<and> frontier hs = None
     \<and> pending hs = [] \<and> hs_buf hs = []"

definition chunks_inv :: "int \<Rightarrow> bytes list \<Rightarrow> nat set \<Rightarrow> half_stream \<Rightarrow> bool" where
  "chunks_inv b ds R hs \<longleftrightarrow>
     (\<exists>m \<le> length ds. {..<m} \<subseteq> R \<and> m \<notin> R \<and> R \<subseteq> {..<length ds} \<and>
        base_seq hs = Some b \<and> frontier hs = Some (b + chunk_off ds m) \<and>
        hs_buf hs = concat (take m ds) \<and> holds_chunks b ds (R \<inter> {m<..}) (pending hs))"

lemma chunk_off_0 [simp]: "chunk_off ds 0 = 0"
  by (simp add: chunk_off_def)

lemma chunk_off_Suc:
  "i < length ds \<Longrightarrow> chunk_off ds (Suc i) = chunk_off ds i + int (length (ds ! i))"
  by (simp add: chunk_off_def take_Suc_conv_app_nth)

lemma chunk_off_less:
  assumes "[] \<notin> set ds" and "i < j" and "j \<le> length ds"
  shows "chunk_off ds i < chunk_off ds j"
  using assms(2,3)
proof (induction j)
  case 0
  then show ?case by simp
next
  case (Suc j)
  have "ds ! j \<noteq> []" using assms(1) Suc.prems by (metis Suc_le_lessD nth_mem)
  then have "chunk_off ds j < chunk_off ds (Suc j)"
    using Suc.prems by (simp add: chunk_off_Suc)
  with Suc show ?case by (cases "i = j") auto
qed

lemma chunk_off_inj:
  assumes "[] \<notin> set ds" and "i \<le> length ds" and "j \<le> length ds"
  shows "chunk_off ds i = chunk_off ds j \<longleftrightarrow> i = j"
  using chunk_off_less [OF assms(1)] assms(2,3) by (metis less_irrefl nat_neq_iff)

lemma flush_chunks:
  assumes ne: "[] \<notin> set ds"
  shows "holds_chunks b ds S pend \<Longrightarrow> S \<subseteq> {m..<length ds} \<Longrightarrow> m \<le> length ds \<Longrightarrow>
    \<exists>m' pend'. m \<le> m' \<and> m' \<le> length ds \<and> {m..<m'} \<subseteq> S \<and> m' \<notin> S \<and>
      flush_loop (b + chunk_off ds m) pend (concat (take m ds))
        = (b + chunk_off ds m', pend', concat (take m' ds)) \<and>
      holds_chunks b ds (S \<inter> {m'<..}) pend'"
proof (induction "length ds - m" arbitrary: m S pend)
  case 0
  then have "S = {}" "m = length ds" by auto
  moreover have "dget pend (b + chunk_off ds m) = None"
    using 0 \<open>S = {}\<close> by (auto simp: holds_chunks_def)
  ultimately show ?case
    using 0 by (intro exI [of _ m] exI [of _ pend]) (auto simp: flush_loop.simps)
next
  case (Suc d)
  show ?case
  proof (cases "m \<in> S")
    case False
    have "dget pend (b + chunk_off ds m) = None"
    proof (rule ccontr)
      assume "dget pend (b + chunk_off ds m) \<noteq> None"
      then obtain i where "i \<in> S" "chunk_off ds m = chunk_off ds i"
        using Suc.prems(1) by (force simp: holds_chunks_def)
      then show False
        using chunk_off_inj [OF ne, of m i] Suc.prems False by force
    qed
    moreover have "S \<inter> {m<..} = S" using Suc.prems(2) False by (force simp: order_le_less)
    ultimately show ?thesis
      using Suc.prems False by (intro exI [of _ m] exI [of _ pend]) (auto simp: flush_loop.simps)
  next
    case True
    then have mlt: "m < length ds" using Suc.prems by auto
    let ?pend = "ddel (b + chunk_off ds m) pend"
    have "holds_chunks b ds (S - {m}) ?pend"
      using Suc.prems chunk_off_inj [OF ne, of _ m] mlt
      by (auto simp: holds_chunks_def subset_iff)
    moreover have "S - {m} \<subseteq> {Suc m..<length ds}"
      using Suc.prems(2) by (force simp: Suc_le_eq order_le_less)
    ultimately obtain m' pend' where IH: "Suc m \<le> m'" "m' \<le> length ds" "{Suc m..<m'} \<subseteq> S - {m}"
      "m' \<notin> S - {m}"
      "flush_loop (b + chunk_off ds (Suc m)) ?pend (concat (take (Suc m) ds))
        = (b + chunk_off ds m', pend', concat (take m' ds))"
      "holds_chunks b ds ((S - {m}) \<inter> {m'<..}) pend'"
    proof -
      have "d = length ds - Suc m" "Suc m \<le> length ds" using Suc.hyps(2) mlt by simp_all
      from Suc.hyps(1) [OF this(1) \<open>holds_chunks b ds (S - {m}) ?pend\<close>
          \<open>S - {m} \<subseteq> {Suc m..<length ds}\<close> this(2)]
      show ?thesis using that by blast
    qed
    have "flush_loop (b + chunk_off ds m) pend (concat (take m ds))
        = (b + chunk_off ds m', pend', concat (take m' ds))"
      using True Suc.prems(1) IH(5) mlt
      by (subst flush_loop.simps)
        (simp add: holds_chunks_def chunk_off_Suc take_Suc_conv_app_nth add.assoc)
    moreover have "(S - {m}) \<inter> {m'<..} = S \<inter> {m'<..}" using IH(1) by auto
    moreover have "{m..<m'} \<subseteq> S"
    proof
      fix i assume "i \<in> {m..<m'}"
      then have "i = m \<or> i \<in> {Suc m..<m'}" by auto
      then show "i \<in> S" using True IH(3) by blast
    qed
    ultimately show ?thesis
      using IH by (intro exI [of _ m'] exI [of _ pend']) auto
  qed
qed

lemma anchor_awaiting:
  "awaiting_syn b hs \<Longrightarrow> chunks_inv b ds {} (anchor seq ts hs)"
  by (auto simp: awaiting_syn_def chunks_inv_def anchor_def Let_def holds_chunks_def)

lemma anchor_chunks_inv:
  "chunks_inv b ds R hs \<Longrightarrow> chunks_inv b ds R (anchor seq ts hs)"
  unfolding chunks_inv_def
  by (elim exE, rule exI) (auto simp: anchor_def Let_def split: option.split)

lemma store_chunk:
  assumes ne: "[] \<notin> set ds" and i: "i < length ds"
    and inv: "chunks_inv b ds R (anchor (b + chunk_off ds i) ts hs)"
  shows "chunks_inv b ds (insert i R) (store (b + chunk_off ds i) (ds ! i) ts hs)"
proof -
  let ?h = "anchor (b + chunk_off ds i) ts hs"
  from inv obtain m where m: "m \<le> length ds" "{..<m} \<subseteq> R" "m \<notin> R" "R \<subseteq> {..<length ds}"
    "base_seq ?h = Some b" "frontier ?h = Some (b + chunk_off ds m)"
    "hs_buf ?h = concat (take m ds)" "holds_chunks b ds (R \<inter> {m<..}) (pending ?h)"
    unfolding chunks_inv_def by auto
  have "ds ! i \<noteq> []" using ne i by (metis nth_mem)
  have last: "b + chunk_off ds i + int (length (ds ! i)) = b + chunk_off ds (Suc i)"
    using i by (simp add: chunk_off_Suc)
  show ?thesis
  proof (cases "i < m")
    case True
    then have "chunk_off ds (Suc i) \<le> chunk_off ds m"
      using chunk_off_less [OF ne, of "Suc i" m] m(1) by (cases "Suc i = m") auto
    then have "store (b + chunk_off ds i) (ds ! i) ts hs = ?h"
      using last m \<open>ds ! i \<noteq> []\<close> by (simp add: store_def Let_def)
    moreover have "insert i R = R" using True m(2) by auto
    ultimately show ?thesis using inv by simp
  next
    case False
    have "chunk_off ds m < chunk_off ds (Suc i)"
      using False i by (intro chunk_off_less [OF ne]) auto
    moreover have "chunk_off ds m \<le> chunk_off ds i"
      using chunk_off_less [OF ne, of m i] False i by (cases "m = i") auto
    ultimately have st: "store (b + chunk_off ds i) (ds ! i) ts hs = flush (b + chunk_off ds m)
        (?h\<lparr>pending := dset (b + chunk_off ds i) (ds ! i) (pending ?h)\<rparr>)"
      using last m \<open>ds ! i \<noteq> []\<close> by (simp add: store_def Let_def)
    let ?S = "insert i (R \<inter> {m<..})"
    have "holds_chunks b ds ?S (dset (b + chunk_off ds i) (ds ! i) (pending ?h))"
      using m(4,8) i chunk_off_inj [OF ne, of _ i]
      by (auto simp: holds_chunks_def subset_iff)
    moreover have "?S \<subseteq> {m..<length ds}" using False i m(4) by auto
    ultimately obtain m' pend' where r: "m \<le> m'" "m' \<le> length ds" "{m..<m'} \<subseteq> ?S" "m' \<notin> ?S"
      "flush_loop (b + chunk_off ds m) (dset (b + chunk_off ds i) (ds ! i) (pending ?h))
         (concat (take m ds)) = (b + chunk_off ds m', pend', concat (take m' ds))"
      "holds_chunks b ds (?S \<inter> {m'<..}) pend'"
      using flush_chunks [OF ne, of b ?S _ m] m(1) by blast
    have "{..<m'} \<subseteq> insert i R"
    proof
      fix j assume "j \<in> {..<m'}"
      then have "j \<in> {..<m} \<or> j \<in> {m..<m'}" by auto
      then show "j \<in> insert i R" using m(2) r(3) by blast
    qed
    moreover have "m' \<notin> insert i R" using r(1,4) m(3) by (cases "m' = m") auto
    moreover have "insert i R \<inter> {m'<..} = ?S \<inter> {m'<..}" using r(1) by auto
    ultimately show ?thesis
      using r m(4,5,7) i unfolding chunks_inv_def st
      by (intro exI [of _ m']) (auto simp: flush_def)
  qed
qed

lemma store_all_chunks:
  assumes "[] \<notin> set ds"
  shows "\<forall>a \<in> set arr. fst a < length ds \<Longrightarrow> chunks_inv b ds R hs \<Longrightarrow>
    chunks_inv b ds (R \<union> fst ` set arr) (store_all (map (chunk_seg b ds) arr) hs)"
proof (induction arr arbitrary: R hs)
  case Nil
  then show ?case by simp
next
  case (Cons a arr)
  obtain i ts where a: "a = (i, ts)" by (cases a)
  have "chunks_inv b ds (insert i R) (store (b + chunk_off ds i) (ds ! i) ts hs)"
    using Cons.prems a by (intro store_chunk assms anchor_chunks_inv) auto
  with Cons a show ?case
    by (force simp: chunk_seg_def)
qed

section \<open>Sequence numbers at the top of their range\<close>

definition wrapped_inv :: "half_stream \<Rightarrow> bool" where
  "wrapped_inv hs \<longleftrightarrow> syn_seq hs = Some (2 ^ 32 - 1) \<and> hs_buf hs = [] \<and>
     (base_seq hs = None \<and> frontier hs = None \<or>
      base_seq hs = Some (2 ^ 32) \<and> frontier hs = Some (2 ^ 32))"

lemma wrapped_anchor:
  "wrapped_inv hs \<Longrightarrow> wrapped_inv (anchor seq ts hs) \<and> frontier (anchor seq ts hs) = Some (2 ^ 32)"
  by (auto simp: wrapped_inv_def anchor_def Let_def)

lemma wrapped_store:
  "wrapped_inv hs \<Longrightarrow> seq + int (length data) \<le> 2 ^ 32 \<Longrightarrow> wrapped_inv (store seq data ts hs)"
  using wrapped_anchor [of hs seq ts] by (simp add: store_def Let_def)

lemma wrapped_store_all:
  "wrapped_inv hs \<Longrightarrow> \<forall>(seq, data, ts) \<in> set segs. seq + int (length data) \<le> 2 ^ 32 \<Longrightarrow>
   wrapped_inv (store_all segs hs)"
  by (induction segs hs rule: store_all.induct) (auto simp: wrapped_store)

section \<open>Properties\<close>



text \<open>For any segments at all, overlapping and malformed ones included, what was emitted stays
  emitted: later segments only append, and the emitted bytes always fill the interval from the base
  sequence number to the frontier.\<close>
theorem reassembly_only_appends:
  assumes "hs_inv hs"
  shows "\<exists>ext. hs_buf (store_all (xs @ ys) hs) = hs_buf (store_all xs hs) @ ext
    \<and> hs_inv (store_all (xs @ ys) hs)"
  using store_all_extends [of ys "store_all xs hs"] store_all_inv [OF assms, of "xs @ ys"]
  by (auto simp: store_all_append)

theorem reassembly_only_appends_witness:
  "\<exists>ext. hs_buf (store_all ([(1, [7], 1)] @ [(0, [6, 8, 9], 2)]) new_half_stream)
     = hs_buf (store_all [(1, [7], 1)] new_half_stream) @ ext"
  using reassembly_only_appends [OF hs_inv_new, of "[(1, [7], 1)]" "[(0, [6, 8, 9], 2)]"] by blast

text \<open>Sequence numbers are compared as unbounded integers. When the client's initial sequence
  number is the largest 32-bit value, every data segment on the wire starts below the base of the
  stream and is discarded as a retransmission: nothing of the stream is ever reassembled.\<close>
theorem wrapped_stream_is_lost:
  assumes "syn_seq hs = Some (2 ^ 32 - 1)" and "base_seq hs = None" and "frontier hs = None"
    and "hs_buf hs = []" and "\<forall>(seq, data, ts) \<in> set segs. seq + int (length data) \<le> 2 ^ 32"
  shows "hs_buf (store_all segs hs) = []"
  using wrapped_store_all [of hs segs] assms by (auto simp: wrapped_inv_def)

theorem wrapped_stream_is_lost_witness:
  "hs_buf (store_all [(0, [69, 72, 76, 79], 1), (4, [13, 10], 2)]
     (new_half_stream\<lparr>syn_seq := Some (2 ^ 32 - 1)\<rparr>)) = []"
  by (rule wrapped_stream_is_lost) (simp_all add: new_half_stream_def)

text \<open>A segment that arrives early and is then overlapped by a longer one stays behind the frontier:
  all of bytes 0 to 14 have arrived, yet only 12 are emitted.\<close>

lemma overlapped_segment_is_stranded:
  "let hs = store_all [(10, replicate 5 66, 1), (0, replicate 12 65, 2)]
              (new_half_stream\<lparr>syn_seq := Some (- 1)\<rparr>)
   in hs_buf hs = replicate 12 65 \<and> pending hs = [(10, replicate 5 66)]"
  by (simp add: new_half_stream_def store_def anchor_def flush_def flush_loop.simps Let_def)

end
