(* ===== verification/Sessions.thy ===== *)
theory Sessions
  imports TCP_Reassembly
begin

text \<open>
  From a reassembled stream to a session (src/backend/app/parsing/reassembly.py, \<open>Session\<close>,
  \<open>detect_protocol\<close>, \<open>_assign_tls_segments\<close>, \<open>StreamAssembler.emit\<close>) and the textual five-tuple
  (\<open>format_five_tuple\<close>, \<open>split_five_tuple\<close>). The attributes that the live pipeline attaches to a
  session (\<open>closed_by\<close>, \<open>raw_refs\<close>, \<open>tracked_bytes\<close>) are fields with the defaults their readers use.
\<close>

section \<open>Sessions\<close>

type_synonym raw_ref = "string \<times> nat \<times> nat"

record session =
  s_protocol :: protocol
  s_five_tuple :: string
  s_client_ip :: string
  s_server_ip :: string
  s_client_port :: nat
  s_server_port :: nat
  s_is_starttls :: bool
  s_transition_offset :: "nat option"
  s_plaintext :: bytes
  s_plaintext_server :: bytes
  s_tls :: bytes
  s_tls_server :: bytes
  s_start_ts :: time
  s_end_ts :: time
  s_port_based :: bool
  s_closed_by :: string
  s_raw_refs :: "raw_ref list"
  s_tracked_bytes :: nat

definition protocol_value :: "protocol \<Rightarrow> string" where
  "protocol_value p = (case p of SMTP \<Rightarrow> ''SMTP'' | IMAP \<Rightarrow> ''IMAP'' | POP3 \<Rightarrow> ''POP3''
     | UNKNOWN \<Rightarrow> ''UNKNOWN'')"

definition arrow_tuple :: "string \<Rightarrow> nat \<Rightarrow> string \<Rightarrow> nat \<Rightarrow> string" where
  \<comment> \<open>\<open>f"{c_ip}:{c_port}->{s_ip}:{s_port}"\<close>\<close>
  "arrow_tuple c_ip c_port s_ip s_port =
     c_ip @ '':'' @ dec_of c_port @ ''->'' @ s_ip @ '':'' @ dec_of s_port"

definition new_session :: "endpoint \<Rightarrow> endpoint \<Rightarrow> time \<Rightarrow> session" where
  "new_session c s ts = \<lparr>s_protocol = UNKNOWN,
     s_five_tuple = arrow_tuple (fst c) (snd c) (fst s) (snd s),
     s_client_ip = fst c, s_server_ip = fst s, s_client_port = snd c, s_server_port = snd s,
     s_is_starttls = False, s_transition_offset = None, s_plaintext = [], s_plaintext_server = [],
     s_tls = [], s_tls_server = [], s_start_ts = ts, s_end_ts = 0, s_port_based = False,
     s_closed_by = ''unknown'', s_raw_refs = [], s_tracked_bytes = 0\<rparr>"

definition five_tuple_full :: "session \<Rightarrow> string" where
  "five_tuple_full s =
     arrow_tuple (s_client_ip s) (s_client_port s) (s_server_ip s) (s_server_port s)"

section \<open>Protocol detection\<close>

fun first_marker :: "(bytes \<times> protocol) list \<Rightarrow> bytes \<Rightarrow> protocol option" where
  "first_marker [] probe = None"
| "first_marker ((marker, proto) # ms) probe =
     (if contains marker probe then Some proto else first_marker ms probe)"

definition banner_markers :: "(bytes \<times> protocol) list" where
  "banner_markers = [(ascii ''ESMTP'', SMTP), (ascii ''Dovecot'', IMAP), (ascii ''IMAP4'', IMAP),
     (ascii ''+OK'', POP3)]"

definition command_markers :: "(bytes \<times> protocol) list" where
  "command_markers = [(ascii ''EHLO'', SMTP), (ascii ''MAIL FROM'', SMTP), (ascii ''LOGIN'', IMAP),
     (ascii ''a001'', IMAP), (ascii ''USER'', POP3), (ascii ''PASS'', POP3)]"

definition detect_protocol :: "nat \<Rightarrow> bytes \<Rightarrow> bytes \<Rightarrow> protocol \<times> bool" where
  \<comment> \<open>the protocol, and whether \<open>port_based\<close> is set\<close>
  "detect_protocol server_port client_stream server_stream =
     (case port_to_proto server_port of
        Some p \<Rightarrow> (p, True)
      | None \<Rightarrow>
          (let probe = bytes_upper (take 4096 server_stream @ [0] @ take 4096 client_stream)
           in (case first_marker banner_markers probe of
                 Some p \<Rightarrow> (p, False)
               | None \<Rightarrow>
                   (let uc = bytes_upper (take 4096 client_stream)
                    in (case first_marker command_markers uc of
                          Some p \<Rightarrow> (p, False)
                        | None \<Rightarrow> (UNKNOWN, False))))))"

section \<open>Splitting plaintext from TLS\<close>

definition record_header_prefix :: "tls_record \<Rightarrow> bytes" where
  "record_header_prefix r =
     [of_nat (content_type r), of_nat (drop_bit 8 (rec_version r) AND 0xFF), of_nat (rec_version r AND 0xFF)]"

definition first_tls_offset :: "session \<Rightarrow> bytes \<Rightarrow> nat option \<times> bool" where
  \<comment> \<open>the offset of TLS in the client stream and the STARTTLS flag\<close>
  "first_tls_offset sess client_bytes =
     (if s_server_port sess \<in> set implicit_tls_ports then (Some 0, False)
      else
        (let via_command =
              (case find_starttls_offset client_bytes (protocol_value (s_protocol sess)) of
                 None \<Rightarrow> None
               | Some off \<Rightarrow>
                   if off < length client_bytes \<and>
                      find_tls_offset (drop off client_bytes) default_max_scan = Some 0
                   then Some off else None)
         in (case via_command of
               Some off \<Rightarrow> (Some off, True)
             | None \<Rightarrow>
                 (case parse_tls_records client_bytes default_max_records of
                    Inl e \<Rightarrow> (None, s_is_starttls sess)
                  | Inr [] \<Rightarrow> (None, s_is_starttls sess)
                  | Inr (r # rs) \<Rightarrow>
                      ((case find_sub (record_header_prefix r) client_bytes of
                          Some off \<Rightarrow> Some off
                        | None \<Rightarrow> Some 0), False)))))"

definition assign_tls_segments :: "session \<Rightarrow> bytes \<Rightarrow> bytes \<Rightarrow> session" where
  "assign_tls_segments sess client_bytes server_bytes =
     (let (offset, starttls) = first_tls_offset sess client_bytes;
          sess = sess\<lparr>s_is_starttls := starttls\<rparr>
      in (case offset of
            None \<Rightarrow> sess\<lparr>s_plaintext := client_bytes, s_plaintext_server := server_bytes,
                         s_tls := [], s_tls_server := []\<rparr>
          | Some off \<Rightarrow>
              (let sess = sess\<lparr>s_transition_offset := Some off,
                      s_plaintext := take off client_bytes,
                      s_plaintext_server := (if starttls then server_bytes else []),
                      s_tls := drop off client_bytes\<rparr>
               in (case find_tls_offset server_bytes default_max_scan of
                     None \<Rightarrow> sess\<lparr>s_tls_server := server_bytes\<rparr>
                   | Some so \<Rightarrow>
                       if so < length server_bytes
                       then sess\<lparr>s_tls_server := drop so server_bytes,
                                 s_plaintext_server := take so server_bytes\<rparr>
                       else sess\<lparr>s_tls_server := server_bytes\<rparr>))))"

section \<open>Emitting sessions\<close>

definition stream_bytes :: "stream \<Rightarrow> bytes \<times> bytes" where
  \<comment> \<open>client bytes, server bytes\<close>
  "stream_bytes st =
     (if resolve_client st = (ip_a st, port_a st) then (hs_buf (ha st), hs_buf (hb st))
      else (hs_buf (hb st), hs_buf (ha st)))"

definition stream_endpoints :: "stream \<Rightarrow> endpoint \<times> endpoint" where
  "stream_endpoints st =
     (if resolve_client st = (ip_a st, port_a st)
      then ((ip_a st, port_a st), (ip_b st, port_b st))
      else ((ip_b st, port_b st), (ip_a st, port_a st)))"

definition session_of_stream :: "stream \<Rightarrow> session option" where
  "session_of_stream st =
     (let (c, s) = stream_endpoints st;
          (client_bytes, server_bytes) = stream_bytes st;
          sess = new_session c s (st_first_ts st);
          (proto, by_port) = detect_protocol (snd s) client_bytes server_bytes;
          sess = sess\<lparr>s_protocol := proto, s_port_based := by_port\<rparr>
      in if proto = UNKNOWN then None
         else Some (assign_tls_segments sess client_bytes server_bytes))"

definition emit :: "streams \<Rightarrow> session list" where
  "emit sts =
     List.map_filter (\<lambda>(key, st). if st_complete st then session_of_stream st else None) sts"

section \<open>Five-tuples as text\<close>

definition format_five_tuple :: "string \<Rightarrow> nat \<Rightarrow> string \<Rightarrow> nat \<Rightarrow> string" where
  "format_five_tuple ip1 p1 ip2 p2 =
     (if endpoint_le (ip1, p1) (ip2, p2) then arrow_tuple ip1 p1 ip2 p2
      else arrow_tuple ip2 p2 ip1 p1)"

definition partition_str :: "string \<Rightarrow> string \<Rightarrow> string \<times> bool \<times> string" where
  \<comment> \<open>\<open>s.partition(sep)\<close>; the flag says whether the separator was found\<close>
  "partition_str sep s =
     (case find_sub sep s of
        None \<Rightarrow> (s, False, [])
      | Some i \<Rightarrow> (take i s, True, drop (i + length sep) s))"

definition rpartition_char :: "char \<Rightarrow> string \<Rightarrow> string \<times> string" where
  \<comment> \<open>first and last component of \<open>s.rpartition(c)\<close>\<close>
  "rpartition_char c s =
     (let tail = rev (takeWhile (\<lambda>x. x \<noteq> c) (rev s))
      in if c \<in> set s then (take (length s - length tail - 1) s, tail) else ([], s))"

definition is_digit :: "char \<Rightarrow> bool" where
  "is_digit c \<longleftrightarrow> (let n = (of_char c :: nat) in 48 \<le> n \<and> n \<le> 57)"

definition digit_value :: "char \<Rightarrow> int" where
  "digit_value c = int (of_char c) - 48"

fun digits_value :: "int \<Rightarrow> string \<Rightarrow> int option" where
  \<comment> \<open>digits, with single underscores between them\<close>
  "digits_value acc [] = Some acc"
| "digits_value acc (c # cs) =
     (if is_digit c then digits_value (10 * acc + digit_value c) cs
      else if c = CHR ''_'' then
        (case cs of
           [] \<Rightarrow> None
         | d # ds \<Rightarrow> if is_digit d then digits_value (10 * acc + digit_value d) ds else None)
      else None)"

definition py_int :: "string \<Rightarrow> int option" where
  \<comment> \<open>\<open>int(s)\<close> on ASCII text; \<open>None\<close> is \<open>ValueError\<close>\<close>
  "py_int s =
     (let t = str_strip s;
          (neg, u) = (case t of
             c # cs \<Rightarrow> if c = CHR ''-'' then (True, cs) else if c = CHR ''+'' then (False, cs) else (False, t)
           | [] \<Rightarrow> (False, []))
      in if u = [] \<or> \<not> is_digit (hd u) then None
         else map_option (\<lambda>v. if neg then - v else v) (digits_value 0 u))"

definition split_five_tuple :: "string \<Rightarrow> string \<times> int \<times> string \<times> int" where
  "split_five_tuple five_tuple =
     (let (left, found, right) = partition_str ''->'' five_tuple;
          (left, right) = (if found then (left, right)
             else (let (l, f, r) = partition_str ''-'' five_tuple in (l, r)));
          (c_ip, c_port) = rpartition_char (CHR '':'') left;
          (s_ip, s_port) = rpartition_char (CHR '':'') right
      in (case (py_int c_port, py_int s_port) of
            (Some cp, Some sp) \<Rightarrow> (c_ip, cp, dropWhile (\<lambda>c. c = CHR ''>'') s_ip, sp)
          | _ \<Rightarrow> ([], 0, [], 0)))"

section \<open>Lemmas\<close>

lemma byte_upper_not_lower: "\<not> (97 \<le> byte_upper b \<and> byte_upper b \<le> 122)"
proof (cases "97 \<le> b \<and> b \<le> 122")
  case True
  then have "97 \<le> unat b" "unat b \<le> 122" by (simp_all add: word_le_nat_alt)
  then have "unat (b - 32) \<le> 90"
    by (subst unat_sub) (simp_all add: word_le_nat_alt)
  with True show ?thesis by (simp add: byte_upper_def word_le_nat_alt)
next
  case False
  then show ?thesis by (auto simp: byte_upper_def)
qed

lemma upper_no_lower: "\<forall>b \<in> set (bytes_upper bs). \<not> (97 \<le> b \<and> b \<le> 122)"
  using byte_upper_not_lower by (auto simp: bytes_upper_def)

lemma lower_marker_absent:
  "\<exists>b \<in> set m. 97 \<le> b \<and> b \<le> 122 \<Longrightarrow> \<not> contains m (bytes_upper bs)"
  using contains_subset upper_no_lower by blast

lemma find_sub_prefix: "find_sub pat (pat @ s) = Some 0"
  by (cases pat; cases s) auto

lemma find_starttls_cmd:
  assumes "find_starttls_offset seg proto = Some off"
  obtains cmd a b where "starttls_command proto = Some cmd" "take off seg = a @ cmd @ b @ crlf"
    "off \<le> length seg"
proof -
  from assms obtain cmd idx k where c: "starttls_command proto = Some cmd"
    "find_sub cmd seg = Some idx" "find_sub crlf (drop idx seg) = Some k" "off = idx + k + 2"
    by (auto simp: find_starttls_offset_def find_from_def split: option.splits)
  have nocr: "\<not> (13 \<in> set cmd)" using c(1)
    by (auto simp: starttls_command_def ascii_def split: if_splits)
  have len: "idx + length cmd \<le> length seg" using c(2) by (rule find_sub_bound)
  have klen: "k + 2 \<le> length seg - idx"
    using find_sub_bound [OF c(3)] by (simp add: crlf_def)
  have cmd: "take (length cmd) (drop idx seg) = cmd" using c(2) by (rule find_sub_at)
  have cr: "take 2 (drop k (drop idx seg)) = crlf"
    using find_sub_at [OF c(3)] by (simp add: crlf_def numeral_2_eq_2)
  have k: "length cmd \<le> k"
  proof (rule ccontr)
    assume "\<not> length cmd \<le> k"
    then have "cmd ! k = drop idx seg ! k" using cmd by (metis not_le nth_take)
    also have "\<dots> = take 2 (drop k (drop idx seg)) ! 0" using klen by (simp add: add.commute)
    also have "\<dots> = 13" by (simp only: cr) (simp add: crlf_def)
    finally show False using nocr \<open>\<not> length cmd \<le> k\<close> by (metis not_le nth_mem)
  qed
  have pre: "take (length cmd) (take k (drop idx seg)) = cmd"
    using cmd k by (simp add: min.absorb1)
  have "take off seg = take idx seg @ take (k + 2) (drop idx seg)"
    using take_add [of idx "k + 2" seg] c(4) by (simp only: add.assoc)
  also have "take (k + 2) (drop idx seg) = take k (drop idx seg) @ crlf"
    by (simp only: take_add cr)
  also have "take k (drop idx seg) = cmd @ drop (length cmd) (take k (drop idx seg))"
    using append_take_drop_id [of "length cmd" "take k (drop idx seg)"] by (simp only: pre)
  finally have "take off seg = take idx seg @ cmd @ drop (length cmd) (take k (drop idx seg)) @ crlf"
    by simp
  moreover have "off \<le> length seg" using c(4) klen by simp
  ultimately show ?thesis using that c(1) by blast
qed

lemma dec_of_digits: "\<forall>c \<in> set (dec_of n). is_digit c"
proof (induction n rule: dec_of.induct)
  case (1 n)
  have "is_digit (char_of (48 + m))" if "m < 10" for m :: nat
    using that by (simp add: is_digit_def Let_def)
  with 1 show ?case by (subst dec_of.simps) auto
qed

lemma dec_of_nonempty [simp]: "dec_of n \<noteq> []"
  by (subst dec_of.simps) simp

lemma digits_value_snoc:
  "\<forall>x \<in> set s. is_digit x \<Longrightarrow> is_digit d \<Longrightarrow>
   digits_value acc (s @ [d]) = map_option (\<lambda>v. 10 * v + digit_value d) (digits_value acc s)"
  by (induction s arbitrary: acc) auto

lemma digits_value_dec_of: "digits_value 0 (dec_of n) = Some (int n)"
proof (induction n rule: dec_of.induct)
  case (1 n)
  have d: "is_digit (char_of (48 + m)) \<and> digit_value (char_of (48 + m)) = int m"
    if "m < 10" for m :: nat
    using that by (simp add: is_digit_def digit_value_def Let_def)
  show ?case
  proof (cases "n < 10")
    case True
    then show ?thesis using d [of n] by (subst dec_of.simps) simp
  next
    case False
    have "digits_value 0 (dec_of n) =
        map_option (\<lambda>v. 10 * v + digit_value (char_of (48 + n mod 10))) (digits_value 0 (dec_of (n div 10)))"
      using False d [of "n mod 10"] dec_of_digits [of "n div 10"]
      by (subst dec_of.simps) (simp add: digits_value_snoc)
    also have "\<dots> = Some (10 * int (n div 10) + int (n mod 10))"
      using 1 False d [of "n mod 10"] by simp
    also have "10 * int (n div 10) + int (n mod 10) = int n"
      by (metis mult_div_mod_eq of_nat_add of_nat_mult of_nat_numeral)
    finally show ?thesis .
  qed
qed

lemma strip_id:
  assumes "s \<noteq> []" "\<not> is_space (hd s)" "\<not> is_space (last s)"
  shows "str_strip s = s"
proof -
  have "dropWhile is_space s = s" using assms(1,2) by (cases s) auto
  moreover have "dropWhile is_space (rev s) = rev s"
    using assms(1,3) by (cases "rev s") (auto simp: last_rev hd_rev [symmetric])
  ultimately show ?thesis by (simp add: str_strip_def)
qed

lemma digit_not_space: "is_digit c \<Longrightarrow> \<not> is_space c"
  by (auto simp: is_digit_def is_space_def Let_def)

lemma py_int_dec_of: "py_int (dec_of n) = Some (int n)"
proof -
  have s: "str_strip (dec_of n) = dec_of n"
    using digit_not_space dec_of_digits [of n] hd_in_set [OF dec_of_nonempty, of n]
      last_in_set [OF dec_of_nonempty, of n]
    by (intro strip_id) simp_all
  obtain c cs where d: "dec_of n = c # cs" by (cases "dec_of n") auto
  then have c: "is_digit c" using dec_of_digits [of n] by simp
  then have "c \<noteq> CHR ''-''" "c \<noteq> CHR ''+''" by (auto simp: is_digit_def Let_def)
  then show ?thesis
    using digits_value_dec_of [of n] c s by (simp add: py_int_def d Let_def)
qed

lemma rpartition_dec_of: "rpartition_char (CHR '':'') (ip @ '':'' @ dec_of n) = (ip, dec_of n)"
proof -
  have "\<forall>c \<in> set (dec_of n). c \<noteq> CHR '':''"
    using dec_of_digits by (fastforce simp: is_digit_def Let_def)
  then have "takeWhile (\<lambda>x. x \<noteq> CHR '':'') (rev (dec_of n) @ CHR '':'' # rev ip)
      = rev (dec_of n) @ takeWhile (\<lambda>x. x \<noteq> CHR '':'') (CHR '':'' # rev ip)"
    by (intro takeWhile_append2) simp
  then have "takeWhile (\<lambda>x. x \<noteq> CHR '':'') (rev (ip @ '':'' @ dec_of n)) = rev (dec_of n)"
    by simp
  then show ?thesis by (simp add: rpartition_char_def Let_def)
qed

lemma find_sub_arrow:
  "CHR ''>'' \<notin> set s \<Longrightarrow> find_sub ''->'' (s @ ''->'' @ t) = Some (length s)"
proof (induction s)
  case Nil
  then show ?case by (simp add: numeral_2_eq_2)
next
  case (Cons c s)
  have "take (length ''->'') (c # s @ ''->'' @ t) \<noteq> ''->''"
    using Cons.prems by (cases s) auto
  with Cons show ?case by simp
qed

lemmas offset_simps = find_tls_offset_def scan_positions_def valid_record_at_def read_header_Cons
  tls_content_types_def tls_versions_def max_record_length_def default_max_scan_def upt_rec

lemma starttls_example:
  "s_is_starttls (assign_tls_segments
     ((new_session (''10.0.0.2'', 40000) (''10.0.0.1'', 587) 1)\<lparr>s_protocol := SMTP\<rparr>)
     (ascii ''STARTTLS'' @ [13, 10, 22, 3, 1, 0, 1, 0]) [])"
  by (simp add: assign_tls_segments_def first_tls_offset_def new_session_def implicit_tls_ports_def
      find_starttls_offset_def starttls_command_def protocol_value_def ascii_def find_from_def crlf_def
      offset_simps)

text \<open>SMTP commands are case-insensitive, the search is not: the same session with the command in lower
  case is filed as plaintext throughout, its TLS records included.\<close>

lemma lower_case_starttls_is_missed:
  "let out = assign_tls_segments
     ((new_session (''10.0.0.2'', 40000) (''10.0.0.1'', 587) 1)\<lparr>s_protocol := SMTP\<rparr>)
     (ascii ''starttls'' @ [13, 10, 22, 3, 1, 0, 1, 0]) []
   in \<not> s_is_starttls out \<and> s_tls out = []"
  by (simp add: assign_tls_segments_def first_tls_offset_def new_session_def implicit_tls_ports_def
      find_starttls_offset_def starttls_command_def protocol_value_def ascii_def find_from_def crlf_def
      parse_tls_records_def parse_records_loop.simps read_header_Cons tls_content_types_def)

section \<open>Properties\<close>

text \<open>Splitting a session into plaintext and TLS loses and invents no client byte: the plaintext
  part followed by the TLS part is the client stream. On the server side the same holds unless TLS
  was found for the client but not in the server bytes of a STARTTLS session, where the code files
  the server bytes under both.\<close>
theorem segments_partition_stream:
  "s_plaintext (assign_tls_segments sess c s) @ s_tls (assign_tls_segments sess c s) = c \<and>
   (s_plaintext_server (assign_tls_segments sess c s) @ s_tls_server (assign_tls_segments sess c s) = s
    \<or> (find_tls_offset s default_max_scan = None \<and> s_is_starttls (assign_tls_segments sess c s)
        \<and> s_plaintext_server (assign_tls_segments sess c s) = s
        \<and> s_tls_server (assign_tls_segments sess c s) = s))"
proof -
  have "so < length s" if "find_tls_offset s default_max_scan = Some so" for so
  proof -
    from that have "starts_record s so" by (simp add: find_tls_offset_correct)
    then obtain r rest where "so \<le> length s" "drop so s = enc_record r @ rest"
      by (auto simp: starts_record_def)
    then have "length (drop so s) = 5 + length (rec_payload r) + length rest" by simp
    then show ?thesis by simp
  qed
  then show ?thesis
    by (cases "first_tls_offset sess c") (auto simp: assign_tls_segments_def Let_def split: option.splits)
qed

text \<open>A session is marked STARTTLS only on evidence: the port is not an implicit-TLS port, the
  client plaintext contains the protocol's upgrade command and ends with a line break, and a complete
  TLS record starts at the very next byte.\<close>
theorem starttls_needs_evidence:
  assumes "s_is_starttls (assign_tls_segments sess c s)" and "\<not> s_is_starttls sess"
  shows "s_server_port sess \<notin> set implicit_tls_ports \<and>
    (\<exists>cmd a b. starttls_command (protocol_value (s_protocol sess)) = Some cmd \<and>
       s_plaintext (assign_tls_segments sess c s) = a @ cmd @ b @ crlf) \<and>
    starts_record (s_tls (assign_tls_segments sess c s)) 0"
proof -
  obtain off where o: "first_tls_offset sess c = (Some off, True)"
    "s_server_port sess \<notin> set implicit_tls_ports"
    "find_starttls_offset c (protocol_value (s_protocol sess)) = Some off"
    "find_tls_offset (drop off c) default_max_scan = Some 0"
    using assms
    by (auto simp: assign_tls_segments_def first_tls_offset_def Let_def
        split: option.splits if_splits prod.splits sum.splits list.splits)
  have e: "s_plaintext (assign_tls_segments sess c s) = take off c"
    "s_tls (assign_tls_segments sess c s) = drop off c"
    using o(1) by (auto simp: assign_tls_segments_def Let_def split: option.splits)
  from find_starttls_cmd [OF o(3)] o(2,4) show ?thesis
    unfolding e by (metis find_tls_offset_correct)
qed

theorem starttls_needs_evidence_witness:
  "let sess = (new_session (''10.0.0.2'', 40000) (''10.0.0.1'', 587) 1)\<lparr>s_protocol := SMTP\<rparr>;
       c = ascii ''STARTTLS'' @ [13, 10, 22, 3, 1, 0, 1, 0];
       out = assign_tls_segments sess c []
   in s_is_starttls out \<and> starts_record (s_tls out) 0"
proof -
  let ?sess = "(new_session (''10.0.0.2'', 40000) (''10.0.0.1'', 587) 1)\<lparr>s_protocol := SMTP\<rparr>"
  let ?c = "ascii ''STARTTLS'' @ [13, 10, 22, 3, 1, 0, 1, 0]"
  have "s_is_starttls (assign_tls_segments ?sess ?c [])"
    by (simp add: starttls_example)
  from starttls_needs_evidence [OF this] this show ?thesis
    by (simp add: Let_def new_session_def)
qed

text \<open>The text of a five-tuple is split back into its endpoints, for every client address without
  an arrow head and every server address that does not begin with one (all IPv4 and IPv6
  addresses).\<close>
theorem split_five_tuple_roundtrip:
  assumes "CHR ''>'' \<notin> set c_ip" and "dropWhile (\<lambda>c. c = CHR ''>'') s_ip = s_ip"
  shows "split_five_tuple (arrow_tuple c_ip cp s_ip sp) = (c_ip, int cp, s_ip, int sp)"
proof -
  have "CHR ''>'' \<notin> set (dec_of cp)" using dec_of_digits by (fastforce simp: is_digit_def Let_def)
  then have "find_sub ''->'' (arrow_tuple c_ip cp s_ip sp) = Some (length (c_ip @ '':'' @ dec_of cp))"
    using find_sub_arrow [of "c_ip @ '':'' @ dec_of cp" "s_ip @ '':'' @ dec_of sp"] assms(1)
    by (simp add: arrow_tuple_def)
  then have "partition_str ''->'' (arrow_tuple c_ip cp s_ip sp)
      = (c_ip @ '':'' @ dec_of cp, True, s_ip @ '':'' @ dec_of sp)"
    by (simp add: partition_str_def arrow_tuple_def numeral_eq_Suc)
  then show ?thesis
    unfolding split_five_tuple_def
    by (simp only: prod.case Let_def if_True rpartition_dec_of py_int_dec_of option.case assms(2))
qed

theorem split_five_tuple_roundtrip_witness:
  "split_five_tuple (arrow_tuple ''fe80::1'' 51234 ''10.0.0.1'' 993)
     = (''fe80::1'', 51234, ''10.0.0.1'', 993)"
  using split_five_tuple_roundtrip [of "''fe80::1''" "''10.0.0.1''" 51234 993] by simp

text \<open>Two of the protocol markers can never match. The probe is upper-cased before the search, so
  the mixed-case banner marker "Dovecot" and the lower-case command marker "a001" are dead: dropping
  them from the tables changes no result.\<close>
theorem mixed_case_markers_are_dead:
  "first_marker banner_markers (bytes_upper x) =
     first_marker [(ascii ''ESMTP'', SMTP), (ascii ''IMAP4'', IMAP), (ascii ''+OK'', POP3)] (bytes_upper x) \<and>
   first_marker command_markers (bytes_upper y) =
     first_marker [(ascii ''EHLO'', SMTP), (ascii ''MAIL FROM'', SMTP), (ascii ''LOGIN'', IMAP),
       (ascii ''USER'', POP3), (ascii ''PASS'', POP3)] (bytes_upper y)"
proof -
  have "\<not> contains (ascii ''Dovecot'') (bytes_upper x)"
    by (rule lower_marker_absent) (simp add: ascii_def)
  moreover have "\<not> contains (ascii ''a001'') (bytes_upper y)"
    by (rule lower_marker_absent) (simp add: ascii_def)
  ultimately show ?thesis by (simp add: banner_markers_def command_markers_def)
qed

end
