(* ===== verification/Digest.thy ===== *)
theory Digest
  imports Prelude
begin

text \<open>
  The digest functions of Python's \<open>hashlib\<close> and \<open>hmac\<close> that the program calls, executable on
  byte lists: SHA-256 and SHA-1 (FIPS 180-4), HMAC and PBKDF2 over them, and the hexadecimal form.
  Nothing about a digest is assumed; where a property of the program depends on two inputs having
  different digests, its statement says so.
\<close>

type_synonym w32 = "32 word"

definition sha_k :: "w32 list" where
  "sha_k = [
     0x428A2F98, 0x71374491, 0xB5C0FBCF, 0xE9B5DBA5, 0x3956C25B, 0x59F111F1, 0x923F82A4, 0xAB1C5ED5,
     0xD807AA98, 0x12835B01, 0x243185BE, 0x550C7DC3, 0x72BE5D74, 0x80DEB1FE, 0x9BDC06A7, 0xC19BF174,
     0xE49B69C1, 0xEFBE4786, 0x0FC19DC6, 0x240CA1CC, 0x2DE92C6F, 0x4A7484AA, 0x5CB0A9DC, 0x76F988DA,
     0x983E5152, 0xA831C66D, 0xB00327C8, 0xBF597FC7, 0xC6E00BF3, 0xD5A79147, 0x06CA6351, 0x14292967,
     0x27B70A85, 0x2E1B2138, 0x4D2C6DFC, 0x53380D13, 0x650A7354, 0x766A0ABB, 0x81C2C92E, 0x92722C85,
     0xA2BFE8A1, 0xA81A664B, 0xC24B8B70, 0xC76C51A3, 0xD192E819, 0xD6990624, 0xF40E3585, 0x106AA070,
     0x19A4C116, 0x1E376C08, 0x2748774C, 0x34B0BCB5, 0x391C0CB3, 0x4ED8AA4A, 0x5B9CCA4F, 0x682E6FF3,
     0x748F82EE, 0x78A5636F, 0x84C87814, 0x8CC70208, 0x90BEFFFA, 0xA4506CEB, 0xBEF9A3F7, 0xC67178F2]"

definition sha_h0 :: "w32 list" where
  "sha_h0 = [0x6A09E667, 0xBB67AE85, 0x3C6EF372, 0xA54FF53A, 0x510E527F, 0x9B05688C, 0x1F83D9AB, 0x5BE0CD19]"

definition be_bytes :: "nat \<Rightarrow> nat \<Rightarrow> bytes" where
  \<comment> \<open>\<open>n\<close> as \<open>k\<close> big-endian bytes\<close>
  "be_bytes k n = map (\<lambda>i. of_nat (n div 256 ^ (k - Suc i))) [0..<k]"

definition sha_pad :: "bytes \<Rightarrow> bytes" where
  "sha_pad m = m @ 0x80 # replicate ((119 - length m mod 64) mod 64) 0 @ be_bytes 8 (8 * length m)"

fun chunks :: "nat \<Rightarrow> nat \<Rightarrow> 'a list \<Rightarrow> 'a list list" where
  \<comment> \<open>the first \<open>k\<close> slices of length \<open>n\<close>\<close>
  "chunks 0 n xs = []"
| "chunks (Suc k) n xs = take n xs # chunks k n (drop n xs)"

definition word_of :: "bytes \<Rightarrow> w32" where
  "word_of bs = of_nat (be_int bs)"

definition sched_next :: "w32 list \<Rightarrow> w32" where
  \<comment> \<open>the next word from the last sixteen, newest first\<close>
  "sched_next ws =
     (let a = ws ! 14; b = ws ! 1;
          s0 = word_rotr 7 a XOR word_rotr 18 a XOR drop_bit 3 a;
          s1 = word_rotr 17 b XOR word_rotr 19 b XOR drop_bit 10 b
      in ws ! 15 + s0 + ws ! 6 + s1)"

fun schedule :: "nat \<Rightarrow> w32 list \<Rightarrow> w32 list" where
  "schedule 0 ws = rev ws"
| "schedule (Suc n) ws = schedule n (sched_next ws # ws)"

type_synonym sha_state = "w32 \<times> w32 \<times> w32 \<times> w32 \<times> w32 \<times> w32 \<times> w32 \<times> w32"

fun sha_round :: "sha_state \<Rightarrow> w32 \<times> w32 \<Rightarrow> sha_state" where
  "sha_round (a, b, c, d, e, f, g, h) (k, w) =
     (let s1 = word_rotr 6 e XOR word_rotr 11 e XOR word_rotr 25 e;
          ch = (e AND f) XOR ((NOT e) AND g);
          t1 = h + s1 + ch + k + w;
          s0 = word_rotr 2 a XOR word_rotr 13 a XOR word_rotr 22 a;
          mj = (a AND b) XOR (a AND c) XOR (b AND c)
      in (t1 + s0 + mj, a, b, c, d + t1, e, f, g))"

definition tuple8 :: "w32 list \<Rightarrow> sha_state" where
  "tuple8 h = (h ! 0, h ! 1, h ! 2, h ! 3, h ! 4, h ! 5, h ! 6, h ! 7)"

fun list8 :: "sha_state \<Rightarrow> w32 list" where
  "list8 (a, b, c, d, e, f, g, h) = [a, b, c, d, e, f, g, h]"

definition sha_block :: "w32 list \<Rightarrow> bytes \<Rightarrow> w32 list" where
  "sha_block h blk =
     (let ws = schedule 48 (rev (map word_of (chunks 16 4 blk)))
      in map2 (+) h (list8 (foldl sha_round (tuple8 h) (zip sha_k ws))))"

definition sha256 :: "bytes \<Rightarrow> bytes" where
  \<comment> \<open>\<open>hashlib.sha256(m).digest()\<close>\<close>
  "sha256 m =
     (let p = sha_pad m
      in concat (map (\<lambda>w. be_bytes 4 (unat w))
           (foldl sha_block sha_h0 (chunks (length p div 64) 64 p))))"

definition hexdigest :: "bytes \<Rightarrow> string" where
  "hexdigest bs = concat (map (\<lambda>b. [hex_digit (unat b div 16), hex_digit (unat b mod 16)]) bs)"

definition sha256_hex :: "bytes \<Rightarrow> string" where
  \<comment> \<open>\<open>hashlib.sha256(m).hexdigest()\<close>\<close>
  "sha256_hex m = hexdigest (sha256 m)"

lemma length_be_bytes [simp]: "length (be_bytes k n) = k"
  by (simp add: be_bytes_def)

lemma length_list8 [simp]: "length (list8 s) = 8"
  by (cases s rule: list8.cases) simp

lemma length_sha_block: "length h = 8 \<Longrightarrow> length (sha_block h blk) = 8"
  by (simp add: sha_block_def Let_def)

lemma length_fold_blocks: "length h = 8 \<Longrightarrow> length (foldl sha_block h bs) = 8"
  by (induction bs arbitrary: h) (simp_all add: length_sha_block)

lemma length_concat_words: "length (concat (map (\<lambda>w. be_bytes 4 (unat w)) ws)) = 4 * length ws"
  by (induction ws) simp_all

lemma length_sha256 [simp]: "length (sha256 m) = 32"
  by (simp add: sha256_def Let_def length_concat_words length_fold_blocks sha_h0_def)

lemma length_hexdigest [simp]: "length (hexdigest bs) = 2 * length bs"
  by (induction bs) (simp_all add: hexdigest_def)

lemma length_sha256_hex [simp]: "length (sha256_hex m) = 64"
  by (simp add: sha256_hex_def)

section \<open>SHA-1\<close>

type_synonym sha1_state = "w32 \<times> w32 \<times> w32 \<times> w32 \<times> w32"

definition sha1_next :: "w32 list \<Rightarrow> w32" where
  "sha1_next ws = word_rotl 1 (ws ! 2 XOR ws ! 7 XOR ws ! 13 XOR ws ! 15)"

fun sha1_schedule :: "nat \<Rightarrow> w32 list \<Rightarrow> w32 list" where
  "sha1_schedule 0 ws = rev ws"
| "sha1_schedule (Suc n) ws = sha1_schedule n (sha1_next ws # ws)"

fun sha1_round :: "sha1_state \<Rightarrow> nat \<times> w32 \<Rightarrow> sha1_state" where
  "sha1_round (a, b, c, d, e) (t, w) =
     (let (f, k) = (if t < 20 then ((b AND c) OR ((NOT b) AND d), 0x5A827999)
                    else if t < 40 then (b XOR c XOR d, 0x6ED9EBA1)
                    else if t < 60 then ((b AND c) OR (b AND d) OR (c AND d), 0x8F1BBCDC)
                    else (b XOR c XOR d, 0xCA62C1D6))
      in (word_rotl 5 a + f + e + k + w, a, word_rotl 30 b, c, d))"

fun sha1_block :: "sha1_state \<Rightarrow> bytes \<Rightarrow> sha1_state" where
  "sha1_block (a, b, c, d, e) blk =
     (let ws = sha1_schedule 64 (rev (map word_of (chunks 16 4 blk)));
          (a', b', c', d', e') = foldl sha1_round (a, b, c, d, e) (enumerate 0 ws)
      in (a + a', b + b', c + c', d + d', e + e'))"

definition sha1 :: "bytes \<Rightarrow> bytes" where
  \<comment> \<open>\<open>hashlib.sha1(m).digest()\<close>\<close>
  "sha1 m =
     (let p = sha_pad m;
          (a, b, c, d, e) = foldl sha1_block
            (0x67452301, 0xEFCDAB89, 0x98BADCFE, 0x10325476, 0xC3D2E1F0) (chunks (length p div 64) 64 p)
      in concat (map (\<lambda>w. be_bytes 4 (unat w)) [a, b, c, d, e]))"

lemma length_sha1 [simp]: "length (sha1 m) = 20"
  by (simp add: sha1_def Let_def split: prod.split)

section \<open>HMAC and PBKDF2\<close>

definition hmac_with :: "(bytes \<Rightarrow> bytes) \<Rightarrow> bytes \<Rightarrow> bytes \<Rightarrow> bytes" where
  \<comment> \<open>\<open>hmac.new(key, msg, h).digest()\<close> for a hash with 64-byte blocks\<close>
  "hmac_with h key msg =
     (let k = (if 64 < length key then h key else key);
          k = k @ replicate (64 - length k) 0
      in h (map (\<lambda>b. b XOR 0x5C) k @ h (map (\<lambda>b. b XOR 0x36) k @ msg)))"

fun pbkdf2_rounds :: "(bytes \<Rightarrow> bytes) \<Rightarrow> nat \<Rightarrow> bytes \<Rightarrow> bytes \<Rightarrow> bytes" where
  "pbkdf2_rounds prf 0 u t = t"
| "pbkdf2_rounds prf (Suc n) u t = (let u = prf u in pbkdf2_rounds prf n u (map2 (XOR) t u))"

definition pbkdf2_sha256 :: "bytes \<Rightarrow> bytes \<Rightarrow> nat \<Rightarrow> bytes" where
  \<comment> \<open>\<open>hashlib.pbkdf2_hmac("sha256", pw, salt, iters)\<close> for \<open>iters >= 1\<close>: one block of 32 bytes\<close>
  "pbkdf2_sha256 pw salt iters =
     (let u = hmac_with sha256 pw (salt @ [0, 0, 0, 1])
      in pbkdf2_rounds (hmac_with sha256 pw) (iters - 1) u u)"

section \<open>Hexadecimal text\<close>

definition hex_value :: "char \<Rightarrow> nat option" where
  "hex_value c =
     (let n = (of_char c :: nat)
      in if 48 \<le> n \<and> n \<le> 57 then Some (n - 48)
         else if 97 \<le> n \<and> n \<le> 102 then Some (n - 87)
         else if 65 \<le> n \<and> n \<le> 70 then Some (n - 55) else None)"

fun from_hex :: "string \<Rightarrow> bytes option" where
  \<comment> \<open>\<open>bytes.fromhex(s)\<close>: blanks may stand between bytes; \<open>None\<close> is \<open>ValueError\<close>\<close>
  "from_hex [] = Some []"
| "from_hex [c] = (if is_space c then Some [] else None)"
| "from_hex (c # d # r) =
     (if is_space c then from_hex (d # r)
      else (case (hex_value c, hex_value d) of
              (Some a, Some b) \<Rightarrow> map_option ((#) (of_nat (16 * a + b))) (from_hex r)
            | _ \<Rightarrow> None))"

lemma hex_digits_ok:
  "list_all (\<lambda>n. hex_value (hex_digit n) = Some n \<and> \<not> is_space (hex_digit n)) [0..<16]"
  by code_simp

lemma hex_digit_back: "n < 16 \<Longrightarrow> hex_value (hex_digit n) = Some n \<and> \<not> is_space (hex_digit n)"
  using hex_digits_ok by (simp only: list_all_iff set_upt) simp

lemma hexdigest_Cons:
  "hexdigest (b # bs) = hex_digit (unat b div 16) # hex_digit (unat b mod 16) # hexdigest bs"
  by (simp add: hexdigest_def)

lemma from_hex_digits:
  assumes "x < 16" "y < 16"
  shows "from_hex (hex_digit x # hex_digit y # r)
           = map_option ((#) (of_nat (16 * x + y))) (from_hex r)"
proof -
  have "\<not> is_space (hex_digit x)" "hex_value (hex_digit x) = Some x" "hex_value (hex_digit y) = Some y"
    using assms by (simp_all only: hex_digit_back simp_thms)
  then show ?thesis by simp
qed

lemma from_hex_hexdigest: "from_hex (hexdigest bs) = Some bs"
proof (induction bs)
  case Nil
  then show ?case by (simp add: hexdigest_def)
next
  case (Cons b bs)
  have lt: "unat b div 16 < 16" "unat b mod 16 < 16"
    using unat_byte_lt [of b] by (simp_all add: less_mult_imp_div_less)
  have "(of_nat (16 * (unat b div 16) + unat b mod 16) :: byte) = b"
    by (simp only: mult_div_mod_eq byte_of_unat)
  with Cons show ?case
    by (simp only: hexdigest_Cons from_hex_digits [OF lt] option.map)
qed

lemma hexdigest_inj: "hexdigest a = hexdigest b \<Longrightarrow> a = b"
  by (metis from_hex_hexdigest option.inject)

end
