(* ===== verification/Auth.thy ===== *)
theory Auth
  imports Sessions Digest Interfaces
begin

text \<open>
  Authentication (src/backend/app/core/auth.py): password hashes, access tokens and single-use
  tickets, login lockout, revocation, API keys, and the two dependencies that turn a request
  into a caller (\<open>get_current_user\<close>) and check its role (\<open>require_roles\<close>).

  PyJWT is not part of the repository: \<open>enc\<close> and \<open>dec now\<close> are parameters, \<open>None\<close> stands for
  every \<open>InvalidTokenError\<close>, and \<open>jwt_verifies\<close> and \<open>jwt_stable\<close> state what its documentation
  promises. The module-level sets and dictionaries of the code are the record \<open>auth_mem\<close>. Redis
  is an input: the answer to each command the code sends, \<open>None\<close> when the command raises; the
  commands a function sends are part of its result. Random bytes and times are arguments.
\<close>

section \<open>Passwords\<close>

fun split_on :: "char \<Rightarrow> string \<Rightarrow> string list" where
  \<comment> \<open>\<open>s.split(c)\<close>\<close>
  "split_on c [] = [[]]"
| "split_on c (x # xs) =
     (if x = c then [] # split_on c xs
      else (case split_on c xs of [] \<Rightarrow> [[x]] | w # ws \<Rightarrow> (x # w) # ws))"

definition pbkdf2_iterations :: nat where
  "pbkdf2_iterations = 200000"

definition password_algo :: string where
  "password_algo = ''pbkdf2-sha256''"

definition hash_password :: "bytes \<Rightarrow> bytes \<Rightarrow> string" where
  \<comment> \<open>the password is given by its UTF-8 bytes, the salt by the 16 random bytes\<close>
  "hash_password password salt =
     (let dk = pbkdf2_sha256 password salt pbkdf2_iterations
      in password_algo @ ''$'' @ dec_of pbkdf2_iterations @ ''$'' @ hexdigest salt @ ''$'' @ hexdigest dk)"

definition pbkdf2_hmac :: "bytes \<Rightarrow> bytes \<Rightarrow> int \<Rightarrow> bytes option" where
  \<comment> \<open>\<open>hashlib\<close> raises for a count below 1 or one that does not fit a C int\<close>
  "pbkdf2_hmac password salt iters =
     (if iters < 1 \<or> 2147483647 < iters then None
      else Some (pbkdf2_sha256 password salt (nat iters)))"

definition verify_password :: "bytes \<Rightarrow> string \<Rightarrow> bool" where
  "verify_password password stored =
     (case split_on (CHR ''$'') stored of
        [algo, iters, salt_hex, dk_hex] \<Rightarrow>
          if algo \<noteq> password_algo then False
          else (case (from_hex salt_hex, py_int iters) of
                  (Some salt, Some n) \<Rightarrow>
                    (case pbkdf2_hmac password salt n of
                       None \<Rightarrow> False | Some dk \<Rightarrow> hexdigest dk = dk_hex)
                | _ \<Rightarrow> False)
      | _ \<Rightarrow> False)"

lemma split_on_plain: "c \<notin> set s \<Longrightarrow> split_on c s = [s]"
  by (induction s) auto

lemma split_on_app: "c \<notin> set s \<Longrightarrow> split_on c (s @ c # t) = s # split_on c t"
  by (induction s) auto

lemma hex_digit_set: "n < 16 \<Longrightarrow> hex_digit n \<in> set ''0123456789abcdef''"
  unfolding hex_digit_def by (rule nth_mem) simp

lemma set_hexdigest: "set (hexdigest bs) \<subseteq> set ''0123456789abcdef''"
proof (induction bs)
  case Nil
  then show ?case by (simp add: hexdigest_def)
next
  case (Cons b bs)
  have "unat b div 16 < 16" "unat b mod 16 < 16"
    using unat_byte_lt [of b] by (simp_all add: less_mult_imp_div_less)
  then have "hex_digit (unat b div 16) \<in> set ''0123456789abcdef''"
    "hex_digit (unat b mod 16) \<in> set ''0123456789abcdef''"
    by (simp_all only: hex_digit_set)
  with Cons show ?case by (simp only: hexdigest_Cons list.set insert_subset simp_thms)
qed

lemma no_dollar_hexdigest: "CHR ''$'' \<notin> set (hexdigest bs)"
proof
  assume "CHR ''$'' \<in> set (hexdigest bs)"
  then have "CHR ''$'' \<in> set ''0123456789abcdef''" using set_hexdigest by blast
  then show False by simp
qed

lemma split_hash_password:
  "split_on (CHR ''$'') (hash_password password salt) =
     [password_algo, dec_of pbkdf2_iterations, hexdigest salt,
      hexdigest (pbkdf2_sha256 password salt pbkdf2_iterations)]"
proof -
  have algo: "CHR ''$'' \<notin> set password_algo" by (simp add: password_algo_def)
  have its: "CHR ''$'' \<notin> set (dec_of pbkdf2_iterations)"
    using dec_of_digits by (fastforce simp: is_digit_def Let_def)
  show ?thesis
    by (simp add: hash_password_def Let_def split_on_app [OF algo] split_on_app [OF its]
        split_on_app [OF no_dollar_hexdigest] split_on_plain [OF no_dollar_hexdigest])
qed

lemma verify_hashed:
  "verify_password attempt (hash_password password salt) \<longleftrightarrow>
     pbkdf2_sha256 attempt salt pbkdf2_iterations = pbkdf2_sha256 password salt pbkdf2_iterations"
proof -
  have "pbkdf2_hmac attempt salt (int pbkdf2_iterations) = Some (pbkdf2_sha256 attempt salt pbkdf2_iterations)"
    by (simp add: pbkdf2_hmac_def pbkdf2_iterations_def)
  then show ?thesis
    unfolding verify_password_def split_hash_password
    by (auto simp: from_hex_hexdigest py_int_dec_of dest: hexdigest_inj)
qed

text \<open>A stored password hash is accepted for a password exactly when both derive the same
  PBKDF2 key with the stored salt; in particular for the password it was made from.\<close>

theorem verify_hash_password:
  "verify_password attempt (hash_password password salt) \<longleftrightarrow>
     pbkdf2_sha256 attempt salt pbkdf2_iterations = pbkdf2_sha256 password salt pbkdf2_iterations"
  by (rule verify_hashed)

section \<open>Claims and tokens\<close>

datatype jval = JNull | JBool bool | JInt int | JStr string

type_synonym claims = "(string, jval) dict"

fun truthy :: "jval \<Rightarrow> bool" where
  "truthy JNull = False"
| "truthy (JBool b) = b"
| "truthy (JInt i) = (i \<noteq> 0)"
| "truthy (JStr s) = (s \<noteq> '''')"

definition claim_str :: "claims \<Rightarrow> string \<Rightarrow> string" where
  \<comment> \<open>\<open>claims.get(k) or ""\<close>, for the claims that this program only ever issues as text\<close>
  "claim_str c k = (case dget c k of Some (JStr s) \<Rightarrow> s | _ \<Rightarrow> '''')"

definition create_access_token ::
  "time \<Rightarrow> string \<Rightarrow> string \<Rightarrow> string \<Rightarrow> string \<Rightarrow> int \<Rightarrow> claims \<Rightarrow> int \<Rightarrow> claims" where
  \<comment> \<open>the payload handed to \<open>jwt.encode\<close>; \<open>jti\<close> is the random hexadecimal text\<close>
  "create_access_token now jti sub org_id role expires_in extra session_version =
     (let payload = [(''sub'', JStr sub), (''org'', JStr org_id), (''role'', JStr role),
                     (''iat'', JInt \<lfloor>now\<rfloor>), (''exp'', JInt (\<lfloor>now\<rfloor> + expires_in)),
                     (''jti'', JStr jti), (''sv'', JInt session_version)]
      in foldl (\<lambda>p (k, v). dset k v p) payload extra)"

definition mfa_ticket_ttl :: int where "mfa_ticket_ttl = 300"
definition sse_ticket_ttl :: int where "sse_ticket_ttl = 60"

definition create_mfa_ticket :: "time \<Rightarrow> string \<Rightarrow> string \<Rightarrow> string \<Rightarrow> claims" where
  "create_mfa_ticket now jti sub org_id =
     create_access_token now jti sub org_id '''' mfa_ticket_ttl
       [(''scope'', JStr ''mfa-verify''), (''typ'', JStr ''mfa-ticket''), (''jti'', JStr jti)] 1"

definition create_sse_ticket :: "time \<Rightarrow> string \<Rightarrow> string \<Rightarrow> string \<Rightarrow> string \<Rightarrow> claims" where
  "create_sse_ticket now jti sub org_id role =
     create_access_token now jti sub org_id role sse_ticket_ttl
       [(''scope'', JStr ''live:read''), (''typ'', JStr ''sse-ticket''), (''jti'', JStr jti)] 1"

definition jwt_verifies :: "(claims \<Rightarrow> 'tok) \<Rightarrow> (time \<Rightarrow> 'tok \<Rightarrow> claims option) \<Rightarrow> bool" where
  \<comment> \<open>a token that was signed with the process's key decodes to its payload while it is valid\<close>
  "jwt_verifies enc dec \<longleftrightarrow>
     (\<forall>c now i e. dget c ''iat'' = Some (JInt i) \<longrightarrow> dget c ''exp'' = Some (JInt e) \<longrightarrow>
        real_of_int i \<le> now \<longrightarrow> now < real_of_int e \<longrightarrow> dec now (enc c) = Some c)"

definition jwt_stable :: "(time \<Rightarrow> 'tok \<Rightarrow> claims option) \<Rightarrow> bool" where
  \<comment> \<open>the payload of a token does not depend on the time at which it is decoded\<close>
  "jwt_stable dec \<longleftrightarrow>
     (\<forall>t u tok c d. dec t tok = Some c \<longrightarrow> dec u tok = Some d \<longrightarrow> c = d)"

definition toy_dec :: "time \<Rightarrow> claims \<Rightarrow> claims option" where
  \<comment> \<open>an instance for the witnesses: tokens are their payloads, only the times are checked\<close>
  "toy_dec now c =
     (case (dget c ''iat'', dget c ''exp'') of
        (Some (JInt i), Some (JInt e)) \<Rightarrow>
          if real_of_int i \<le> now \<and> now < real_of_int e then Some c else None
      | _ \<Rightarrow> None)"

lemma toy_verifies: "jwt_verifies (\<lambda>c. c) toy_dec"
  by (simp add: jwt_verifies_def toy_dec_def)

lemma toy_stable: "jwt_stable toy_dec"
  by (auto simp: jwt_stable_def toy_dec_def split: option.splits jval.splits if_splits)

section \<open>Tickets that are accepted once\<close>

record auth_mem =
  mem_failures :: "(string, time list) dict"
  mem_locks :: "(string, time) dict"
  revoked_jti :: "string list"
  used_mfa_tickets :: "string list"
  used_sse_tickets :: "string list"

definition empty_mem :: auth_mem where
  "empty_mem = \<lparr>mem_failures = [], mem_locks = [], revoked_jti = [], used_mfa_tickets = [],
     used_sse_tickets = []\<rparr>"

definition used_limit :: nat where
  "used_limit = 10000"

definition bounded_add :: "string \<Rightarrow> string list \<Rightarrow> string list" where
  \<comment> \<open>\<open>s.add(k); if len(s) > 10_000: s.clear(); s.add(k)\<close>; the set is a list without duplicates\<close>
  "bounded_add k s = (let s' = List.insert k s in if used_limit < length s' then [k] else s')"

definition consume_ticket ::
  "string \<Rightarrow> string \<Rightarrow> (time \<Rightarrow> 'tok \<Rightarrow> claims option) \<Rightarrow> bool option \<Rightarrow> time \<Rightarrow> 'tok \<Rightarrow>
   string list \<Rightarrow> (claims \<times> string list) res" where
  \<comment> \<open>\<open>setnx\<close> is the answer to \<open>SET key 1 NX EX ttl\<close>; without Redis the set decides\<close>
  "consume_ticket scope wrong_scope dec setnx now token used =
     (case dec now token of
        None \<Rightarrow> Inl (ValueError ''invalid token'')
      | Some claims \<Rightarrow>
          if dget claims ''scope'' \<noteq> Some (JStr scope) then Inl (ValueError wrong_scope)
          else (let jti = claim_str claims ''jti''
                in if jti = '''' then Inl (ValueError ''ticket missing jti'')
                   else (case setnx of
                           Some ok \<Rightarrow> if ok then Inr (claims, used)
                                      else Inl (ValueError ''ticket already used'')
                         | None \<Rightarrow>
                             if jti \<in> set used then Inl (ValueError ''ticket already used'')
                             else Inr (claims, bounded_add jti used))))"

definition mfa_scope :: string where "mfa_scope = ''mfa-verify''"
definition sse_scope :: string where "sse_scope = ''live:read''"

definition consume_mfa_ticket ::
  "(time \<Rightarrow> 'tok \<Rightarrow> claims option) \<Rightarrow> bool option \<Rightarrow> time \<Rightarrow> 'tok \<Rightarrow> string list \<Rightarrow>
   (claims \<times> string list) res" where
  "consume_mfa_ticket = consume_ticket mfa_scope ''not an MFA ticket (scope)''"

definition consume_sse_ticket ::
  "(time \<Rightarrow> 'tok \<Rightarrow> claims option) \<Rightarrow> bool option \<Rightarrow> time \<Rightarrow> 'tok \<Rightarrow> string list \<Rightarrow>
   (claims \<times> string list) res" where
  "consume_sse_ticket = consume_ticket sse_scope ''not an SSE ticket (scope)''"

lemma bounded_add_has: "k \<in> set (bounded_add k s)"
  by (simp add: bounded_add_def Let_def)

lemma bounded_add_keeps: "length s < used_limit \<Longrightarrow> j \<in> set s \<Longrightarrow> j \<in> set (bounded_add k s)"
  by (auto simp: bounded_add_def Let_def List.insert_def)

lemma length_bounded_add_le: "length (bounded_add k s) \<le> Suc (length s)"
  by (simp add: bounded_add_def Let_def List.insert_def)

definition present :: "string \<Rightarrow> string \<Rightarrow> (time \<Rightarrow> 'tok \<Rightarrow> claims option) \<Rightarrow> time \<times> 'tok \<Rightarrow>
    string list \<Rightarrow> string list option" where
  \<comment> \<open>one presentation of a ticket to a process without Redis\<close>
  "present scope msg dec k s =
     (case consume_ticket scope msg dec None (fst k) (snd k) s of
        Inl e \<Rightarrow> None | Inr (c, s') \<Rightarrow> Some s')"

definition same_ticket :: "(time \<Rightarrow> 'tok \<Rightarrow> claims option) \<Rightarrow> time \<times> 'tok \<Rightarrow> time \<times> 'tok \<Rightarrow> bool" where
  "same_ticket dec k j \<longleftrightarrow>
     (case (dec (fst k) (snd k), dec (fst j) (snd j)) of
        (Some c, Some d) \<Rightarrow> claim_str c ''jti'' = claim_str d ''jti'' | _ \<Rightarrow> True)"

lemma present_Some:
  "present scope msg dec k s = Some s' \<longleftrightarrow>
     (\<exists>c. dec (fst k) (snd k) = Some c \<and> dget c ''scope'' = Some (JStr scope) \<and>
          claim_str c ''jti'' \<noteq> '''' \<and> claim_str c ''jti'' \<notin> set s \<and>
          s' = bounded_add (claim_str c ''jti'') s)"
  by (auto simp: present_def consume_ticket_def Let_def split: option.splits)

lemma present_None_mono:
  assumes "present scope msg dec j s = None" "set s \<subseteq> set s'"
  shows "present scope msg dec j s' = None"
proof (rule ccontr)
  assume "present scope msg dec j s' \<noteq> None"
  then obtain t where "present scope msg dec j s' = Some t" by auto
  then have "present scope msg dec j s \<noteq> None"
    using assms(2) present_Some [of scope msg dec j s] by (auto simp: present_Some)
  with assms(1) show False by contradiction
qed

interpretation tickets: single_use "\<lambda>s k. present scope msg dec k s = None" "present scope msg dec"
  "\<lambda>s. length s < used_limit" "same_ticket dec"
  for scope msg and dec :: "time \<Rightarrow> 'tok \<Rightarrow> claims option"
proof unfold_locales
  fix k j :: "time \<times> 'tok" and s s' :: "string list"
  show "(present scope msg dec k s = None) = (present scope msg dec k s = None)" ..
  assume k: "present scope msg dec k s = Some s'"
  then obtain c where c: "dec (fst k) (snd k) = Some c" "s' = bounded_add (claim_str c ''jti'') s"
    by (auto simp: present_Some)
  show "present scope msg dec j s' = None" if "same_ticket dec k j"
  proof (rule ccontr)
    assume "present scope msg dec j s' \<noteq> None"
    then obtain d where "dec (fst j) (snd j) = Some d" "claim_str d ''jti'' \<notin> set s'"
      by (auto simp: present_Some)
    with that c show False by (simp add: same_ticket_def bounded_add_has)
  qed
  show "present scope msg dec j s' = None" if "length s < used_limit" "present scope msg dec j s = None"
    by (rule present_None_mono [OF that(2)]) (use bounded_add_keeps [OF that(1)] c(2) in auto)
qed

fun present_all :: "string \<Rightarrow> string \<Rightarrow> (time \<Rightarrow> 'tok \<Rightarrow> claims option) \<Rightarrow> (time \<times> 'tok) list \<Rightarrow>
    string list \<Rightarrow> bool list" where
  \<comment> \<open>the verdicts over a sequence of presentations\<close>
  "present_all scope msg dec [] s = []"
| "present_all scope msg dec (k # ks) s =
     (case consume_ticket scope msg dec None (fst k) (snd k) s of
        Inl e \<Rightarrow> False # present_all scope msg dec ks s
      | Inr (c, s') \<Rightarrow> True # present_all scope msg dec ks s')"

lemma present_all_burn: "present_all scope msg dec ks s = fst (tickets.burn_all scope msg dec ks s)"
  by (induction ks arbitrary: s)
    (auto simp: present_def Let_def split_beta split: sum.splits prod.splits)

lemma tickets_roomy:
  "length s + length ks \<le> used_limit \<Longrightarrow> tickets.roomy scope msg dec ks s"
proof (induction ks arbitrary: s)
  case Nil
  then show ?case by simp
next
  case (Cons k ks)
  have "tickets.roomy scope msg dec ks s'" if s': "present scope msg dec k s = Some s'" for s'
  proof -
    obtain k' where "s' = bounded_add k' s" using s' by (auto simp: present_Some)
    then have "length s' \<le> Suc (length s)" by (simp add: length_bounded_add_le)
    with Cons.prems show ?thesis by (intro Cons.IH) simp
  qed
  moreover have "tickets.roomy scope msg dec ks s" using Cons by simp
  ultimately show ?case using Cons.prems by (simp split: option.splits)
qed


lemma cleared_set_accepts_again:
  \<comment> \<open>the bound of the set is what the single use costs: the ticket after the ten-thousandth empties it\<close>
  assumes "length s = used_limit" "jti \<in> set s" "k \<notin> set s"
  shows "bounded_add k s = [k]" "jti \<notin> set (bounded_add k s)"
  using assms by (auto simp: bounded_add_def Let_def List.insert_def)


section \<open>Login lockout\<close>

definition login_max_attempts :: nat where "login_max_attempts = 5"
definition login_window_seconds :: time where "login_window_seconds = 300"
definition login_lock_seconds :: time where "login_lock_seconds = 900"
definition login_ip_max_attempts :: nat where "login_ip_max_attempts = 20"

datatype redis_cmd = Incr string | Expire string nat | SetEx string nat | Delete "string list"

definition lock_key :: "string \<Rightarrow> string" where
  "lock_key k = k @ '':lock''"

definition mem_prune :: "string \<Rightarrow> time \<Rightarrow> auth_mem \<Rightarrow> time list" where
  "mem_prune key now m =
     filter (\<lambda>t. now - t < login_window_seconds) (dget_or (mem_failures m) key [])"

fun redis_any_lock :: "(string \<Rightarrow> bool option) \<Rightarrow> string list \<Rightarrow> bool option" where
  \<comment> \<open>the loop over \<open>r.get(k + ":lock")\<close>; \<open>None\<close> when a command raises\<close>
  "redis_any_lock get [] = Some False"
| "redis_any_lock get (k # ks) =
     (case get (lock_key k) of
        None \<Rightarrow> None | Some b \<Rightarrow> if b then Some True else redis_any_lock get ks)"

definition mem_locked :: "time \<Rightarrow> auth_mem \<Rightarrow> string \<Rightarrow> bool" where
  "mem_locked now m k = (let until = dget_or (mem_locks m) k 0 in until \<noteq> 0 \<and> now < until)"

definition is_login_locked :: "(string \<Rightarrow> bool option) \<Rightarrow> time \<Rightarrow> string \<Rightarrow> string \<Rightarrow> auth_mem \<Rightarrow> bool" where
  "is_login_locked get now account_key ip_key m =
     (case redis_any_lock get [account_key, ip_key] of
        Some b \<Rightarrow> b
      | None \<Rightarrow> list_ex (mem_locked now m) [account_key, ip_key])"

fun redis_failures :: "(string \<Rightarrow> nat option) \<Rightarrow> (string \<times> nat) list \<Rightarrow> redis_cmd list \<times> bool" where
  \<comment> \<open>the commands sent, and whether the loop ended without an exception\<close>
  "redis_failures incr [] = ([], True)"
| "redis_failures incr ((k, limit) # ks) =
     (case incr k of
        None \<Rightarrow> ([], False)
      | Some n \<Rightarrow>
          (let cmds = Incr k # (if n = 1 then [Expire k 300] else [])
                 @ (if limit \<le> n then [SetEx (lock_key k) 900] else []);
               (cs, ok) = redis_failures incr ks
           in (cmds @ cs, ok)))"

definition mem_failure :: "time \<Rightarrow> string \<times> nat \<Rightarrow> auth_mem \<Rightarrow> auth_mem" where
  "mem_failure now kl m =
     (let hits = mem_prune (fst kl) now m @ [now];
          m = m\<lparr>mem_failures := dset (fst kl) hits (mem_failures m)\<rparr>
      in if snd kl \<le> length hits
         then m\<lparr>mem_locks := dset (fst kl) (now + login_lock_seconds) (mem_locks m)\<rparr> else m)"

definition login_limits :: "string \<Rightarrow> string \<Rightarrow> (string \<times> nat) list" where
  "login_limits account_key ip_key =
     [(account_key, login_max_attempts), (ip_key, login_ip_max_attempts)]"

definition record_login_failure ::
  "(string \<Rightarrow> nat option) \<Rightarrow> time \<Rightarrow> string \<Rightarrow> string \<Rightarrow> auth_mem \<Rightarrow> auth_mem \<times> redis_cmd list" where
  "record_login_failure incr now account_key ip_key m =
     (case redis_failures incr (login_limits account_key ip_key) of
        (cmds, True) \<Rightarrow> (m, cmds)
      | (cmds, False) \<Rightarrow> (fold (mem_failure now) (login_limits account_key ip_key) m, cmds))"

definition record_login_success :: "bool \<Rightarrow> string \<Rightarrow> string \<Rightarrow> auth_mem \<Rightarrow> auth_mem \<times> redis_cmd list" where
  \<comment> \<open>the Redis path deletes both counters, the memory path only the account's\<close>
  "record_login_success redis account_key ip_key m =
     (if redis then (m, [Delete [account_key, ip_key]])
      else (m\<lparr>mem_failures := ddel account_key (mem_failures m)\<rparr>, []))"

definition acct_key :: "string \<Rightarrow> string" where
  "acct_key email = ''login:acct:'' @ (if email = '''' then ''unknown'' else email)"

definition ip_key :: "string \<Rightarrow> string" where
  "ip_key client_ip = ''login:ip:'' @ client_ip"

lemma acct_not_ip: "acct_key e \<noteq> ip_key i"
  by (simp add: acct_key_def ip_key_def)

definition fail_once :: "string \<Rightarrow> time \<times> string \<Rightarrow> auth_mem \<Rightarrow> auth_mem" where
  \<comment> \<open>a failed login on an account while Redis is away\<close>
  "fail_once email e m =
     fst (record_login_failure (\<lambda>k. None) (fst e) (acct_key email) (ip_key (snd e)) m)"

lemma fail_once_hits:
  "dget (mem_failures (fail_once email (t, ip) m)) (acct_key email) =
     Some (mem_prune (acct_key email) t m @ [t])"
  using acct_not_ip [of email ip] acct_not_ip [of email ip, symmetric]
  by (simp add: fail_once_def record_login_failure_def login_limits_def mem_failure_def Let_def)

lemma fail_once_lock:
  "login_max_attempts \<le> Suc (length (mem_prune (acct_key email) t m)) \<Longrightarrow>
   dget (mem_locks (fail_once email (t, ip) m)) (acct_key email) = Some (t + login_lock_seconds)"
  using acct_not_ip [of email ip] acct_not_ip [of email ip, symmetric]
  by (simp add: fail_once_def record_login_failure_def login_limits_def mem_failure_def Let_def)

lemma failures_counted:
  assumes "\<forall>e\<in>set es. u - fst e < login_window_seconds \<and> fst e \<le> u"
    and "sorted (map fst es)" and "es \<noteq> []"
  shows "\<exists>old. dget (mem_failures (fold (fail_once email) es m)) (acct_key email) = Some (old @ map fst es)"
  using assms
proof (induction es rule: rev_induct)
  case Nil
  then show ?case by simp
next
  case (snoc e es)
  obtain t ip where e: "e = (t, ip)" by (cases e)
  show ?case
  proof (cases "es = []")
    case True
    then show ?thesis by (simp add: e fail_once_hits)
  next
    case False
    with snoc obtain old where old:
      "dget (mem_failures (fold (fail_once email) es m)) (acct_key email) = Some (old @ map fst es)"
      by (auto simp: sorted_append)
    have "filter (\<lambda>x. t - x < login_window_seconds) (map fst es) = map fst es"
      using snoc.prems(1) by (fastforce simp: e filter_id_conv)
    with old show ?thesis
      by (simp add: e fail_once_hits mem_prune_def dget_or_def)
  qed
qed

text \<open>Five failed logins on an account within five minutes lock it for fifteen minutes,
  whichever addresses they came from and whatever was counted before; the check needs no Redis.\<close>

theorem five_failures_lock:
  assumes "sorted (map fst es)" "login_max_attempts \<le> length es"
    and "fst (last es) - fst (hd es) < login_window_seconds" "0 \<le> fst (hd es)"
    and "now < fst (last es) + login_lock_seconds"
  shows "is_login_locked (\<lambda>k. None) now (acct_key email) ip (fold (fail_once email) es m)"
proof -
  have ne: "es \<noteq> []" using assms(2) by (auto simp: login_max_attempts_def)
  define bs l where "bs = butlast es" and "l = last es"
  then have es: "es = bs @ [l]" using ne by simp
  obtain t ip' where l: "l = (t, ip')" by (cases l)
  have "bs \<noteq> []" using assms(2) es by (auto simp: login_max_attempts_def)
  have in_win: "\<forall>e\<in>set bs. t - fst e < login_window_seconds \<and> fst e \<le> t"
  proof
    fix e assume "e \<in> set bs"
    then have "fst (hd es) \<le> fst e" "fst e \<le> t"
      using assms(1) \<open>bs \<noteq> []\<close> by (cases bs; force simp: es l sorted_append)+
    then show "t - fst e < login_window_seconds \<and> fst e \<le> t"
      using assms(3) by (simp add: es l)
  qed
  then obtain old where "dget (mem_failures (fold (fail_once email) bs m)) (acct_key email)
      = Some (old @ map fst bs)"
    using failures_counted [of bs t email m] assms(1) \<open>bs \<noteq> []\<close> by (auto simp: es sorted_append)
  moreover have "filter (\<lambda>x. t - x < login_window_seconds) (map fst bs) = map fst bs"
    using in_win by (fastforce simp: filter_id_conv)
  ultimately have "login_max_attempts \<le> Suc (length (mem_prune (acct_key email) t (fold (fail_once email) bs m)))"
    using assms(2) by (simp add: mem_prune_def dget_or_def es)
  then have "dget (mem_locks (fold (fail_once email) es m)) (acct_key email) = Some (t + login_lock_seconds)"
    by (simp add: es l fail_once_lock)
  moreover have "0 \<le> t" using assms(1,4) ne in_win \<open>bs \<noteq> []\<close>
    by (cases bs) (auto simp: es)
  ultimately show ?thesis
    using assms(5) by (simp add: is_login_locked_def mem_locked_def dget_or_def Let_def es l login_lock_seconds_def)
qed

lemma five_failures_lock_witness:
  "is_login_locked (\<lambda>k. None) 800 (acct_key ''a@b.c'') ''login:ip:9''
     (fold (fail_once ''a@b.c'') [(0, ''1''), (60, ''2''), (120, ''3''), (180, ''4''), (240, ''5'')] empty_mem)"
  by (rule five_failures_lock)
    (simp_all add: login_max_attempts_def login_window_seconds_def login_lock_seconds_def)

section \<open>Revocation\<close>

definition revoked_key :: "string \<Rightarrow> string" where
  "revoked_key jti = ''revoked-jti:'' @ jti"

definition revoke_token :: "bool \<Rightarrow> string \<Rightarrow> int \<Rightarrow> auth_mem \<Rightarrow> auth_mem \<times> redis_cmd list" where
  "revoke_token redis jti ttl_seconds m =
     (if jti = '''' then (m, [])
      else if redis then (m, [SetEx (revoked_key jti) (nat (max 60 ttl_seconds))])
      else (m\<lparr>revoked_jti := bounded_add jti (revoked_jti m)\<rparr>, []))"

definition is_token_revoked :: "(string \<Rightarrow> bool option) \<Rightarrow> string \<Rightarrow> auth_mem \<Rightarrow> bool" where
  "is_token_revoked get jti m =
     (if jti = '''' then False
      else if get (revoked_key jti) = Some True then True
      else jti \<in> set (revoked_jti m))"

section \<open>API keys\<close>

definition generate_api_key :: "bytes \<Rightarrow> string \<times> string \<times> string" where
  \<comment> \<open>from the 16 random bytes: the key, its hash and its prefix\<close>
  "generate_api_key random =
     (let raw = ''cp_'' @ hexdigest random in (raw, sha256_hex (ascii raw), take 11 raw))"

definition hash_api_key :: "string \<Rightarrow> string" where
  "hash_api_key raw = sha256_hex (ascii raw)"

section \<open>The tables that authentication reads\<close>

datatype user_role = ADMIN | ANALYST | AUDITOR

definition role_value :: "user_role \<Rightarrow> string" where
  "role_value r = (case r of ADMIN \<Rightarrow> ''admin'' | ANALYST \<Rightarrow> ''analyst'' | AUDITOR \<Rightarrow> ''auditor'')"

definition role_of :: "string \<Rightarrow> user_role option" where
  \<comment> \<open>\<open>UserRole(s)\<close>\<close>
  "role_of s = (if s = ''admin'' then Some ADMIN else if s = ''analyst'' then Some ANALYST
     else if s = ''auditor'' then Some AUDITOR else None)"

record user =
  u_id :: string
  u_org_id :: string
  u_email :: string
  u_password_hash :: string
  u_role :: user_role
  u_is_active :: bool
  u_last_login :: "time option"
  u_mfa_secret_enc :: "string option"
  u_mfa_enabled :: bool
  u_mfa_recovery :: "string list"
  u_oidc_sub :: "string option"
  u_session_version :: "int option"
  u_is_platform_admin :: bool

record api_key =
  k_id :: string
  k_org_id :: string
  k_user_id :: string
  k_name :: string
  k_key_hash :: string
  k_prefix :: string
  k_revoked :: bool
  k_expires_at :: "time option"

record audit_log =
  a_org_id :: string
  a_actor :: string
  a_action :: string
  a_resource :: string

record db =
  db_users :: "(string, user) dict"
  db_api_keys :: "(string, api_key) dict"
  db_agent_tokens :: "(string, api_key) dict"
  db_orgs :: "(string, string) dict"
  db_audit :: "audit_log list"

definition log_audit :: "bool \<Rightarrow> string \<Rightarrow> string \<Rightarrow> string \<Rightarrow> string \<Rightarrow> db \<Rightarrow> db" where
  \<comment> \<open>best effort: a failed write is rolled back and swallowed\<close>
  "log_audit ok org_id actor action resource d =
     (if ok then d\<lparr>db_audit := db_audit d @ [\<lparr>a_org_id = org_id, a_actor = actor,
                     a_action = action, a_resource = resource\<rparr>]\<rparr>
      else d)"

definition user_sv :: "user \<Rightarrow> int" where
  \<comment> \<open>\<open>int(getattr(user, "session_version", 1) or 1)\<close>\<close>
  "user_sv u = (case u_session_version u of None \<Rightarrow> 1 | Some v \<Rightarrow> if v = 0 then 1 else v)"

definition put_user :: "user \<Rightarrow> db \<Rightarrow> db" where
  "put_user u d = d\<lparr>db_users := dset (u_id u) u (db_users d)\<rparr>"

section \<open>Callers\<close>

datatype http_error = HTTPException nat string | Uncaught pyerr

datatype via = JWT | API_KEY

record auth_ctx =
  c_user_id :: string
  c_email :: string
  c_org_id :: string
  c_role :: user_role
  c_via :: via

definition ctx_of :: "user \<Rightarrow> string \<Rightarrow> via \<Rightarrow> auth_ctx" where
  "ctx_of u org v = \<lparr>c_user_id = u_id u, c_email = u_email u, c_org_id = org,
     c_role = u_role u, c_via = v\<rparr>"

fun int_claim :: "jval \<Rightarrow> int option" where
  \<comment> \<open>\<open>int(v)\<close>; \<open>None\<close> when it raises\<close>
  "int_claim JNull = None"
| "int_claim (JBool b) = Some (if b then 1 else 0)"
| "int_claim (JInt i) = Some i"
| "int_claim (JStr s) = py_int s"

definition find_key :: "string \<Rightarrow> (string, api_key) dict \<Rightarrow> api_key option" where
  \<comment> \<open>\<open>select(ApiKey).where(key_hash == digest)\<close>, first row\<close>
  "find_key digest ks = find (\<lambda>k. k_key_hash k = digest) (map snd ks)"

definition api_key_user :: "time \<Rightarrow> bool \<Rightarrow> string \<Rightarrow> db \<Rightarrow> http_error + (auth_ctx \<times> db)" where
  "api_key_user now commit_ok raw d =
     (case find_key (hash_api_key raw) (db_api_keys d) of
        None \<Rightarrow> Inl (HTTPException 401 ''Invalid API key'')
      | Some row \<Rightarrow>
          if k_revoked row then Inl (HTTPException 401 ''Invalid API key'')
          else (case dget (db_users d) (k_user_id row) of
                  None \<Rightarrow> Inl (HTTPException 401 ''API key owner inactive'')
                | Some u \<Rightarrow>
                    if \<not> u_is_active u then Inl (HTTPException 401 ''API key owner inactive'')
                    else Inr (ctx_of u (u_org_id u) API_KEY,
                              if commit_ok then put_user (u\<lparr>u_last_login := Some now\<rparr>) d else d)))"

definition claims_user :: "(string \<Rightarrow> bool option) \<Rightarrow> auth_mem \<Rightarrow> claims \<Rightarrow> db \<Rightarrow> http_error + auth_ctx" where
  "claims_user get m claims d =
     (if is_token_revoked get (claim_str claims ''jti'') m then Inl (HTTPException 401 ''Session revoked'')
      else (case dget claims ''sub'' of
              None \<Rightarrow> Inl (Uncaught KeyError)
            | Some sub \<Rightarrow>
                (case (case sub of JStr s \<Rightarrow> dget (db_users d) s | _ \<Rightarrow> None) of
                   None \<Rightarrow> Inl (HTTPException 401 ''User inactive or deleted'')
                 | Some u \<Rightarrow>
                     (let assumed = (case dget claims ''assumed'' of None \<Rightarrow> False | Some v \<Rightarrow> truthy v);
                          org_eq = (dget claims ''org'' = Some (JStr (u_org_id u)));
                          effective_org = (if assumed then claim_str claims ''org'' else u_org_id u);
                          token_sv = (case dget claims ''sv'' of None \<Rightarrow> Some 1 | Some v \<Rightarrow> int_claim v)
                      in if \<not> u_is_active u then Inl (HTTPException 401 ''User inactive or deleted'')
                         else if \<not> org_eq \<and> \<not> assumed then Inl (HTTPException 401 ''Token org mismatch'')
                         else (case token_sv of
                                 None \<Rightarrow> Inl (HTTPException 401 ''Invalid session version'')
                               | Some v \<Rightarrow>
                                   if v \<noteq> user_sv u then Inl (HTTPException 401 ''Session revoked'')
                                   else Inr (ctx_of u effective_org JWT))))))"

definition get_current_user ::
  "(time \<Rightarrow> 'tok \<Rightarrow> claims option) \<Rightarrow> (string \<Rightarrow> bool option) \<Rightarrow> auth_mem \<Rightarrow> time \<Rightarrow> bool \<Rightarrow>
   string \<Rightarrow> 'tok option \<Rightarrow> db \<Rightarrow> http_error + (auth_ctx \<times> db)" where
  \<comment> \<open>\<open>api_key\<close> is the \<open>X-API-Key\<close> header, \<open>""\<close> when absent; \<open>creds\<close> the bearer token\<close>
  "get_current_user dec get m now commit_ok api_key creds d =
     (if api_key \<noteq> '''' then api_key_user now commit_ok api_key d
      else (case creds of
              None \<Rightarrow> Inl (HTTPException 401 ''Not authenticated'')
            | Some token \<Rightarrow>
                (case dec now token of
                   None \<Rightarrow> Inl (HTTPException 401 ''Invalid or expired token'')
                 | Some claims \<Rightarrow> bindR (claims_user get m claims d) (\<lambda>ctx. Inr (ctx, d)))))"

definition role_rank :: "user_role \<Rightarrow> int" where
  "role_rank r = (case r of AUDITOR \<Rightarrow> 0 | ANALYST \<Rightarrow> 1 | ADMIN \<Rightarrow> 2)"

definition require_roles :: "user_role list \<Rightarrow> auth_ctx \<Rightarrow> http_error + auth_ctx" where
  "require_roles roles ctx =
     (if role_rank (c_role ctx) < Min (set (map role_rank roles))
      then Inl (HTTPException 403 ''Insufficient role'') else Inr ctx)"

definition db_ok :: "db \<Rightarrow> bool" where
  \<comment> \<open>the primary key of a user row is its \<open>id\<close>\<close>
  "db_ok d \<longleftrightarrow> (\<forall>(i, u) \<in> set (db_users d). u_id u = i)"

lemma db_okD: "db_ok d \<Longrightarrow> dget (db_users d) i = Some u \<Longrightarrow> u_id u = i"
  by (auto simp: db_ok_def dest: map_of_SomeD)

lemma set_dset: "p \<in> set (dset k v d) \<Longrightarrow> p = (k, v) \<or> p \<in> set d"
  by (induction d) (auto split: if_splits)

lemma db_ok_put [intro]: "db_ok d \<Longrightarrow> db_ok (put_user u d)"
  by (fastforce simp: db_ok_def put_user_def dest: set_dset)

lemma db_ok_audit [simp]: "db_ok (log_audit ok a b c e d) = db_ok d"
  by (simp add: log_audit_def db_ok_def)

lemma users_audit [simp]: "db_users (log_audit ok a b c e d) = db_users d"
  by (simp add: log_audit_def)

lemma users_put [simp]: "db_users (put_user u d) = dset (u_id u) u (db_users d)"
  by (simp add: put_user_def)

lemma ctx_of_sel [simp]:
  "c_user_id (ctx_of u org v) = u_id u" "c_email (ctx_of u org v) = u_email u"
  "c_org_id (ctx_of u org v) = org" "c_role (ctx_of u org v) = u_role u" "c_via (ctx_of u org v) = v"
  by (simp_all add: ctx_of_def)

lemma claims_user_Inr:
  "claims_user get m c d = Inr ctx \<Longrightarrow>
     \<exists>u s. dget c ''sub'' = Some (JStr s) \<and> dget (db_users d) s = Some u \<and> u_is_active u \<and>
       \<not> is_token_revoked get (claim_str c ''jti'') m \<and>
       (dget c ''sv'' = None \<and> user_sv u = 1 \<or>
          (\<exists>v. dget c ''sv'' = Some v \<and> int_claim v = Some (user_sv u))) \<and>
       (if (\<exists>v. dget c ''assumed'' = Some v \<and> truthy v) then ctx = ctx_of u (claim_str c ''org'') JWT
        else dget c ''org'' = Some (JStr (u_org_id u)) \<and> ctx = ctx_of u (u_org_id u) JWT)"
  by (auto simp: claims_user_def Let_def split: if_splits option.splits jval.splits)

lemma api_key_user_Inr:
  "api_key_user now ok raw d = Inr (ctx, d') \<Longrightarrow>
     \<exists>row u. find_key (hash_api_key raw) (db_api_keys d) = Some row \<and> \<not> k_revoked row \<and>
       dget (db_users d) (k_user_id row) = Some u \<and> u_is_active u \<and>
       ctx = ctx_of u (u_org_id u) API_KEY \<and> (d' = d \<or> d' = put_user (u\<lparr>u_last_login := Some now\<rparr>) d)"
  by (auto simp: api_key_user_def split: if_splits option.splits)

text \<open>Whoever a request is taken for is an active user of the database, with the role and the
  mail address that the database holds at that moment and not those of the token; the
  organisation is the user's own unless the token was issued for an assumed one.\<close>

theorem caller_is_active_user:
  assumes "db_ok d" "get_current_user dec get m now ok key creds d = Inr (ctx, d')"
  shows "\<exists>u. dget (db_users d) (c_user_id ctx) = Some u \<and> u_is_active u \<and>
           c_role ctx = u_role u \<and> c_email ctx = u_email u \<and>
           (c_org_id ctx = u_org_id u \<or>
            (\<exists>tok c v. creds = Some tok \<and> dec now tok = Some c \<and>
                dget c ''assumed'' = Some v \<and> truthy v \<and> c_org_id ctx = claim_str c ''org''))"
proof (cases "key = ''''")
  case False
  with assms(2) have "api_key_user now ok key d = Inr (ctx, d')" by (simp add: get_current_user_def)
  from api_key_user_Inr [OF this] show ?thesis
    using assms(1) by (auto dest: db_okD)
next
  case True
  with assms(2) obtain tok c where c: "creds = Some tok" "dec now tok = Some c"
    "claims_user get m c d = Inr ctx"
    by (auto simp: get_current_user_def bindR_eq_Inr split: option.splits)
  from claims_user_Inr [OF this(3)] show ?thesis
    using assms(1) c(1,2) by (auto dest: db_okD split: if_splits)
qed

definition fresh_user :: user where
  \<comment> \<open>an administrator with a second factor, for the witnesses\<close>
  "fresh_user = \<lparr>u_id = ''u1'', u_org_id = ''o1'', u_email = ''a@b.c'', u_password_hash = '''',
     u_role = ADMIN, u_is_active = True, u_last_login = None, u_mfa_secret_enc = Some ''v1'',
     u_mfa_enabled = True, u_mfa_recovery = [], u_oidc_sub = None, u_session_version = Some 1,
     u_is_platform_admin = False\<rparr>"

definition one_user_db :: db where
  "one_user_db = \<lparr>db_users = [(''u1'', fresh_user)], db_api_keys = [], db_agent_tokens = [],
     db_orgs = [(''o1'', ''acme'')], db_audit = []\<rparr>"

lemma one_user_db_ok: "db_ok one_user_db"
  by (simp add: db_ok_def one_user_db_def fresh_user_def)

lemma ticket_claims:
  "dget (create_mfa_ticket t jti sub org) = dget [(''sub'', JStr sub), (''org'', JStr org),
     (''iat'', JInt \<lfloor>t\<rfloor>), (''exp'', JInt (\<lfloor>t\<rfloor> + 300)), (''jti'', JStr jti), (''sv'', JInt 1),
     (''role'', JStr ''''), (''scope'', JStr ''mfa-verify''), (''typ'', JStr ''mfa-ticket'')]"
  by (auto simp: create_mfa_ticket_def create_access_token_def mfa_ticket_ttl_def fun_eq_iff)

lemma mfa_ticket_is_a_session:
  \<comment> \<open>the ticket handed out after the password is itself a bearer token with all rights of the user\<close>
  assumes "jwt_verifies enc dec"
    and "dget (db_users d) uid = Some u" "u_id u = uid" "u_is_active u" "user_sv u = 1"
    and "\<not> is_token_revoked get jti m"
    and "real_of_int \<lfloor>t\<rfloor> \<le> now" "now < real_of_int (\<lfloor>t\<rfloor> + 300)"
  shows "get_current_user dec get m now ok ''''
           (Some (enc (create_mfa_ticket t jti uid (u_org_id u)))) d = Inr (ctx_of u (u_org_id u) JWT, d)"
proof -
  let ?c = "create_mfa_ticket t jti uid (u_org_id u)"
  have "dec now (enc ?c) = Some ?c"
    using assms(1,7,8) by (auto simp: jwt_verifies_def ticket_claims)
  then show ?thesis
    using assms(2-6) by (simp add: get_current_user_def claims_user_def ticket_claims claim_str_def Let_def)
qed

lemma caller_is_active_user_witness:
  "\<exists>u. dget (db_users one_user_db) ''u1'' = Some u \<and> u_is_active u"
proof -
  have *: "get_current_user toy_dec (\<lambda>k. None) empty_mem 10 True ''''
     (Some (create_mfa_ticket 0 ''a1'' ''u1'' ''o1'')) one_user_db
     = Inr (ctx_of fresh_user ''o1'' JWT, one_user_db)"
    by (simp add: get_current_user_def claims_user_def ticket_claims claim_str_def Let_def toy_dec_def
        one_user_db_def fresh_user_def user_sv_def is_token_revoked_def empty_mem_def)
  show ?thesis
    using caller_is_active_user [OF one_user_db_ok *] by (auto simp: fresh_user_def)
qed

lemma expired_key_still_valid:
  \<comment> \<open>the expiry of an API key is stored and listed but never compared with the time\<close>
  assumes "db_api_keys d = [(i, row)]" "k_key_hash row = hash_api_key raw" "\<not> k_revoked row"
    and "dget (db_users d) (k_user_id row) = Some u" "u_is_active u" "raw \<noteq> ''''"
    and "k_expires_at row = Some t" "t < now"
  shows "get_current_user dec get m now False raw creds d = Inr (ctx_of u (u_org_id u) API_KEY, d)"
  using assms by (simp add: get_current_user_def api_key_user_def find_key_def)

lemma revoked_stays:
  "jti \<in> set (revoked_jti m) \<Longrightarrow> length (revoked_jti m) + length js \<le> used_limit \<Longrightarrow>
   jti \<in> set (revoked_jti (fold (\<lambda>j m. fst (revoke_token False j ttl m)) js m))"
proof (induction js arbitrary: m)
  case Nil
  then show ?case by simp
next
  case (Cons j js)
  let ?m = "fst (revoke_token False j ttl m)"
  have "jti \<in> set (revoked_jti ?m)" "length (revoked_jti ?m) \<le> Suc (length (revoked_jti m))"
    using Cons.prems by (auto simp: revoke_token_def bounded_add_keeps length_bounded_add_le)
  with Cons.prems show ?case by (auto intro!: Cons.IH)
qed

text \<open>A revoked token is refused from then on, by the process that revoked it, until ten
  thousand further tokens have been revoked.\<close>

theorem revoked_token_refused:
  assumes "dec now tok = Some c" "claim_str c ''jti'' = jti" "jti \<noteq> ''''"
    and "length (revoked_jti m) + length js < used_limit"
  shows "get_current_user dec get (fold (\<lambda>j m. fst (revoke_token False j ttl m)) (jti # js) m)
           now ok '''' (Some tok) d = Inl (HTTPException 401 ''Session revoked'')"
proof -
  let ?m = "fst (revoke_token False jti ttl m)"
  have "jti \<in> set (revoked_jti ?m)" "length (revoked_jti ?m) \<le> Suc (length (revoked_jti m))"
    using assms(3) by (simp_all add: revoke_token_def bounded_add_has length_bounded_add_le)
  then have "jti \<in> set (revoked_jti (fold (\<lambda>j m. fst (revoke_token False j ttl m)) js ?m))"
    using assms(4) by (intro revoked_stays) simp_all
  then show ?thesis
    using assms(1-3) by (simp add: get_current_user_def claims_user_def is_token_revoked_def)
qed

lemma revoked_token_refused_witness:
  "get_current_user toy_dec (\<lambda>k. None) (fold (\<lambda>j m. fst (revoke_token False j 60 m)) [''a1'', ''b2''] empty_mem)
     10 True '''' (Some (create_mfa_ticket 0 ''a1'' ''u1'' ''o1'')) one_user_db
   = Inl (HTTPException 401 ''Session revoked'')"
  by (rule revoked_token_refused [where c = "create_mfa_ticket 0 ''a1'' ''u1'' ''o1''"])
    (simp_all add: toy_dec_def ticket_claims claim_str_def empty_mem_def used_limit_def)

end
