(* ===== verification/MFA.thy ===== *)
theory MFA
  imports Auth
begin

text \<open>
  The second factor (src/backend/app/core/mfa.py): time-based one-time passwords (RFC 4226 and
  6238 over the executable HMAC-SHA1 of theory \<open>Digest\<close>), recovery codes, the lock after five
  failures, and the wrapped secrets. AES-GCM is a parameter. Codes and secrets are ASCII text;
  \<open>struct.error\<close> of a negative counter is an error value.
\<close>

definition step_seconds :: int where "step_seconds = 30"
definition totp_digits :: nat where "totp_digits = 6"
definition window_steps :: int where "window_steps = 1"
definition mfa_max_attempts :: nat where "mfa_max_attempts = 5"
definition mfa_window_seconds :: time where "mfa_window_seconds = 300"

section \<open>Base 32\<close>

definition b32_value :: "char \<Rightarrow> nat option" where
  "b32_value c =
     (let n = (of_char c :: nat)
      in if 65 \<le> n \<and> n \<le> 90 then Some (n - 65)
         else if 50 \<le> n \<and> n \<le> 55 then Some (n - 24) else None)"

fun traverse :: "('a \<Rightarrow> 'b option) \<Rightarrow> 'a list \<Rightarrow> 'b list option" where
  "traverse f [] = Some []"
| "traverse f (x # xs) =
     (case (f x, traverse f xs) of (Some y, Some ys) \<Rightarrow> Some (y # ys) | _ \<Rightarrow> None)"

definition b32_quantum :: "nat list \<Rightarrow> bytes" where
  \<comment> \<open>up to eight 5-bit values as the bytes they fill\<close>
  "b32_quantum q =
     take (5 * length q div 8) (be_bytes 5 (foldl (\<lambda>a v. 32 * a + v) 0 q * 32 ^ (8 - length q)))"

definition b32decode :: "string \<Rightarrow> bytes option" where
  \<comment> \<open>\<open>base64.b32decode(s)\<close>; \<open>None\<close> is \<open>binascii.Error\<close>\<close>
  "b32decode s =
     (let body = rev (dropWhile (\<lambda>c. c = CHR ''='') (rev s));
          padchars = length s - length body
      in if length s mod 8 \<noteq> 0 \<or> padchars \<notin> {0, 1, 3, 4, 6} then None
         else map_option (\<lambda>vs. concat (map b32_quantum (chunks ((length vs + 7) div 8) 8 vs)))
                (traverse b32_value body))"

section \<open>One-time passwords\<close>

definition truncated :: "bytes \<Rightarrow> nat" where
  \<comment> \<open>the dynamic truncation of RFC 4226\<close>
  "truncated digest =
     (let offset = unat (last digest AND 0x0F)
      in be_int (py_slice digest offset (offset + 4)) mod 2 ^ 31)"

definition hotp :: "string \<Rightarrow> int \<Rightarrow> string res" where
  "hotp secret_b32 counter =
     (case b32decode (secret_b32 @ replicate (nat ((- int (length secret_b32)) mod 8)) (CHR ''='')) of
        None \<Rightarrow> Inl (ValueError ''base32'')
      | Some key \<Rightarrow>
          if counter < 0 \<or> 2 ^ 64 \<le> counter then Inl (RuntimeError [''struct.error''])
          else Inr (pad0 totp_digits
                 (dec_of (truncated (hmac_with sha1 key (be_bytes 8 (nat counter))) mod 10 ^ totp_digits))))"

definition time_step :: "time \<Rightarrow> int" where
  \<comment> \<open>\<open>int(at // STEP)\<close>\<close>
  "time_step tm = \<lfloor>tm / 30\<rfloor>"

definition totp_now :: "string \<Rightarrow> time \<Rightarrow> string res" where
  "totp_now secret_b32 tm = hotp secret_b32 (time_step tm)"

fun any_step :: "string \<Rightarrow> string \<Rightarrow> int \<Rightarrow> int list \<Rightarrow> bool res" where
  "any_step secret code base [] = Inr False"
| "any_step secret code base (delta # ds) =
     bindR (hotp secret (base + delta)) (\<lambda>h. if h = code then Inr True else any_step secret code base ds)"

definition normal_code :: "string \<Rightarrow> string" where
  \<comment> \<open>\<open>(code or "").strip().replace(" ", "")\<close>\<close>
  "normal_code code = filter (\<lambda>c. c \<noteq> CHR '' '') (str_strip code)"

definition verify_code :: "string \<Rightarrow> string \<Rightarrow> time \<Rightarrow> bool res" where
  "verify_code secret_b32 code tm =
     (let code = normal_code code
      in if length code \<noteq> totp_digits \<or> \<not> list_all is_digit code then Inr False
         else any_step secret_b32 code (time_step tm) [- window_steps..window_steps])"

section \<open>Secrets at rest\<close>

definition enc_key :: "bytes \<Rightarrow> bytes res" where
  "enc_key jwt_secret =
     (if length jwt_secret < 32 then Inl (ValueError ''mfa-error: JWT secret too weak to wrap MFA secrets'')
      else Inr (pbkdf2_sha256 jwt_secret (ascii ''cipherpost-mfa-v1'') 100000))"

definition encrypt_secret :: "(bytes \<Rightarrow> bytes \<Rightarrow> bytes \<Rightarrow> bytes) \<Rightarrow> bytes \<Rightarrow> bytes \<Rightarrow> bytes \<Rightarrow> string res" where
  \<comment> \<open>\<open>gcm key nonce plain\<close> is AES-GCM\<close>
  "encrypt_secret gcm jwt_secret nonce plain_b32 =
     bindR (enc_key jwt_secret) (\<lambda>key.
       Inr (''v1$'' @ hexdigest nonce @ ''$'' @ hexdigest (gcm key nonce plain_b32)))"

definition decrypt_secret ::
  "(bytes \<Rightarrow> bytes \<Rightarrow> bytes \<Rightarrow> bytes option) \<Rightarrow> bytes \<Rightarrow> string \<Rightarrow> bytes res" where
  \<comment> \<open>\<open>None\<close> of \<open>ungcm\<close> is \<open>InvalidTag\<close>; every exception becomes the same error\<close>
  "decrypt_secret ungcm jwt_secret stored =
     (let failed = Inl (ValueError ''mfa-error: cannot unwrap secret'')
      in case split_on (CHR ''$'') stored of
           [ver, nonce_hex, ct_hex] \<Rightarrow>
             if ver \<noteq> ''v1'' then failed
             else (case (enc_key jwt_secret, from_hex nonce_hex, from_hex ct_hex) of
                     (Inr key, Some nonce, Some ct) \<Rightarrow>
                       (case ungcm key nonce ct of None \<Rightarrow> failed | Some pt \<Rightarrow> Inr pt)
                   | _ \<Rightarrow> failed)
         | _ \<Rightarrow> failed)"

section \<open>Recovery codes\<close>

definition new_recovery_codes :: "(bytes \<times> bytes) list \<Rightarrow> string list" where
  \<comment> \<open>from two times three random bytes for each code\<close>
  "new_recovery_codes random = map (\<lambda>(a, b). hexdigest a @ ''-'' @ hexdigest b) random"

definition hash_recovery_code :: "string \<Rightarrow> string" where
  "hash_recovery_code code =
     sha256_hex (ascii (filter (\<lambda>c. c \<noteq> CHR '' '') (str_lower (str_strip code))))"

fun remove_hash :: "string \<Rightarrow> string list \<Rightarrow> string list option" where
  \<comment> \<open>the loop of \<open>consume_recovery_code\<close>: the list without its first match\<close>
  "remove_hash want [] = None"
| "remove_hash want (h # hs) = (if h = want then Some hs else map_option ((#) h) (remove_hash want hs))"

definition consume_recovery_code :: "string list \<Rightarrow> string \<Rightarrow> string list option" where
  "consume_recovery_code stored_hashes code = remove_hash (hash_recovery_code code) stored_hashes"

section \<open>The lock on the second factor\<close>

type_synonym mfa_mem = "(string, time list) dict"

definition recent_hits :: "time \<Rightarrow> string \<Rightarrow> mfa_mem \<Rightarrow> time list" where
  "recent_hits now user_key m = filter (\<lambda>t. now - t < mfa_window_seconds) (dget_or m user_key [])"

definition mfa_locked :: "bool option \<Rightarrow> time \<Rightarrow> string \<Rightarrow> mfa_mem \<Rightarrow> bool" where
  \<comment> \<open>\<open>redis\<close> is the answer to \<open>GET user:mfa-lock\<close>\<close>
  "mfa_locked redis now user_key m =
     (case redis of Some b \<Rightarrow> b | None \<Rightarrow> mfa_max_attempts \<le> length (recent_hits now user_key m))"

definition record_mfa_failure :: "nat option \<Rightarrow> time \<Rightarrow> string \<Rightarrow> mfa_mem \<Rightarrow> mfa_mem \<times> redis_cmd list" where
  \<comment> \<open>\<open>incr\<close> is the answer to \<open>INCR user:mfa\<close>\<close>
  "record_mfa_failure incr now user_key m =
     (case incr of
        Some n \<Rightarrow> (m, Incr (user_key @ '':mfa'')
            # (if n = 1 then [Expire (user_key @ '':mfa'') 300] else [])
            @ (if mfa_max_attempts \<le> n then [SetEx (user_key @ '':mfa-lock'') 300] else []))
      | None \<Rightarrow> (dset user_key (recent_hits now user_key m @ [now]) m, []))"

definition record_mfa_success :: "bool \<Rightarrow> string \<Rightarrow> mfa_mem \<Rightarrow> mfa_mem \<times> redis_cmd list" where
  "record_mfa_success redis user_key m =
     (if redis then (m, [Delete [user_key @ '':mfa'', user_key @ '':mfa-lock'']])
      else (ddel user_key m, []))"

section \<open>One-time passwords are accepted in a window of three steps\<close>

lemma strip_digits: "list_all is_digit s \<Longrightarrow> str_strip s = s"
proof -
  assume d: "list_all is_digit s"
  have id: "dropWhile is_space t = t" if "list_all is_digit t" for t
    using that by (cases t) (auto simp: digit_not_space)
  show ?thesis using d by (simp add: str_strip_def id)
qed

lemma hotp_shape:
  assumes "hotp secret c = Inr code"
  shows "length code = totp_digits" "list_all is_digit code" "normal_code code = code"
proof -
  obtain n where code: "code = pad0 6 (dec_of (n mod 10 ^ 6))"
    using assms by (auto simp: hotp_def totp_digits_def split: option.splits if_splits)
  have "length (dec_of (n mod 10 ^ 6)) \<le> 6" by (rule length_dec_of) simp_all
  then show "length code = totp_digits" by (simp add: code pad0_def totp_digits_def)
  have "list_all is_digit (dec_of (n mod 10 ^ 6))" using dec_of_digits by (simp add: list_all_iff)
  moreover have "is_digit (CHR ''0'')" by (simp add: is_digit_def)
  ultimately show d: "list_all is_digit code"
    by (auto simp: code pad0_def list_all_iff)
  have "c \<noteq> CHR '' ''" if "c \<in> set code" for c
    using d that by (auto simp: list_all_iff is_digit_def Let_def)
  then show "normal_code code = code"
    using strip_digits [OF d] by (simp add: normal_code_def filter_id_conv)
qed

lemma any_step_total:
  assumes "\<And>d. d \<in> set ds \<Longrightarrow> \<exists>h. hotp secret (base + d) = Inr h"
  shows "any_step secret code base ds = Inr (\<exists>d\<in>set ds. hotp secret (base + d) = Inr code)"
  using assms
proof (induction ds)
  case Nil
  then show ?case by simp
next
  case (Cons d ds)
  then obtain h where "hotp secret (base + d) = Inr h" by auto
  moreover have "any_step secret code base ds = Inr (\<exists>d\<in>set ds. hotp secret (base + d) = Inr code)"
    using Cons by auto
  ultimately show ?case by auto
qed

definition b32_secret :: "string \<Rightarrow> bool" where
  "b32_secret s \<longleftrightarrow>
     b32decode (s @ replicate (nat ((- int (length s)) mod 8)) (CHR ''='')) \<noteq> None"

lemma hotp_defined: "b32_secret s \<Longrightarrow> 0 \<le> c \<Longrightarrow> c < 2 ^ 64 \<Longrightarrow> \<exists>h. hotp s c = Inr h"
  by (auto simp: hotp_def b32_secret_def)

text \<open>C14: A code is accepted at a time exactly when, blanks removed, it is the one-time password of
  that time step or of one of its two neighbours: a code stays valid for at most ninety seconds.\<close>

theorem verify_code_window:
  assumes "b32_secret secret" "1 \<le> time_step tm" "time_step tm + 1 < 2 ^ 64"
  shows "verify_code secret code tm =
           Inr (\<exists>c. \<bar>c - time_step tm\<bar> \<le> 1 \<and> hotp secret c = Inr (normal_code code))"
proof -
  have ds: "[- window_steps..window_steps] = [-1, 0, 1]" by (simp add: window_steps_def upto.simps)
  have steps: "(\<exists>c. \<bar>c - b\<bar> \<le> 1 \<and> P c) \<longleftrightarrow> (\<exists>d\<in>set [-1, 0, 1]. P (b + d))" for b and P :: "int \<Rightarrow> bool"
  proof
    assume "\<exists>c. \<bar>c - b\<bar> \<le> 1 \<and> P c"
    then obtain c where "\<bar>c - b\<bar> \<le> 1" "P c" by blast
    moreover from this(1) have "c - b = -1 \<or> c - b = 0 \<or> c - b = 1" by linarith
    ultimately show "\<exists>d\<in>set [-1, 0, 1]. P (b + d)" by (intro bexI [of _ "c - b"]) auto
  next
    assume "\<exists>d\<in>set [-1, 0, 1]. P (b + d)"
    then obtain d where "d \<in> set [-1, 0, 1]" "P (b + d)" by blast
    then show "\<exists>c. \<bar>c - b\<bar> \<le> 1 \<and> P c" by (intro exI [of _ "b + d"]) auto
  qed
  let ?n = "normal_code code"
  show ?thesis
  proof (cases "length ?n = totp_digits \<and> list_all is_digit ?n")
    case True
    then have "verify_code secret code tm = any_step secret ?n (time_step tm) [-1, 0, 1]"
      by (simp add: verify_code_def Let_def ds)
    also have "\<dots> = Inr (\<exists>d\<in>set [-1, 0, 1]. hotp secret (time_step tm + d) = Inr ?n)"
      using assms by (intro any_step_total hotp_defined) auto
    finally show ?thesis by (simp only: steps)
  next
    case False
    then show ?thesis using hotp_shape(1,2) by (auto simp: verify_code_def Let_def)
  qed
qed

lemma verify_code_window_witness:
  "verify_code '''' ''12345'' 60 = Inr (\<exists>c. \<bar>c - time_step 60\<bar> \<le> 1 \<and> hotp '''' c = Inr (normal_code ''12345''))
   \<and> b32_secret '''' \<and> time_step 60 = 2"
proof -
  have "b32_secret ''''" by (simp add: b32_secret_def b32decode_def)
  then show ?thesis using verify_code_window [of "''''" 60 "''12345''"] by (simp add: time_step_def)
qed

section \<open>Recovery codes are consumed\<close>

fun redeem_all :: "string list \<Rightarrow> string list \<Rightarrow> string list \<times> string list" where
  \<comment> \<open>the accepted ones of a sequence of attempts, and the hashes that are left\<close>
  "redeem_all [] hs = ([], hs)"
| "redeem_all (c # cs) hs =
     (case consume_recovery_code hs c of
        None \<Rightarrow> redeem_all cs hs
      | Some hs' \<Rightarrow> (let (acc, left) = redeem_all cs hs' in (c # acc, left)))"

lemma remove_hash_mset: "remove_hash w hs = Some hs' \<Longrightarrow> mset hs = add_mset w (mset hs')"
  by (induction hs arbitrary: hs') (auto split: if_splits)

lemma remove_hash_None: "remove_hash w hs = None \<longleftrightarrow> w \<notin> set hs"
  by (induction hs) auto

text \<open>Over any sequence of attempts a recovery code is accepted as often as it is stored, and no
  more often than it is tried; what remains are the stored hashes less the attempts.\<close>

theorem recovery_codes_single_use:
  "mset (map hash_recovery_code (fst (redeem_all cs hs))) = mset (map hash_recovery_code cs) \<inter># mset hs \<and>
   mset (snd (redeem_all cs hs)) = mset hs - mset (map hash_recovery_code cs)"
proof (induction cs arbitrary: hs)
  case Nil
  then show ?case by simp
next
  case (Cons c cs)
  show ?case
  proof (cases "consume_recovery_code hs c")
    case None
    then have "hash_recovery_code c \<notin># mset hs"
      by (simp add: consume_recovery_code_def remove_hash_None)
    with None Cons [of hs] show ?thesis by (simp add: inter_add_left1 diff_single_trivial)
  next
    case (Some hs')
    then have "mset hs = add_mset (hash_recovery_code c) (mset hs')"
      by (simp add: consume_recovery_code_def remove_hash_mset)
    with Some Cons [of hs'] show ?thesis by (simp add: Let_def split_beta)
  qed
qed

section \<open>The lock is a sliding window\<close>

definition fail_mfa :: "string \<Rightarrow> time \<Rightarrow> mfa_mem \<Rightarrow> mfa_mem" where
  "fail_mfa user_key now m = fst (record_mfa_failure None now user_key m)"

lemma fail_mfa_get: "dget (fail_mfa k t m) k = Some (recent_hits t k m @ [t])"
  by (simp add: fail_mfa_def record_mfa_failure_def)

lemma recent_after_failures:
  assumes "sorted ts" "\<forall>t\<in>set ts. t \<le> now"
  shows "recent_hits now k (fold (fail_mfa k) ts m) =
           filter (\<lambda>t. now - t < mfa_window_seconds) (dget_or m k [] @ ts)"
  using assms
proof (induction ts arbitrary: now rule: rev_induct)
  case Nil
  then show ?case by (simp add: recent_hits_def)
next
  case (snoc t ts)
  let ?w = "\<lambda>u x. u - x < mfa_window_seconds"
  have "t \<le> now" using snoc.prems(2) by simp
  then have nested: "filter (?w now) (filter (?w t) xs) = filter (?w now) xs" for xs
    by (induction xs) auto
  have "recent_hits t k (fold (fail_mfa k) ts m) = filter (?w t) (dget_or m k [] @ ts)"
    using snoc.prems by (intro snoc.IH) (auto simp: sorted_append)
  then have "recent_hits now k (fold (fail_mfa k) (ts @ [t]) m)
      = filter (?w now) (filter (?w t) (dget_or m k [] @ ts) @ [t])"
    by (simp add: recent_hits_def [of now] dget_or_def fail_mfa_get)
  then show ?case by (simp add: nested del: filter_filter)
qed

text \<open>The pruned list of failures implements a sliding window over all of them: the second
  factor is locked exactly while five or more failures are less than five minutes old.\<close>

theorem mfa_lock_is_sliding_window:
  assumes "sorted ts" "\<forall>t\<in>set ts. t \<le> now"
  shows "mfa_locked None now k (fold (fail_mfa k) ts []) \<longleftrightarrow>
           mfa_max_attempts \<le> length (filter (\<lambda>t. now - t < mfa_window_seconds) ts)"
  using recent_after_failures [OF assms, of k "[]"] by (simp add: mfa_locked_def dget_or_def)

lemma mfa_lock_is_sliding_window_witness:
  "mfa_locked None 300 ''u'' (fold (fail_mfa ''u'') [1, 2, 3, 4, 5] []) \<and>
   \<not> mfa_locked None 301 ''u'' (fold (fail_mfa ''u'') [1, 2, 3, 4, 5] [])"
  using mfa_lock_is_sliding_window [of "[1, 2, 3, 4, 5]" 300 "''u''"]
    mfa_lock_is_sliding_window [of "[1, 2, 3, 4, 5]" 301 "''u''"]
  by (simp add: mfa_max_attempts_def mfa_window_seconds_def)

end
