(* ===== verification/Login.thy ===== *)
theory Login
  imports MFA
begin

text \<open>
  The authentication and administration endpoints of src/backend/app/api/main.py as functions on
  the state of the server: the database, the in-process sets of \<open>auth.py\<close> and \<open>mfa.py\<close>, and the
  commands sent to Redis. A handler returns its response or the HTTP error it raises, and the
  new state in both cases. The record \<open>env\<close> holds what a request draws from outside: the time,
  random text, the answers of Redis and whether the audit write succeeds; the record \<open>settings\<close>
  holds the configuration that the handlers read. Passwords and codes are ASCII text.
\<close>

record settings =
  BREAK_GLASS_EMAIL :: string
  BREAK_GLASS_PASSWORD :: string
  DISABLE_PASSWORD_LOGIN :: bool
  MFA_REQUIRED_ORGS :: string
  MFA_ENROLL_ALLOW :: bool
  JWT_EXPIRY_SECONDS :: int
  JWT_SECRET :: bytes

record env =
  e_now :: time
  e_jti :: string
  e_random :: bytes
  e_audit_ok :: bool
  e_get :: "string \<Rightarrow> bool option"
  e_incr :: "string \<Rightarrow> nat option"
  e_setnx :: "bool option"
  e_redis :: bool

record server =
  sv_db :: db
  sv_auth :: auth_mem
  sv_mfa :: mfa_mem
  sv_sent :: "redis_cmd list"

datatype response =
    Session_Token claims
  | Mfa_Ticket claims
  | Recovery_Codes string "string list"
  | Raw_Key string string
  | Done string

type_synonym outcome = "(http_error + response) \<times> server"

definition audit :: "env \<Rightarrow> string \<Rightarrow> string \<Rightarrow> string \<Rightarrow> string \<Rightarrow> server \<Rightarrow> server" where
  "audit e org actor action resource s =
     s\<lparr>sv_db := log_audit (e_audit_ok e) org actor action resource (sv_db s)\<rparr>"

definition save_user :: "user \<Rightarrow> server \<Rightarrow> server" where
  "save_user u s = s\<lparr>sv_db := put_user u (sv_db s)\<rparr>"

definition user_by_email :: "string \<Rightarrow> db \<Rightarrow> user option" where
  "user_by_email email d = find (\<lambda>u. u_email u = email) (map snd (db_users d))"

definition session_token :: "settings \<Rightarrow> env \<Rightarrow> user \<Rightarrow> claims" where
  "session_token cfg e u =
     create_access_token (e_now e) (e_jti e) (u_id u) (u_org_id u) (role_value (u_role u))
       (JWT_EXPIRY_SECONDS cfg) [] (user_sv u)"

section \<open>Password login\<close>

definition mfa_required :: "settings \<Rightarrow> user \<Rightarrow> db \<Rightarrow> bool" where
  "mfa_required cfg u d =
     (if u_mfa_enabled u then True
      else (let required = filter (\<lambda>o'. o' \<noteq> '''') (map str_strip (split_on (CHR '','') (MFA_REQUIRED_ORGS cfg)))
            in if required = [] then False
               else (case dget (db_orgs d) (u_org_id u) of
                       None \<Rightarrow> False | Some name \<Rightarrow> name \<in> set required)))"

definition finish_password_login :: "settings \<Rightarrow> env \<Rightarrow> user \<Rightarrow> server \<Rightarrow> outcome" where
  "finish_password_login cfg e u s =
     (let u = u\<lparr>u_last_login := Some (e_now e)\<rparr>;
          s = save_user u s
      in if mfa_required cfg u (sv_db s)
         then (Inr (Mfa_Ticket (create_mfa_ticket (e_now e) (e_jti e) (u_id u) (u_org_id u))),
               audit e (u_org_id u) (u_email u) ''auth.mfa.challenged'' ''session'' s)
         else (Inr (Session_Token (session_token cfg e u)),
               audit e (u_org_id u) (u_email u) ''auth.login'' ''session'' s))"

definition note_failure :: "env \<Rightarrow> string \<Rightarrow> string \<Rightarrow> server \<Rightarrow> server" where
  "note_failure e acct ip s =
     (let (m, cmds) = record_login_failure (e_incr e) (e_now e) acct ip (sv_auth s)
      in s\<lparr>sv_auth := m, sv_sent := sv_sent s @ cmds\<rparr>)"

definition note_success :: "env \<Rightarrow> string \<Rightarrow> string \<Rightarrow> server \<Rightarrow> server" where
  "note_success e acct ip s =
     (let (m, cmds) = record_login_success (e_redis e) acct ip (sv_auth s)
      in s\<lparr>sv_auth := m, sv_sent := sv_sent s @ cmds\<rparr>)"

definition break_glass_email :: "settings \<Rightarrow> string" where
  "break_glass_email cfg = str_lower (str_strip (BREAK_GLASS_EMAIL cfg))"

definition break_glass_configured :: "settings \<Rightarrow> bool" where
  "break_glass_configured cfg \<longleftrightarrow>
     str_strip (BREAK_GLASS_EMAIL cfg) \<noteq> '''' \<and> BREAK_GLASS_PASSWORD cfg \<noteq> ''''"

definition bad_login :: http_error where
  "bad_login = HTTPException 401 ''Invalid email or password''"

definition break_glass_login :: "settings \<Rightarrow> env \<Rightarrow> string \<Rightarrow> string \<Rightarrow> server \<Rightarrow> outcome" where
  "break_glass_login cfg e password client_ip s =
     (let email = break_glass_email cfg;
          refuse = (\<lambda>org. (Inl bad_login,
            audit e org email ''auth.login.break_glass.failed'' ''session''
              (note_failure e (''login:acct:'' @ email) (ip_key client_ip) s)))
      in case user_by_email email (sv_db s) of
           None \<Rightarrow> refuse ''unknown''
         | Some u \<Rightarrow>
             if u_is_active u \<and> u_is_platform_admin u \<and> password = BREAK_GLASS_PASSWORD cfg
             then (let u = u\<lparr>u_last_login := Some (e_now e)\<rparr>
                   in (Inr (Session_Token (session_token cfg e u)),
                       audit e (u_org_id u) (u_email u) ''auth.login.break_glass'' ''session'' (save_user u s)))
             else refuse (u_org_id u))"

definition login :: "settings \<Rightarrow> env \<Rightarrow> string \<Rightarrow> string \<Rightarrow> string \<Rightarrow> server \<Rightarrow> outcome" where
  "login cfg e email password client_ip s =
     (let email = str_lower (str_strip email);
          acct = acct_key email;
          ip = ip_key client_ip;
          who = (if email = '''' then ''unknown'' else email)
      in if email \<noteq> '''' \<and> is_login_locked (e_get e) (e_now e) acct ip (sv_auth s) then (Inl bad_login, s)
         else if email \<noteq> '''' \<and> break_glass_configured cfg \<and> email = break_glass_email cfg
         then break_glass_login cfg e password client_ip s
         else if DISABLE_PASSWORD_LOGIN cfg
         then (Inl (HTTPException 403 ''Password login is disabled (SSO enforced)''),
               audit e ''unknown'' who ''auth.login.failed'' ''session'' s)
         else (case user_by_email email (sv_db s) of
                 None \<Rightarrow> (Inl bad_login,
                    audit e ''unknown'' who ''auth.login.failed'' ''session'' (note_failure e acct ip s))
               | Some u \<Rightarrow>
                   if \<not> u_is_active u \<or> \<not> verify_password (ascii password) (u_password_hash u)
                   then (Inl bad_login,
                         audit e (u_org_id u) who ''auth.login.failed'' ''session'' (note_failure e acct ip s))
                   else finish_password_login cfg e u (note_success e acct ip s)))"

section \<open>Second factor\<close>

definition mfa_enroll ::
  "(bytes \<Rightarrow> bytes \<Rightarrow> bytes \<Rightarrow> bytes) \<Rightarrow> settings \<Rightarrow> env \<Rightarrow> string \<Rightarrow> (bytes \<times> bytes) list \<Rightarrow> auth_ctx \<Rightarrow> server \<Rightarrow> outcome" where
  \<comment> \<open>\<open>secret\<close> is the random base-32 text of \<open>random_secret\<close>\<close>
  "mfa_enroll gcm cfg e secret random ctx s =
     (if \<not> MFA_ENROLL_ALLOW cfg then (Inl (HTTPException 403 ''MFA enrollment is disabled''), s)
      else (case dget (db_users (sv_db s)) (c_user_id ctx) of
              None \<Rightarrow> (Inl (HTTPException 401 ''User inactive or deleted''), s)
            | Some u \<Rightarrow>
                (case encrypt_secret gcm (JWT_SECRET cfg) (e_random e) (ascii secret) of
                   Inl err \<Rightarrow> (Inl (Uncaught err), s)
                 | Inr wrapped \<Rightarrow>
                     (let codes = new_recovery_codes random;
                          u = u\<lparr>u_mfa_secret_enc := Some wrapped, u_mfa_recovery := map hash_recovery_code codes\<rparr>
                      in (Inr (Recovery_Codes secret codes),
                          audit e (u_org_id u) (u_email u) ''auth.mfa.enroll_started'' ''mfa'' (save_user u s))))))"

definition text_of :: "bytes \<Rightarrow> string" where
  "text_of bs = map (\<lambda>b. char_of (unat b)) bs"

definition mfa_confirm ::
  "(bytes \<Rightarrow> bytes \<Rightarrow> bytes \<Rightarrow> bytes option) \<Rightarrow> settings \<Rightarrow> env \<Rightarrow> string \<Rightarrow> auth_ctx \<Rightarrow> server \<Rightarrow> outcome" where
  "mfa_confirm ungcm cfg e code ctx s =
     (case dget (db_users (sv_db s)) (c_user_id ctx) of
        None \<Rightarrow> (Inl (HTTPException 400 ''No pending MFA enrollment''), s)
      | Some u \<Rightarrow>
          (case u_mfa_secret_enc u of
             None \<Rightarrow> (Inl (HTTPException 400 ''No pending MFA enrollment''), s)
           | Some enc \<Rightarrow>
               (case decrypt_secret ungcm (JWT_SECRET cfg) enc of
                  Inl err \<Rightarrow> (Inl (HTTPException 500 ''MFA secret unreadable; re-enroll''), s)
                | Inr secret \<Rightarrow>
                    (case verify_code (text_of secret) code (e_now e) of
                       Inl err \<Rightarrow> (Inl (Uncaught err), s)
                     | Inr False \<Rightarrow> (Inl (HTTPException 401 ''Invalid MFA code''),
                         audit e (u_org_id u) (u_email u) ''auth.mfa.failed'' ''mfa'' s)
                     | Inr True \<Rightarrow> (Inr (Done ''enabled''),
                         audit e (u_org_id u) (u_email u) ''auth.mfa.enabled'' ''mfa''
                           (save_user (u\<lparr>u_mfa_enabled := True\<rparr>) s))))))"

definition code_ok :: "(bytes \<Rightarrow> bytes \<Rightarrow> bytes \<Rightarrow> bytes option) \<Rightarrow> settings \<Rightarrow> time \<Rightarrow> user \<Rightarrow> string \<Rightarrow> bool res" where
  \<comment> \<open>the \<open>try\<close> around the one-time password: a \<open>ValueError\<close> counts as a wrong code\<close>
  "code_ok ungcm cfg now u code =
     (case bindR (decrypt_secret ungcm (JWT_SECRET cfg) (case u_mfa_secret_enc u of None \<Rightarrow> '''' | Some x \<Rightarrow> x))
             (\<lambda>secret. verify_code (text_of secret) code now) of
        Inl (ValueError m) \<Rightarrow> Inr False | r \<Rightarrow> r)"

definition second_factor ::
  "(bytes \<Rightarrow> bytes \<Rightarrow> bytes \<Rightarrow> bytes option) \<Rightarrow> settings \<Rightarrow> time \<Rightarrow> user \<Rightarrow> string \<Rightarrow> string \<Rightarrow> user option res" where
  \<comment> \<open>the user after the factor was accepted, \<open>None\<close> when it was not\<close>
  "second_factor ungcm cfg now u code recovery_code =
     bindR (code_ok ungcm cfg now u code) (\<lambda>ok.
       Inr (if ok then Some u
            else if recovery_code = '''' then None
            else map_option (\<lambda>left. u\<lparr>u_mfa_recovery := left\<rparr>)
                   (consume_recovery_code (u_mfa_recovery u) recovery_code)))"

definition mfa_key :: "user \<Rightarrow> string" where
  "mfa_key u = ''mfa:'' @ u_id u"

definition mfa_verify ::
  "(time \<Rightarrow> 'tok \<Rightarrow> claims option) \<Rightarrow> (bytes \<Rightarrow> bytes \<Rightarrow> bytes \<Rightarrow> bytes option) \<Rightarrow> settings \<Rightarrow> env \<Rightarrow>
   'tok \<Rightarrow> string \<Rightarrow> string \<Rightarrow> server \<Rightarrow> outcome" where
  "mfa_verify dec ungcm cfg e ticket code recovery_code s =
     (case consume_mfa_ticket dec (e_setnx e) (e_now e) ticket (used_mfa_tickets (sv_auth s)) of
        Inl err \<Rightarrow> (Inl (HTTPException 401 ''Invalid or expired MFA ticket''), s)
      | Inr (claims, used) \<Rightarrow>
          (let s = s\<lparr>sv_auth := (sv_auth s)\<lparr>used_mfa_tickets := used\<rparr>\<rparr>
           in case dget claims ''sub'' of
                None \<Rightarrow> (Inl (Uncaught KeyError), s)
              | Some sub \<Rightarrow>
                  (case (case sub of JStr i \<Rightarrow> dget (db_users (sv_db s)) i | _ \<Rightarrow> None) of
                     None \<Rightarrow> (Inl (HTTPException 401 ''User inactive or deleted''), s)
                   | Some u \<Rightarrow>
                       if \<not> u_is_active u then (Inl (HTTPException 401 ''User inactive or deleted''), s)
                       else if mfa_locked (e_get e (mfa_key u @ '':mfa-lock'')) (e_now e) (mfa_key u) (sv_mfa s)
                       then (Inl (HTTPException 401 ''Invalid MFA code''), s)
                       else (case second_factor ungcm cfg (e_now e) u code recovery_code of
                               Inl err \<Rightarrow> (Inl (Uncaught err), s)
                             | Inr None \<Rightarrow>
                                 (let (m, cmds) = record_mfa_failure (e_incr e (mfa_key u @ '':mfa''))
                                        (e_now e) (mfa_key u) (sv_mfa s)
                                  in (Inl (HTTPException 401 ''Invalid MFA code''),
                                      audit e (u_org_id u) (u_email u) ''auth.mfa.failed'' ''session''
                                        (s\<lparr>sv_mfa := m, sv_sent := sv_sent s @ cmds\<rparr>)))
                             | Inr (Some u') \<Rightarrow>
                                 (let (m, cmds) = record_mfa_success (e_redis e) (mfa_key u) (sv_mfa s);
                                      u' = u'\<lparr>u_last_login := Some (e_now e)\<rparr>
                                  in (Inr (Session_Token (session_token cfg e u')),
                                      audit e (u_org_id u) (u_email u) ''auth.login'' ''session''
                                        (save_user u' (s\<lparr>sv_mfa := m, sv_sent := sv_sent s @ cmds\<rparr>))))))))"

definition mfa_disable :: "env \<Rightarrow> string \<Rightarrow> auth_ctx \<Rightarrow> server \<Rightarrow> outcome" where
  "mfa_disable e target_id ctx s =
     (case require_roles [ADMIN] ctx of
        Inl err \<Rightarrow> (Inl err, s)
      | Inr _ \<Rightarrow>
          (case dget (db_users (sv_db s)) (str_strip target_id) of
             None \<Rightarrow> (Inl (HTTPException 404 ''User not found''), s)
           | Some u \<Rightarrow>
               if u_org_id u \<noteq> c_org_id ctx then (Inl (HTTPException 404 ''User not found''), s)
               else (Inr (Done ''disabled''),
                     audit e (c_org_id ctx) (c_email ctx) ''auth.mfa.disabled'' (u_email u)
                       (save_user (u\<lparr>u_mfa_enabled := False, u_mfa_secret_enc := None, u_mfa_recovery := []\<rparr>) s))))"

section \<open>Ending sessions\<close>

definition logout :: "(time \<Rightarrow> 'tok \<Rightarrow> claims option) \<Rightarrow> env \<Rightarrow> 'tok option \<Rightarrow> auth_ctx \<Rightarrow> server \<Rightarrow> outcome" where
  "logout dec e bearer ctx s =
     (let s = (case bearer of
                 None \<Rightarrow> s
               | Some tok \<Rightarrow>
                   (case dec (e_now e) tok of
                      None \<Rightarrow> s
                    | Some claims \<Rightarrow>
                        (let exp = (case dget claims ''exp'' of Some (JInt x) \<Rightarrow> x | _ \<Rightarrow> 0);
                             (m, cmds) = revoke_token (e_redis e) (claim_str claims ''jti'')
                               (max 60 (exp - \<lfloor>e_now e\<rfloor>)) (sv_auth s)
                         in s\<lparr>sv_auth := m, sv_sent := sv_sent s @ cmds\<rparr>)))
      in (Inr (Done ''logged out''), audit e (c_org_id ctx) (c_email ctx) ''auth.logout'' ''session'' s))"

definition revoke_all_sessions :: "env \<Rightarrow> string \<Rightarrow> auth_ctx \<Rightarrow> server \<Rightarrow> outcome" where
  \<comment> \<open>an empty \<open>user_id\<close> means the caller\<close>
  "revoke_all_sessions e user_id ctx s =
     (let target_id = (if user_id \<noteq> '''' then user_id else c_user_id ctx)
      in if target_id \<noteq> c_user_id ctx \<and> c_role ctx \<noteq> ADMIN
         then (Inl (HTTPException 403 ''Admins only for other users''), s)
         else (case dget (db_users (sv_db s)) target_id of
                 None \<Rightarrow> (Inl (HTTPException 404 ''User not found''), s)
               | Some u \<Rightarrow>
                   if u_org_id u \<noteq> c_org_id ctx \<and> c_role ctx \<noteq> ADMIN
                   then (Inl (HTTPException 404 ''User not found''), s)
                   else (Inr (Done ''revoked''),
                         audit e (c_org_id ctx) (c_email ctx) ''auth.sessions.revoked'' (u_email u)
                           (save_user (u\<lparr>u_session_version := Some (user_sv u + 1)\<rparr>) s))))"

section \<open>Users and keys\<close>

definition new_id :: "string \<Rightarrow> env \<Rightarrow> string" where
  \<comment> \<open>a prefix and twelve hexadecimal digits of a random UUID\<close>
  "new_id prefix e = prefix @ take 12 (hexdigest (e_random e))"

definition integrity_error :: http_error where
  "integrity_error = Uncaught (RuntimeError [''IntegrityError''])"

definition create_user :: "env \<Rightarrow> string \<Rightarrow> string \<Rightarrow> string \<Rightarrow> auth_ctx \<Rightarrow> server \<Rightarrow> outcome" where
  "create_user e email role password ctx s =
     (case require_roles [ADMIN] ctx of
        Inl err \<Rightarrow> (Inl err, s)
      | Inr _ \<Rightarrow>
          (let email = str_lower (str_strip email);
               role = str_lower (str_strip (if role = '''' then ''analyst'' else role))
           in if email = '''' \<or> CHR ''@'' \<notin> set email then (Inl (HTTPException 400 ''Valid email required''), s)
              else (case role_of role of
                      None \<Rightarrow> (Inl (HTTPException 400 ''role must be admin|analyst|auditor''), s)
                    | Some r \<Rightarrow>
                        if length password < 10 then (Inl (HTTPException 400 ''password must be >= 10 chars''), s)
                        else if user_by_email email (sv_db s) \<noteq> None
                        then (Inl (HTTPException 409 ''User already exists''), s)
                        else (let i = new_id ''user-'' e;
                                  u = \<lparr>u_id = i, u_org_id = c_org_id ctx, u_email = email,
                                       u_password_hash = hash_password (ascii password) (e_random e),
                                       u_role = r, u_is_active = True, u_last_login = None,
                                       u_mfa_secret_enc = None, u_mfa_enabled = False, u_mfa_recovery = [],
                                       u_oidc_sub = None, u_session_version = Some 1,
                                       u_is_platform_admin = False\<rparr>
                              in if dget (db_users (sv_db s)) i \<noteq> None then (Inl integrity_error, s)
                                 else (Inr (Done i),
                                       audit e (c_org_id ctx) (c_email ctx) ''user.create'' email (save_user u s))))))"

definition update_user ::
  "env \<Rightarrow> string \<Rightarrow> string option \<Rightarrow> bool option \<Rightarrow> string \<Rightarrow> auth_ctx \<Rightarrow> server \<Rightarrow> outcome" where
  \<comment> \<open>the keys of the body that are present; a refused request is not committed\<close>
  "update_user e user_id role is_active password ctx s =
     (case require_roles [ADMIN] ctx of
        Inl err \<Rightarrow> (Inl err, s)
      | Inr _ \<Rightarrow>
          (case dget (db_users (sv_db s)) user_id of
             None \<Rightarrow> (Inl (HTTPException 404 ''User not found''), s)
           | Some u \<Rightarrow>
               if u_org_id u \<noteq> c_org_id ctx then (Inl (HTTPException 404 ''User not found''), s)
               else if u_id u = c_user_id ctx \<and> is_active = Some False
               then (Inl (HTTPException 400 ''Cannot deactivate yourself''), s)
               else if role \<noteq> None \<and> role_of (the role) = None
               then (Inl (HTTPException 400 ''role must be admin|analyst|auditor''), s)
               else if password \<noteq> '''' \<and> length password < 10
               then (Inl (HTTPException 400 ''password must be >= 10 chars''), s)
               else (let u' = u\<lparr>u_role := (case role of None \<Rightarrow> u_role u | Some r \<Rightarrow> the (role_of r)),
                                u_is_active := (case is_active of None \<Rightarrow> u_is_active u | Some b \<Rightarrow> b),
                                u_password_hash := (if password = '''' then u_password_hash u
                                                    else hash_password (ascii password) (e_random e))\<rparr>
                     in (Inr (Done (u_id u)),
                         audit e (c_org_id ctx) (c_email ctx) ''user.update'' (u_email u) (save_user u' s)))))"

definition put_key :: "api_key \<Rightarrow> db \<Rightarrow> db" where
  "put_key k d = d\<lparr>db_api_keys := dset (k_id k) k (db_api_keys d)\<rparr>"

definition key_expiry :: "env \<Rightarrow> int option \<Rightarrow> time option" where
  \<comment> \<open>\<open>expires_days\<close> of the body; absent or 0 is no expiry\<close>
  "key_expiry e expires_days =
     (case expires_days of
        None \<Rightarrow> None
      | Some days \<Rightarrow> if days = 0 then None else Some (e_now e + 86400 * real_of_int days))"

definition create_api_key :: "env \<Rightarrow> string \<Rightarrow> int option \<Rightarrow> auth_ctx \<Rightarrow> server \<Rightarrow> outcome" where
  "create_api_key e name expires_days ctx s =
     (case require_roles [ADMIN] ctx of
        Inl err \<Rightarrow> (Inl err, s)
      | Inr _ \<Rightarrow>
          (let name = (if str_strip name = '''' then ''siem-integration'' else str_strip name);
               (raw, digest, prefix) = generate_api_key (e_random e);
               i = new_id ''key-'' e;
               k = \<lparr>k_id = i, k_org_id = c_org_id ctx, k_user_id = c_user_id ctx, k_name = name,
                    k_key_hash = digest, k_prefix = prefix, k_revoked = False,
                    k_expires_at = key_expiry e expires_days\<rparr>
           in if dget (db_api_keys (sv_db s)) i \<noteq> None \<or> find_key digest (db_api_keys (sv_db s)) \<noteq> None
              then (Inl integrity_error, s)
              else (Inr (Raw_Key raw prefix),
                    audit e (c_org_id ctx) (c_email ctx) ''apikey.create'' name
                      (s\<lparr>sv_db := put_key k (sv_db s)\<rparr>))))"

definition revoke_api_key :: "env \<Rightarrow> string \<Rightarrow> auth_ctx \<Rightarrow> server \<Rightarrow> outcome" where
  "revoke_api_key e key_id ctx s =
     (case require_roles [ADMIN] ctx of
        Inl err \<Rightarrow> (Inl err, s)
      | Inr _ \<Rightarrow>
          (case dget (db_api_keys (sv_db s)) key_id of
             None \<Rightarrow> (Inl (HTTPException 404 ''API key not found''), s)
           | Some k \<Rightarrow>
               if k_org_id k \<noteq> c_org_id ctx then (Inl (HTTPException 404 ''API key not found''), s)
               else (Inr (Done ''revoked''),
                     audit e (c_org_id ctx) (c_email ctx) ''apikey.revoke'' (k_name k)
                       (s\<lparr>sv_db := put_key (k\<lparr>k_revoked := True\<rparr>) (sv_db s)\<rparr>))))"

section \<open>Platform administrators\<close>

definition require_platform_admin :: "auth_ctx \<Rightarrow> server \<Rightarrow> http_error + auth_ctx" where
  "require_platform_admin ctx s =
     (case (if c_user_id ctx = '''' then None else dget (db_users (sv_db s)) (c_user_id ctx)) of
        None \<Rightarrow> Inl (HTTPException 403 ''Platform admins only'')
      | Some u \<Rightarrow> if u_is_platform_admin u then Inr ctx else Inl (HTTPException 403 ''Platform admins only''))"

definition create_org :: "env \<Rightarrow> string \<Rightarrow> auth_ctx \<Rightarrow> server \<Rightarrow> outcome" where
  "create_org e name ctx s =
     (case require_platform_admin ctx s of
        Inl err \<Rightarrow> (Inl err, s)
      | Inr _ \<Rightarrow>
          (let name = str_strip name; i = new_id ''org-'' e
           in if name = '''' \<or> 256 < length name then (Inl (HTTPException 400 ''Valid org name required''), s)
              else if name \<in> snd ` set (db_orgs (sv_db s)) then (Inl (HTTPException 409 ''Org already exists''), s)
              else if dget (db_orgs (sv_db s)) i \<noteq> None then (Inl integrity_error, s)
              else (Inr (Done i),
                    audit e (c_org_id ctx) (c_email ctx) ''org.create'' name
                      (s\<lparr>sv_db := (sv_db s)\<lparr>db_orgs := dset i name (db_orgs (sv_db s))\<rparr>\<rparr>))))"

definition assume_org :: "env \<Rightarrow> string \<Rightarrow> string \<Rightarrow> auth_ctx \<Rightarrow> server \<Rightarrow> outcome" where
  "assume_org e org_id reason ctx s =
     (case require_platform_admin ctx s of
        Inl err \<Rightarrow> (Inl err, s)
      | Inr _ \<Rightarrow>
          (let reason = str_strip reason; org_id = str_strip org_id
           in if reason = '''' \<or> org_id = '''' then (Inl (HTTPException 400 ''org_id and reason are required''), s)
              else (case (dget (db_orgs (sv_db s)) org_id, dget (db_users (sv_db s)) (c_user_id ctx)) of
                      (None, _) \<Rightarrow> (Inl (HTTPException 404 ''Org not found''), s)
                    | (_, None) \<Rightarrow> (Inl (Uncaught (RuntimeError [''AttributeError''])), s)
                    | (Some name, Some u) \<Rightarrow>
                        (Inr (Session_Token (create_access_token (e_now e) (e_jti e) (u_id u) org_id
                            (role_value (u_role u)) 3600
                            [(''assumed'', JBool True), (''assumed_by'', JStr (c_email ctx))] (user_sv u))),
                         audit e org_id (c_email ctx) ''admin.assume_org'' name s))))"

section \<open>Live streams\<close>

definition live_ticket :: "env \<Rightarrow> auth_ctx \<Rightarrow> claims" where
  "live_ticket e ctx =
     create_sse_ticket (e_now e) (e_jti e) (c_user_id ctx) (c_org_id ctx) (role_value (c_role ctx))"

definition sse_ctx ::
  "(time \<Rightarrow> 'tok \<Rightarrow> claims option) \<Rightarrow> env \<Rightarrow> 'tok option \<Rightarrow> 'tok option \<Rightarrow> server \<Rightarrow>
   (http_error + auth_ctx) \<times> server" where
  \<comment> \<open>a ticket in the URL, or else the Authorization header\<close>
  "sse_ctx dec e ticket bearer s =
     (case ticket of
        Some raw \<Rightarrow>
          (case consume_sse_ticket dec (e_setnx e) (e_now e) raw (used_sse_tickets (sv_auth s)) of
             Inl err \<Rightarrow> (Inl (HTTPException 401 ''Invalid or expired SSE ticket''), s)
           | Inr (claims, used) \<Rightarrow>
               (let s = s\<lparr>sv_auth := (sv_auth s)\<lparr>used_sse_tickets := used\<rparr>\<rparr>
                in case dget claims ''sub'' of
                     None \<Rightarrow> (Inl (Uncaught KeyError), s)
                   | Some sub \<Rightarrow>
                       (case (case sub of JStr i \<Rightarrow> dget (db_users (sv_db s)) i | _ \<Rightarrow> None) of
                          None \<Rightarrow> (Inl (HTTPException 401 ''User inactive''), s)
                        | Some u \<Rightarrow>
                            if u_is_active u then (Inr (ctx_of u (u_org_id u) JWT), s)
                            else (Inl (HTTPException 401 ''User inactive''), s))))
      | None \<Rightarrow>
          (map_sum id fst (get_current_user dec (e_get e) (sv_auth s) (e_now e) True '''' bearer (sv_db s)), s))"

section \<open>The gate after the password, and how it is passed without a second factor\<close>

lemma sv_db_audit [simp]: "sv_db (audit e a b c d s) = log_audit (e_audit_ok e) a b c d (sv_db s)"
  by (simp add: audit_def)

lemma sv_auth_audit [simp]: "sv_auth (audit e a b c d s) = sv_auth s"
  by (simp add: audit_def)

lemma sv_db_save [simp]: "sv_db (save_user u s) = put_user u (sv_db s)"
  by (simp add: save_user_def)

lemma sv_auth_save [simp]: "sv_auth (save_user u s) = sv_auth s"
  by (simp add: save_user_def)

lemma note_db [simp]: "sv_db (note_failure e a i s) = sv_db s" "sv_db (note_success e a i s) = sv_db s"
  by (simp_all add: note_failure_def note_success_def split_beta)

lemma note_success_revoked [simp]:
  "revoked_jti (sv_auth (note_success e a i s)) = revoked_jti (sv_auth s)"
  by (simp add: note_success_def record_login_success_def)

lemma orgs_put [simp]: "db_orgs (put_user u d) = db_orgs d"
  by (simp add: put_user_def)

lemma mfa_required_cong: "u_mfa_enabled u = u_mfa_enabled v \<Longrightarrow> u_org_id u = u_org_id v \<Longrightarrow>
    db_orgs d = db_orgs d' \<Longrightarrow> mfa_required cfg u d = mfa_required cfg v d'"
  by (simp add: mfa_required_def)

lemma finish_result:
  "fst (finish_password_login cfg e u s) =
     (if mfa_required cfg u (sv_db s)
      then Inr (Mfa_Ticket (create_mfa_ticket (e_now e) (e_jti e) (u_id u) (u_org_id u)))
      else Inr (Session_Token (session_token cfg e (u\<lparr>u_last_login := Some (e_now e)\<rparr>))))"
  using mfa_required_cong [of "u\<lparr>u_last_login := Some (e_now e)\<rparr>" u] 
  by (simp add: finish_password_login_def Let_def)

definition is_break_glass :: "settings \<Rightarrow> string \<Rightarrow> bool" where
  "is_break_glass cfg email \<longleftrightarrow>
     break_glass_configured cfg \<and> str_lower (str_strip email) = break_glass_email cfg"

text \<open>The login endpoint answers with a session token only for a right password of an active
  user whose account needs no second factor, or for the break-glass administrator with the
  break-glass password; every other login ends in a ticket or an error.\<close>

theorem login_token_only_without_mfa:
  assumes "fst (login cfg e email password ip s) = Inr (Session_Token tok)"
  shows "\<exists>u. user_by_email (str_lower (str_strip email)) (sv_db s) = Some u \<and> u_is_active u \<and>
    (if is_break_glass cfg email
     then u_is_platform_admin u \<and> password = BREAK_GLASS_PASSWORD cfg
     else verify_password (ascii password) (u_password_hash u) \<and> \<not> mfa_required cfg u (sv_db s))"
proof (cases "is_break_glass cfg email \<and> str_lower (str_strip email) \<noteq> ''''")
  case True
  then have "fst (break_glass_login cfg e password ip s) = Inr (Session_Token tok)"
    using assms by (auto simp: login_def is_break_glass_def Let_def split: if_splits)
  then show ?thesis
    using True by (auto simp: break_glass_login_def is_break_glass_def Let_def split: option.splits if_splits)
next
  case False
  have "break_glass_email cfg \<noteq> ''''" if "break_glass_configured cfg"
    using that by (simp add: break_glass_configured_def break_glass_email_def str_lower_def)
  then have nb: "\<not> is_break_glass cfg email" using False by (auto simp: is_break_glass_def)
  then show ?thesis
    using assms by (auto simp: login_def is_break_glass_def finish_result Let_def
        split: if_splits option.splits)
qed


definition demo_user :: user where
  "demo_user = fresh_user\<lparr>u_password_hash := hash_password (ascii ''secret'') []\<rparr>"

definition demo_server :: server where
  "demo_server = \<lparr>sv_db = one_user_db\<lparr>db_users := [(''u1'', demo_user)]\<rparr>, sv_auth = empty_mem,
     sv_mfa = [], sv_sent = []\<rparr>"

definition demo_env :: env where
  "demo_env = \<lparr>e_now = 0, e_jti = ''a1'', e_random = [], e_audit_ok = True, e_get = \<lambda>k. None,
     e_incr = \<lambda>k. None, e_setnx = None, e_redis = False\<rparr>"

definition demo_cfg :: settings where
  "demo_cfg = \<lparr>BREAK_GLASS_EMAIL = '''', BREAK_GLASS_PASSWORD = '''', DISABLE_PASSWORD_LOGIN = False,
     MFA_REQUIRED_ORGS = '''', MFA_ENROLL_ALLOW = True, JWT_EXPIRY_SECONDS = 86400, JWT_SECRET = []\<rparr>"

lemmas demo_defs = demo_user_def demo_server_def demo_env_def demo_cfg_def fresh_user_def one_user_db_def

lemma demo_email: "str_lower (str_strip ''a@b.c'') = ''a@b.c''"
  by code_simp

lemma demo_lookup: "user_by_email ''a@b.c'' (sv_db demo_server) = Some demo_user"
  by (simp add: user_by_email_def demo_defs)


lemma login_token_only_without_mfa_witness:
  "\<exists>tok (u :: user). fst (login demo_cfg demo_env ''a@b.c'' ''secret'' ''9''
       (demo_server\<lparr>sv_db := (sv_db demo_server)\<lparr>db_users := [(''u1'', demo_user\<lparr>u_mfa_enabled := False\<rparr>)]\<rparr>\<rparr>))
     = Inr (Session_Token tok) \<and> verify_password (ascii ''secret'') (u_password_hash u)"
proof -
  let ?u = "demo_user\<lparr>u_mfa_enabled := False\<rparr>"
  let ?s = "demo_server\<lparr>sv_db := (sv_db demo_server)\<lparr>db_users := [(''u1'', ?u)]\<rparr>\<rparr>"
  have look: "user_by_email ''a@b.c'' (sv_db ?s) = Some ?u"
    by (simp add: user_by_email_def demo_defs)
  have free: "\<not> is_login_locked (e_get demo_env) (e_now demo_env) (acct_key ''a@b.c'') (ip_key ''9'') (sv_auth ?s)"
    by (simp add: is_login_locked_def mem_locked_def dget_or_def empty_mem_def Let_def demo_defs)
  have nb: "\<not> break_glass_configured demo_cfg" "\<not> DISABLE_PASSWORD_LOGIN demo_cfg"
    by (simp_all add: break_glass_configured_def demo_cfg_def)
  have ok: "u_is_active ?u" "verify_password (ascii ''secret'') (u_password_hash ?u)"
    by (simp_all add: demo_user_def fresh_user_def verify_hashed)
  have nomfa: "\<not> mfa_required demo_cfg ?u (sv_db ?s)"
    by (simp add: mfa_required_def demo_cfg_def str_strip_def)
  have "fst (login demo_cfg demo_env ''a@b.c'' ''secret'' ''9'' ?s)
      = Inr (Session_Token (session_token demo_cfg demo_env (?u\<lparr>u_last_login := Some (e_now demo_env)\<rparr>)))"
    using look free nb ok nomfa by (simp add: login_def demo_email finish_result Let_def)
  moreover obtain v :: user where "verify_password (ascii ''secret'') (u_password_hash v)"
    using login_token_only_without_mfa [OF calculation] nb by (auto simp: is_break_glass_def)
  ultimately show ?thesis by blast
qed

section \<open>Ending all sessions of a user\<close>

text \<open>C21: After the sessions of a user were revoked, no bearer token that was accepted for this user
  before, session token or ticket, is accepted again.\<close>

theorem revoke_all_ends_sessions:
  assumes "db_ok (sv_db s)"
    and "get_current_user dec get (sv_auth s) now ok '''' (Some tok) (sv_db s) = Inr (victim, d')"
    and "revoke_all_sessions e (c_user_id victim) ctx s = (Inr r, s')" "c_user_id victim \<noteq> ''''"
    and "dec now' tok = dec now tok"
  shows "\<exists>err. get_current_user dec get' m now' ok' '''' (Some tok) (sv_db s') = Inl err"
proof -
  obtain c where c: "dec now tok = Some c" "claims_user get (sv_auth s) c (sv_db s) = Inr victim"
    using assms(2) by (auto simp: get_current_user_def bindR_eq_Inr split: option.splits)
  then obtain u i where u: "dget c ''sub'' = Some (JStr i)" "dget (db_users (sv_db s)) i = Some u"
    "dget c ''sv'' = None \<and> user_sv u = 1 \<or> (\<exists>v. dget c ''sv'' = Some v \<and> int_claim v = Some (user_sv u))"
    "c_user_id victim = u_id u"
    using claims_user_Inr [OF c(2)] by (auto split: if_splits)
  moreover have "u_id u = i" using assms(1) u(2) by (rule db_okD)
  moreover define w where "w = u\<lparr>u_session_version := Some (user_sv u + 1)\<rparr>"
  ultimately have s': "dget (db_users (sv_db s')) i = Some w"
    using assms(3,4) by (auto simp: revoke_all_sessions_def Let_def split: if_splits)
  have sv: "user_sv w \<noteq> user_sv u" unfolding w_def
    by (cases "u_session_version u") (auto simp: user_sv_def)
  have "claims_user get' m c (sv_db s') \<noteq> Inr x" for x
  proof
    assume "claims_user get' m c (sv_db s') = Inr x"
    from claims_user_Inr [OF this] show False using u(1,3) s' sv by auto
  qed
  then obtain err where "claims_user get' m c (sv_db s') = Inl err"
    by (cases "claims_user get' m c (sv_db s')") auto
  then show ?thesis
    using c(1) assms(5) by (simp add: get_current_user_def)
qed

section \<open>Tenants\<close>

datatype admin_op =
    Create_User string string string
  | Update_User string "string option" "bool option" string
  | Disable_Mfa string
  | Create_Key string "int option"
  | Revoke_Key string

fun admin :: "env \<Rightarrow> admin_op \<Rightarrow> auth_ctx \<Rightarrow> server \<Rightarrow> outcome" where
  "admin e (Create_User email role password) ctx s = create_user e email role password ctx s"
| "admin e (Update_User i role active password) ctx s = update_user e i role active password ctx s"
| "admin e (Disable_Mfa i) ctx s = mfa_disable e i ctx s"
| "admin e (Create_Key name days) ctx s = create_api_key e name days ctx s"
| "admin e (Revoke_Key i) ctx s = revoke_api_key e i ctx s"

definition foreign_rows_kept :: "string \<Rightarrow> db \<Rightarrow> db \<Rightarrow> bool" where
  \<comment> \<open>the users and keys of every other organisation are the same in both databases\<close>
  "foreign_rows_kept org d d' \<longleftrightarrow>
     (\<forall>i u. u_org_id u \<noteq> org \<longrightarrow> (dget (db_users d) i = Some u \<longleftrightarrow> dget (db_users d') i = Some u)) \<and>
     (\<forall>i k. k_org_id k \<noteq> org \<longrightarrow> (dget (db_api_keys d) i = Some k \<longleftrightarrow> dget (db_api_keys d') i = Some k))"

lemma foreign_refl [simp]: "foreign_rows_kept org d d"
  by (simp add: foreign_rows_kept_def)

lemma foreign_trans:
  "foreign_rows_kept org a b \<Longrightarrow> foreign_rows_kept org b c \<Longrightarrow> foreign_rows_kept org a c"
  by (simp add: foreign_rows_kept_def)

lemma foreign_audit [simp]: "foreign_rows_kept org d (log_audit ok a b c x d') = foreign_rows_kept org d d'"
  by (simp add: foreign_rows_kept_def log_audit_def)

lemma foreign_put_user:
  assumes "u_org_id u = org" "\<And>v. dget (db_users d) (u_id u) = Some v \<Longrightarrow> u_org_id v = org"
  shows "foreign_rows_kept org d (put_user u d)"
  using assms by (auto simp: foreign_rows_kept_def put_user_def)

lemma foreign_put_key:
  assumes "k_org_id k = org" "\<And>v. dget (db_api_keys d) (k_id k) = Some v \<Longrightarrow> k_org_id v = org"
  shows "foreign_rows_kept org d (put_key k d)"
  using assms by (auto simp: foreign_rows_kept_def put_key_def)

definition keys_ok :: "db \<Rightarrow> bool" where
  "keys_ok d \<longleftrightarrow> (\<forall>i k. dget (db_api_keys d) i = Some k \<longrightarrow> k_id k = i)"


lemma revoke_all_crosses_tenants:
  \<comment> \<open>the one exception: an administrator of any organisation ends the sessions of any user\<close>
  assumes "c_role ctx = ADMIN" "dget (db_users (sv_db s)) i = Some u" "u_org_id u \<noteq> c_org_id ctx" "i \<noteq> ''''"
    and "u_id u = i"
  shows "fst (revoke_all_sessions e i ctx s) = Inr (Done ''revoked'') \<and>
    dget (db_users (sv_db (snd (revoke_all_sessions e i ctx s)))) i
      = Some (u\<lparr>u_session_version := Some (user_sv u + 1)\<rparr>)"
  using assms by (simp add: revoke_all_sessions_def Let_def)

lemma password_change_keeps_sessions:
  \<comment> \<open>a changed password does not raise the session version\<close>
  assumes "update_user e i None None password ctx s = (Inr r, s')" "db_ok (sv_db s)"
  shows "\<exists>u u'. dget (db_users (sv_db s)) i = Some u \<and> dget (db_users (sv_db s')) i = Some u' \<and>
    user_sv u' = user_sv u"
proof -
  obtain u where u: "dget (db_users (sv_db s)) i = Some u"
    using assms(1) by (auto simp: update_user_def split: sum.splits option.splits)
  moreover have "u_id u = i" using assms(2) u by (rule db_okD)
  moreover have "user_sv (u\<lparr>u_password_hash := h\<rparr>) = user_sv u" for h
    by (simp add: user_sv_def)
  ultimately show ?thesis
    using assms(1) by (auto simp: update_user_def Let_def split: sum.splits if_splits)
qed

lemma demo_accepts:
  "get_current_user toy_dec (\<lambda>k. None) (sv_auth demo_server) 10 True ''''
     (Some (create_mfa_ticket 0 ''a1'' ''u1'' ''o1'')) (sv_db demo_server)
   = Inr (ctx_of demo_user ''o1'' JWT, sv_db demo_server)"
  using mfa_ticket_is_a_session [OF toy_verifies, where d = "sv_db demo_server" and uid = "''u1''" and u = demo_user
      and get = "\<lambda>k. None" and jti = "''a1''" and m = empty_mem and t = 0 and now = 10 and ok = True]
  by (simp add: demo_defs user_sv_def is_token_revoked_def empty_mem_def)

lemma demo_db_ok: "db_ok (sv_db demo_server)" "keys_ok (sv_db demo_server)"
  by (simp_all add: db_ok_def keys_ok_def demo_defs)

lemma revoke_all_ends_sessions_witness:
  "\<exists>err s'. revoke_all_sessions demo_env ''u1'' (ctx_of demo_user ''o1'' JWT) demo_server = (Inr (Done ''revoked''), s') \<and>
     get_current_user toy_dec (\<lambda>k. None) empty_mem 10 True ''''
       (Some (create_mfa_ticket 0 ''a1'' ''u1'' ''o1'')) (sv_db s') = Inl err"
proof -
  obtain s' where r: "revoke_all_sessions demo_env (c_user_id (ctx_of demo_user ''o1'' JWT))
      (ctx_of demo_user ''o1'' JWT) demo_server = (Inr (Done ''revoked''), s')"
    by (simp add: revoke_all_sessions_def demo_defs Let_def)
  have i: "c_user_id (ctx_of demo_user ''o1'' JWT) = ''u1''" by (simp add: demo_defs)
  have "\<exists>err. get_current_user toy_dec (\<lambda>k. None) empty_mem 10 True ''''
      (Some (create_mfa_ticket 0 ''a1'' ''u1'' ''o1'')) (sv_db s') = Inl err"
    by (rule revoke_all_ends_sessions [OF demo_db_ok(1) demo_accepts r]) (simp_all add: demo_defs)
  with r show ?thesis unfolding i by blast
qed


end
