(* ===== verification/Certificates.thy ===== *)
theory Certificates
  imports Prelude
begin

text \<open>
  Certificate facts and chain results (src/backend/app/parsing/certificates.py). Decoding X.509 and
  verifying a path are done by third-party libraries: what they return is the input here (\<open>x509\<close>,
  \<open>verify_outcome\<close>), and the code's own classification of it is modelled. Instants are whole seconds
  (\<open>int\<close>, UTC), \<open>now\<close> is an argument.
\<close>

section \<open>What the libraries return\<close>

datatype pubkey = RSA nat | EC nat | DSA nat | Ed25519 | Ed448 | OtherKey

record x509 =
  x_subject :: string
  x_issuer :: string
  x_subject_cn :: "string option"
  x_issuer_cn :: "string option"
  x_not_before :: int
  x_not_after :: int
  x_sig_name :: "string option"
  x_pubkey :: pubkey
  x_basic_ca :: "bool option"
  x_dns_names :: "ustr list option"
  x_serial :: nat

datatype verify_outcome =
    Verified
  | StoreError string "string option"  \<comment> \<open>\<open>str(e.args[0])\<close>, and \<open>str(e.args[1])\<close> if there is one\<close>
  | OtherError string

section \<open>CertAnalysis\<close>

record cert_analysis =
  ca_subject_cn :: string
  ca_issuer_cn :: string
  ca_not_before :: "int option"
  ca_not_after :: "int option"
  ca_days_valid :: "int option"
  ca_days_remaining :: "int option"
  ca_pubkey_alg :: string
  ca_pubkey_bits :: "nat option"
  ca_signature_alg :: string
  ca_self_signed :: bool
  ca_is_ca :: bool
  ca_chain_result :: string
  ca_chain_error :: string
  ca_serial :: string
  ca_sans :: "ustr list"
  ca_der :: bytes

definition cert_expired :: "int \<Rightarrow> cert_analysis \<Rightarrow> bool" where
  "cert_expired now c = (case ca_not_after c of None \<Rightarrow> False | Some na \<Rightarrow> na < now)"

definition cert_not_yet_valid :: "int \<Rightarrow> cert_analysis \<Rightarrow> bool" where
  "cert_not_yet_valid now c = (case ca_not_before c of None \<Rightarrow> False | Some nb \<Rightarrow> now < nb)"

definition weak_signature :: "cert_analysis \<Rightarrow> bool" where
  "weak_signature c =
     (let sig = str_lower (ca_signature_alg c)
      in starts_with ''sha1'' sig \<or> starts_with ''md5'' sig \<or>
         ends_with ''.1.1.5'' sig \<or> ends_with ''.1.1.4'' sig)"

definition short_key :: "cert_analysis \<Rightarrow> bool" where
  "short_key c =
     (case ca_pubkey_bits c of
        None \<Rightarrow> False
      | Some bits \<Rightarrow>
          0 < bits \<and>
          ((ca_pubkey_alg c = ''RSA'' \<and> bits < 2048) \<or> (ca_pubkey_alg c = ''DSA'' \<and> bits < 2048) \<or>
           (ca_pubkey_alg c \<in> set [''EC'', ''ECDSA''] \<and> bits < 224)))"

definition cn_of :: "string option \<Rightarrow> string" where
  "cn_of cn = (case cn of None \<Rightarrow> ''<oid missing>'' | Some s \<Rightarrow> s)"

definition pubkey_info :: "pubkey \<Rightarrow> string \<times> nat option" where
  "pubkey_info k =
     (case k of
        RSA n \<Rightarrow> (''RSA'', Some n) | EC n \<Rightarrow> (''EC'', Some n) | DSA n \<Rightarrow> (''DSA'', Some n)
      | Ed25519 \<Rightarrow> (''Ed25519'', Some 256) | Ed448 \<Rightarrow> (''Ed448'', Some 448)
      | OtherKey \<Rightarrow> (''Unknown'', None))"

definition days_of :: "int \<Rightarrow> int" where
  \<comment> \<open>\<open>timedelta.days\<close> rounds towards minus infinity\<close>
  "days_of secs = secs div 86400"

definition analyze_certificate ::
  "(bytes \<Rightarrow> string + x509) \<Rightarrow> int \<Rightarrow> bytes \<Rightarrow> cert_analysis" where
  "analyze_certificate load now der =
     (case load der of
        Inl err \<Rightarrow>
          \<lparr>ca_subject_cn = ''<unparseable>'', ca_issuer_cn = ''<unparseable>'', ca_not_before = None,
           ca_not_after = None, ca_days_valid = None, ca_days_remaining = None,
           ca_pubkey_alg = ''Unknown'', ca_pubkey_bits = None, ca_signature_alg = ''unknown'',
           ca_self_signed = False, ca_is_ca = False, ca_chain_result = ''parse-error'',
           ca_chain_error = take 256 err, ca_serial = [], ca_sans = [], ca_der = der\<rparr>
      | Inr cert \<Rightarrow>
          \<lparr>ca_subject_cn = cn_of (x_subject_cn cert), ca_issuer_cn = cn_of (x_issuer_cn cert),
           ca_not_before = Some (x_not_before cert), ca_not_after = Some (x_not_after cert),
           ca_days_valid = Some (days_of (x_not_after cert - x_not_before cert)),
           ca_days_remaining = Some (days_of (x_not_after cert - now)),
           ca_pubkey_alg = fst (pubkey_info (x_pubkey cert)),
           ca_pubkey_bits = snd (pubkey_info (x_pubkey cert)),
           ca_signature_alg = (case x_sig_name cert of Some (c # s) \<Rightarrow> c # s | _ \<Rightarrow> ''unknown''),
           ca_self_signed = (cn_of (x_subject_cn cert) = cn_of (x_issuer_cn cert) \<and>
                             x_subject cert = x_issuer cert),
           ca_is_ca = (x_basic_ca cert = Some True), ca_chain_result = ''unknown'',
           ca_chain_error = [], ca_serial = hex_of (x_serial cert),
           ca_sans = (case x_dns_names cert of None \<Rightarrow> [] | Some ns \<Rightarrow> ns), ca_der = der\<rparr>)"

section \<open>Chain validation\<close>

definition classify_error :: "string \<Rightarrow> string option \<Rightarrow> string \<times> string" where
  "classify_error code arg =
     (let detail = (case arg of Some d \<Rightarrow> d | None \<Rightarrow> code);
          d = str_lower detail
      in if contains ''expired'' d then (''expired'', detail)
         else if contains ''not yet valid'' d then (''not-yet-valid'', detail)
         else if contains ''unable to get local issuer certificate'' d then (''untrusted'', detail)
         else if contains ''unable to get issuer certificate'' d then (''untrusted'', detail)
         else if contains ''self signed certificate'' d then (''untrusted'', detail)
         else if contains ''signature algorithm'' d then (''invalid-sig'', detail)
         else if contains ''signature'' d then (''invalid-sig'', detail)
         else (''untrusted'', detail @ '' (err code '' @ code @ '')''))"

definition check_hostname :: "(bytes \<Rightarrow> string + x509) \<Rightarrow> bytes \<Rightarrow> ustr \<Rightarrow> string \<times> ustr" where
  "check_hostname load leaf hostname =
     (case load leaf of
        Inl _ \<Rightarrow> (''parse-error'', utext ''could not check hostname'')
      | Inr cert \<Rightarrow>
          (let sans = (case x_dns_names cert of None \<Rightarrow> [] | Some ns \<Rightarrow> ns)
           in if hostname \<notin> set sans
              then (''hostname-mismatch'', hostname @ utext '' not in SANs'')
              else (''ok'', utext ''verified against trust store'')))"

definition validate_chain ::
  "bool \<Rightarrow> nat option \<Rightarrow> (bytes list \<Rightarrow> verify_outcome) \<Rightarrow> (bytes \<Rightarrow> string + x509) \<Rightarrow> bytes list
   \<Rightarrow> ustr option \<Rightarrow> string \<times> ustr" where
  \<comment> \<open>\<open>anchors\<close> is the number of certificates in the trust bundle, \<open>None\<close> if it could not be read\<close>
  "validate_chain has_openssl anchors verify load der_certs hostname =
     (if \<not> has_openssl then (''config-error'', utext ''pyOpenSSL not available'')
      else if der_certs = [] then (''parse-error'', utext ''empty chain'')
      else if anchors = None \<or> anchors = Some 0
      then (''config-error'', utext ''no trust anchors could be loaded'')
      else (case verify der_certs of
              OtherError e \<Rightarrow> (''config-error'', utext (take 256 e))
            | StoreError code arg \<Rightarrow> (let (r, d) = classify_error code arg in (r, utext d))
            | Verified \<Rightarrow>
                (if hostname = None \<or> hostname = Some []
                 then (''ok'', utext ''verified against trust store'')
                 else check_hostname load (hd der_certs) (the hostname))))"

section \<open>Properties\<close>

lemma unparseable_flags_nothing:
  assumes "load der = Inl err"
  shows "\<not> cert_expired now (analyze_certificate load now der)"
    and "\<not> cert_not_yet_valid now (analyze_certificate load now der)"
    and "\<not> weak_signature (analyze_certificate load now der)"
    and "\<not> short_key (analyze_certificate load now der)"
  using assms
  by (simp_all add: analyze_certificate_def cert_expired_def cert_not_yet_valid_def weak_signature_def
      short_key_def str_lower_def char_lower_def starts_with_def ends_with_def)

text \<open>The expiry flag and the remaining days agree: for a certificate that decodes, the day count is
  negative exactly when the flag is set.\<close>
lemma expiry_matches_days:
  assumes "load der = Inr x"
  shows "ca_days_remaining (analyze_certificate load now der) = Some (days_of (x_not_after x - now)) \<and>
    (days_of (x_not_after x - now) < 0) = cert_expired now (analyze_certificate load now der)"
  using assms by (auto simp: analyze_certificate_def cert_expired_def days_of_def)

definition names_host :: "(bytes \<Rightarrow> string + x509) \<Rightarrow> bytes \<Rightarrow> ustr \<Rightarrow> bool" where
  "names_host load leaf h =
     (case load leaf of
        Inl _ \<Rightarrow> False
      | Inr x \<Rightarrow> (case x_dns_names x of None \<Rightarrow> False | Some ns \<Rightarrow> h \<in> set ns))"

lemma check_hostname_ok: "fst (check_hostname load leaf h) = ''ok'' \<longleftrightarrow> names_host load leaf h"
  by (simp add: check_hostname_def names_host_def Let_def split: sum.split option.split)

lemma classify_error_not_ok: "fst (classify_error code arg) \<noteq> ''ok''"
  by (simp add: classify_error_def Let_def)

text \<open>A chain is reported as ok exactly if the verifier accepted it against at least one anchor and,
  when a host name is given, the leaf decodes and names it.\<close>
theorem validate_chain_ok_iff:
  "fst (validate_chain has_openssl anchors verify load ders hostname) = ''ok'' \<longleftrightarrow>
     has_openssl \<and> ders \<noteq> [] \<and> anchors \<noteq> None \<and> anchors \<noteq> Some 0 \<and> verify ders = Verified \<and>
     (hostname = None \<or> hostname = Some [] \<or> names_host load (hd ders) (the hostname))"
  using classify_error_not_ok check_hostname_ok
  by (auto simp: validate_chain_def Let_def split_beta split: verify_outcome.split)

lemma ecdsa_sha1_not_weak:
  assumes "ca_signature_alg c = ''ecdsa-with-SHA1''"
  shows "\<not> weak_signature c"
  using assms
  by (simp add: weak_signature_def str_lower_def char_lower_def starts_with_def ends_with_def)

end
