(* ===== verification/Handshake.thy ===== *)
theory Handshake
  imports TLS_Records
begin

text \<open>
  TLS handshake parsing (src/backend/app/parsing/handshake.py): GREASE, named groups, the
  ClientHello, ServerHello and Certificate messages, and the cipher knowledge base. A cursor is the
  suffix it points at; every raise of the source is an \<open>Inl\<close>, Python's own \<open>IndexError\<close> included.
\<close>

section \<open>Decoding text from the wire\<close>

definition is_cont :: "byte \<Rightarrow> bool" where
  "is_cont b \<longleftrightarrow> 0x80 \<le> b \<and> b \<le> 0xBF"

definition second_ok :: "byte \<Rightarrow> byte \<Rightarrow> bool" where
  \<comment> \<open>the second byte that may follow a lead byte (no overlong forms, no surrogates, no code point
     above 0x10FFFF)\<close>
  "second_ok b c \<longleftrightarrow>
     (if b = 0xE0 then 0xA0 \<le> c \<and> c \<le> 0xBF
      else if b = 0xED then 0x80 \<le> c \<and> c \<le> 0x9F
      else if b = 0xF0 then 0x90 \<le> c \<and> c \<le> 0xBF
      else if b = 0xF4 then 0x80 \<le> c \<and> c \<le> 0x8F
      else is_cont c)"

definition low6 :: "byte \<Rightarrow> nat" where
  "low6 b = unat b mod 64"

function utf8_replace :: "bytes \<Rightarrow> ustr" where
  \<comment> \<open>\<open>bs.decode(errors="replace")\<close>: one U+FFFD per maximal ill-formed prefix\<close>
  "utf8_replace bs =
     (case bs of
        [] \<Rightarrow> []
      | b # r \<Rightarrow>
          if b < 0x80 then unat b # utf8_replace r
          else if 0xC2 \<le> b \<and> b \<le> 0xDF then
            (case r of
               c # r' \<Rightarrow> if is_cont c then (unat b mod 32 * 64 + low6 c) # utf8_replace r'
                         else 0xFFFD # utf8_replace r
             | [] \<Rightarrow> [0xFFFD])
          else if 0xE0 \<le> b \<and> b \<le> 0xEF then
            (case r of
               c # r' \<Rightarrow>
                 if \<not> second_ok b c then 0xFFFD # utf8_replace r
                 else (case r' of
                         d # r'' \<Rightarrow> if is_cont d
                           then (unat b mod 16 * 4096 + low6 c * 64 + low6 d) # utf8_replace r''
                           else 0xFFFD # utf8_replace r'
                       | [] \<Rightarrow> [0xFFFD])
             | [] \<Rightarrow> [0xFFFD])
          else if 0xF0 \<le> b \<and> b \<le> 0xF4 then
            (case r of
               c # r' \<Rightarrow>
                 if \<not> second_ok b c then 0xFFFD # utf8_replace r
                 else (case r' of
                         d # r'' \<Rightarrow>
                           if \<not> is_cont d then 0xFFFD # utf8_replace r'
                           else (case r'' of
                                   e # r3 \<Rightarrow> if is_cont e
                                     then (unat b mod 8 * 262144 + low6 c * 4096 + low6 d * 64 + low6 e)
                                            # utf8_replace r3
                                     else 0xFFFD # utf8_replace r''
                                 | [] \<Rightarrow> [0xFFFD])
                       | [] \<Rightarrow> [0xFFFD])
             | [] \<Rightarrow> [0xFFFD])
          else 0xFFFD # utf8_replace r)"
  by pat_completeness auto
termination
  by (relation "measure length") auto

declare utf8_replace.simps [simp del]

section \<open>Versions, GREASE and groups\<close>

definition tls_version_names :: "nat \<Rightarrow> string option" where
  "tls_version_names = map_of [(0x0300, ''SSLv3.0''), (0x0301, ''TLS1.0''), (0x0302, ''TLS1.1''),
     (0x0303, ''TLS1.2''), (0x0304, ''TLS1.3'')]"

definition version_name :: "nat option \<Rightarrow> string option" where
  "version_name v =
     (case v of
        None \<Rightarrow> None
      | Some n \<Rightarrow> (case tls_version_names n of Some s \<Rightarrow> Some s | None \<Rightarrow> Some (''0x'' @ hex4 n)))"

definition hrr_random :: bytes where
  "hrr_random = [0xCF, 0x21, 0xAD, 0x74, 0xE5, 0x9A, 0x61, 0x11, 0xBE, 0x1D, 0x8C, 0x02, 0x1E, 0x65, 0xB8, 0x91, 0xC2, 0xA2, 0x11, 0x16, 0x7A, 0xBB, 0x8C, 0x5E, 0x07, 0x9E, 0x09, 0xE2, 0xC8, 0xA8, 0x33, 0x9C]"

definition sentinel_tls12 :: bytes where
  "sentinel_tls12 = [0x44, 0x4F, 0x57, 0x4E, 0x47, 0x52, 0x44, 0x01]"

definition sentinel_tls11 :: bytes where
  "sentinel_tls11 = [0x44, 0x4F, 0x57, 0x4E, 0x47, 0x52, 0x44, 0x00]"

definition is_grease :: "nat \<Rightarrow> bool" where
  "is_grease v \<longleftrightarrow> (v AND 0x0F0F) = 0x0A0A \<and> 0x0A0A \<le> v \<and> v \<le> 0xFAFA"

definition strip_grease :: "nat list \<Rightarrow> nat list" where
  "strip_grease values = filter (\<lambda>v. \<not> is_grease v) values"

definition hybrid_pq_groups :: "nat \<Rightarrow> string option" where
  "hybrid_pq_groups = map_of [(4587, ''SecP256r1MLKEM768''), (4588, ''X25519MLKEM768''),
     (4589, ''SecP384r1MLKEM1024''), (4585, ''SecP256r1MLKEM512''), (4586, ''MLKEM512X25519'')]"

definition pure_pq_groups :: "nat \<Rightarrow> string option" where
  "pure_pq_groups = map_of [(512, ''MLKEM512''), (513, ''MLKEM768''), (514, ''MLKEM1024'')]"

definition obsolete_kyber_drafts :: "nat \<Rightarrow> string option" where
  "obsolete_kyber_drafts =
     map_of [(25497, ''X25519Kyber768Draft00''), (25498, ''SecP256r1Kyber768Draft00'')]"

definition deprecated_group :: "nat \<Rightarrow> bool" where
  "deprecated_group g \<longleftrightarrow> 1 \<le> g \<and> g < 23"

definition modern_fs_group :: "nat \<Rightarrow> bool" where
  "modern_fs_group g \<longleftrightarrow>
     g \<in> set [23, 24, 25, 29, 30, 256, 257, 258, 259, 260] \<or> hybrid_pq_groups g \<noteq> None"

definition group_name :: "nat \<Rightarrow> string" where
  "group_name gid =
     (case hybrid_pq_groups gid of
        Some n \<Rightarrow> n @ '' (hybrid PQ)''
      | None \<Rightarrow>
     (case pure_pq_groups gid of
        Some n \<Rightarrow> n @ '' (pure PQ)''
      | None \<Rightarrow>
     (case obsolete_kyber_drafts gid of
        Some n \<Rightarrow> n @ '' (obsolete draft)''
      | None \<Rightarrow>
     (case map_of [(29, ''x25519''), (30, ''x448''), (23, ''secp256r1''), (24, ''secp384r1''),
          (25, ''secp521r1''), (256, ''ffdhe2048''), (257, ''ffdhe3072''), (258, ''ffdhe4096''),
          (259, ''ffdhe6144''), (260, ''ffdhe8192'')] gid of
        Some n \<Rightarrow> n
      | None \<Rightarrow> ''0x'' @ hex4 gid))))"

definition is_pq_group :: "nat \<Rightarrow> bool" where
  "is_pq_group gid \<longleftrightarrow> hybrid_pq_groups gid \<noteq> None \<or> pure_pq_groups gid \<noteq> None"

record pq_posture =
  pq_offered :: "string list"
  pq_selected :: "string option"
  pq_offered_pq :: bool
  pq_negotiated_pq :: bool

definition pq_status :: "nat list \<Rightarrow> nat option \<Rightarrow> pq_posture" where
  "pq_status offered_groups selected_group =
     (let offered = filter (\<lambda>g. \<not> is_grease g) offered_groups;
          offered_pq = filter is_pq_group offered
      in \<lparr>pq_offered = map group_name offered,
          pq_selected = map_option group_name selected_group,
          pq_offered_pq = (offered_pq \<noteq> []),
          pq_negotiated_pq = (case selected_group of None \<Rightarrow> False | Some g \<Rightarrow> is_pq_group g)\<rparr>)"

section \<open>Handshake messages and extensions\<close>

definition hs_step :: "bytes \<Rightarrow> ((nat \<times> bytes) \<times> bytes) option" where
  "hs_step b =
     (if length b < 4 then None
      else (let mtype = unat (b ! 0); mlen = be_int (py_slice b 1 4)
            in if length (drop 4 b) < mlen then None
               else Some ((mtype, take mlen (drop 4 b)), drop mlen (drop 4 b))))"

definition keep_message :: "(nat, bytes) dict \<Rightarrow> nat \<times> bytes \<Rightarrow> (nat, bytes) dict" where
  \<comment> \<open>the first non-empty body of each type is kept\<close>
  "keep_message out m =
     (case m of (mtype, body) \<Rightarrow>
        (case dget out mtype of
           None \<Rightarrow> dset mtype body out
         | Some old \<Rightarrow> if old = [] then dset mtype body out else out))"

definition handshake_body :: "tls_record list \<Rightarrow> (nat, bytes) dict" where
  \<comment> \<open>every message takes at least four bytes, so the payload length bounds their number\<close>
  "handshake_body records =
     foldl (\<lambda>out rec. if content_type rec \<noteq> 22 then out
                      else foldl keep_message out
                             (fst (frames (length (rec_payload rec)) hs_step (rec_payload rec))))
       [] records"

definition ext_step :: "bytes \<Rightarrow> ((nat \<times> bytes) \<times> bytes) option" where
  "ext_step b =
     (if length b < 4 then None
      else (let etype = be_int (take 2 b); elen = be_int (py_slice b 2 4)
            in if length (drop 4 b) < elen then None
               else Some ((etype, take elen (drop 4 b)), drop elen (drop 4 b))))"

definition max_ext :: nat where
  "max_ext = 32"

definition parse_extensions :: "bytes \<Rightarrow> (nat \<times> bytes) list" where
  "parse_extensions exts = fst (frames max_ext ext_step exts)"

fun u16_list :: "bytes \<Rightarrow> nat list" where
  \<comment> \<open>\<open>[int.from_bytes(d[i:i+2], "big") for i in range(0, len(d) - 1, 2)]\<close>\<close>
  "u16_list (a # b # r) = be_int [a, b] # u16_list r"
| "u16_list _ = []"

definition u8_list :: "bytes \<Rightarrow> nat list" where
  "u8_list bs = map unat bs"

section \<open>ClientHello\<close>

record client_hello =
  ch_offered_versions :: "nat list"
  ch_legacy_version :: "nat option"
  ch_cipher_suites :: "nat list"
  ch_sni :: "ustr option"
  ch_alpn :: "ustr list"
  ch_supported_groups :: "nat list"
  ch_has_supported_versions :: bool
  ch_key_share_groups :: "nat list"
  ch_sig_algs :: "nat list"
  ch_psk_kex_modes :: "nat list"
  ch_early_data_offered :: bool
  ch_ech_outer :: bool
  ch_compression :: "nat list"
  ch_grease_count :: nat
  ch_extension_ids :: "nat list"
  ch_ec_point_formats :: "nat list"
  ch_raw :: bytes

definition empty_client_hello :: "bytes \<Rightarrow> client_hello" where
  "empty_client_hello data = \<lparr>ch_offered_versions = [], ch_legacy_version = None,
     ch_cipher_suites = [], ch_sni = None, ch_alpn = [], ch_supported_groups = [],
     ch_has_supported_versions = False, ch_key_share_groups = [], ch_sig_algs = [],
     ch_psk_kex_modes = [], ch_early_data_offered = False, ch_ech_outer = False,
     ch_compression = [], ch_grease_count = 0, ch_extension_ids = [], ch_ec_point_formats = [],
     ch_raw = data\<rparr>"

function alpn_loop :: "bytes \<Rightarrow> nat \<Rightarrow> nat \<Rightarrow> ustr list" where
  "alpn_loop edata stop pos =
     (if pos + 1 \<le> stop
      then (let pl = unat (edata ! pos)
            in utf8_replace (py_slice edata (pos + 1) (pos + 1 + pl)) # alpn_loop edata stop (pos + 1 + pl))
      else [])"
  by pat_completeness auto
termination
  by (relation "measure (\<lambda>(e, stop, pos). stop - pos)") auto

function key_share_loop :: "bytes \<Rightarrow> nat \<Rightarrow> nat \<Rightarrow> nat list" where
  "key_share_loop edata kend kpos =
     (if kpos + 4 \<le> kend
      then (let grp = be_int (py_slice edata kpos (kpos + 2));
                kex_len = be_int (py_slice edata (kpos + 2) (kpos + 4))
            in grp # (if kend < kpos + 4 + kex_len then []
                      else key_share_loop edata kend (kpos + 4 + kex_len)))
      else [])"
  by pat_completeness auto
termination
  by (relation "measure (\<lambda>(e, stop, pos). stop - pos)") auto

declare alpn_loop.simps [simp del] key_share_loop.simps [simp del]

definition parse_sni :: "bytes \<Rightarrow> ustr option" where
  "parse_sni edata =
     (if 5 \<le> length edata then
        (let name_list_len = be_int (take 2 edata)
         in if 2 + name_list_len \<le> length edata then
              (let ntype = unat (edata ! 2); nlen = be_int (py_slice edata 3 5)
               in if ntype = 0 \<and> 5 + nlen \<le> length edata
                  then Some (utf8_replace (py_slice edata 5 (5 + nlen))) else None)
            else None)
      else None)"

definition vec16 :: "bytes \<Rightarrow> bytes" where
  \<comment> \<open>the body of a vector with a 16-bit length, clipped to the data\<close>
  "vec16 edata = py_slice edata 2 (2 + be_int (take 2 edata))"

definition vec8 :: "bytes \<Rightarrow> bytes" where
  "vec8 edata = py_slice edata 1 (1 + unat (edata ! 0))"

definition apply_ext :: "client_hello \<Rightarrow> nat \<times> bytes \<Rightarrow> client_hello" where
  "apply_ext info e =
     (case e of (etype, edata) \<Rightarrow>
       (let info = info\<lparr>ch_extension_ids := ch_extension_ids info @ [etype]\<rparr>
        in if etype = 0 then
             (case parse_sni edata of Some s \<Rightarrow> info\<lparr>ch_sni := Some s\<rparr> | None \<Rightarrow> info)
           else if etype = 10 then
             (if 2 \<le> length edata then info\<lparr>ch_supported_groups := u16_list (vec16 edata)\<rparr> else info)
           else if etype = 16 then
             (if 2 \<le> length edata
              then info\<lparr>ch_alpn := ch_alpn info @
                     alpn_loop edata (min (2 + be_int (take 2 edata)) (length edata)) 2\<rparr>
              else info)
           else if etype = 43 then
             (let info = info\<lparr>ch_has_supported_versions := True\<rparr>
              in if 1 \<le> length edata then info\<lparr>ch_offered_versions := u16_list (vec8 edata)\<rparr> else info)
           else if etype = 13 then
             (if 2 \<le> length edata then info\<lparr>ch_sig_algs := u16_list (vec16 edata)\<rparr> else info)
           else if etype = 51 then
             (if 2 \<le> length edata
              then info\<lparr>ch_key_share_groups := ch_key_share_groups info @
                     key_share_loop edata (min (2 + be_int (take 2 edata)) (length edata)) 2\<rparr>
              else info)
           else if etype = 45 then
             (if 1 \<le> length edata then info\<lparr>ch_psk_kex_modes := u8_list (vec8 edata)\<rparr> else info)
           else if etype = 42 then info\<lparr>ch_early_data_offered := True\<rparr>
           else if etype = 0xFE0D then info\<lparr>ch_ech_outer := True\<rparr>
           else if etype = 11 then
             (if 1 \<le> length edata then info\<lparr>ch_ec_point_formats := u8_list (vec8 edata)\<rparr> else info)
           else info))"

definition count_grease :: "client_hello \<Rightarrow> nat" where
  "count_grease info = length (filter is_grease (ch_cipher_suites info @ ch_supported_groups info @
     ch_offered_versions info @ ch_key_share_groups info))"

definition parse_hello_tail :: "client_hello \<Rightarrow> bytes \<Rightarrow> client_hello res" where
  \<comment> \<open>compression methods and extensions, both optional; \<open>b\<close> starts after the cipher suites\<close>
  "parse_hello_tail info b =
     (if b = [] then Inr info
      else bindR (byte_at b 0) (\<lambda>comp_len.
        (let b = drop 1 b
         in guardR (length b < comp_len) (TlsParseError ''client hello truncated in compression'')
              (let info = info\<lparr>ch_compression := u8_list (take comp_len b)\<rparr>;
                   b = drop comp_len b
               in if length b < 2 then Inr info
                  else (let exts_len = be_int (take 2 b); b = drop 2 b
                        in guardR (length b < exts_len)
                             (TlsParseError ''client hello truncated in extensions'')
                             (let info = foldl apply_ext info (parse_extensions (take exts_len b))
                              in Inr (info\<lparr>ch_grease_count := count_grease info\<rparr>)))))))"

definition parse_client_hello :: "bytes \<Rightarrow> client_hello res" where
  "parse_client_hello data =
     guardR (length data < 2) (TlsParseError ''client hello truncated at legacy_version'')
       (let info = (empty_client_hello data)\<lparr>ch_legacy_version := Some (be_int (take 2 data))\<rparr>;
            b = drop 2 data
        in guardR (length b < 32) (TlsParseError ''client hello truncated before random'')
             (let b = drop 32 b
              in bindR (byte_at b 0) (\<lambda>sid_len.
                (let b = drop 1 b
                 in guardR (length b < sid_len) (TlsParseError ''client hello truncated in session id'')
                      (let b = drop sid_len b;
                           cs_len = be_int (take 2 b)
                       in guardR (length b < 2 + cs_len)
                            (TlsParseError ''client hello truncated in cipher suites'')
                            (parse_hello_tail
                               (info\<lparr>ch_cipher_suites := u16_list (take cs_len (drop 2 b))\<rparr>)
                               (drop (2 + cs_len) b)))))))"

section \<open>ServerHello\<close>

record server_hello =
  sh_negotiated_version :: "nat option"
  sh_legacy_version :: "nat option"
  sh_cipher_suite :: "nat option"
  sh_supported_versions_ext :: "nat option"
  sh_server_random :: bytes
  sh_selected_group :: "nat option"
  sh_is_hrr :: bool
  sh_downgrade_sentinel :: "string option"
  sh_extension_ids :: "nat list"
  sh_alpn :: "ustr list"
  sh_raw :: bytes

definition empty_server_hello :: "bytes \<Rightarrow> server_hello" where
  "empty_server_hello data = \<lparr>sh_negotiated_version = None, sh_legacy_version = None,
     sh_cipher_suite = None, sh_supported_versions_ext = None, sh_server_random = [],
     sh_selected_group = None, sh_is_hrr = False, sh_downgrade_sentinel = None,
     sh_extension_ids = [], sh_alpn = [], sh_raw = data\<rparr>"

definition note_random :: "server_hello \<Rightarrow> bytes \<Rightarrow> server_hello" where
  "note_random info rnd =
     (let info = info\<lparr>sh_server_random := rnd\<rparr>
      in if rnd = hrr_random then info\<lparr>sh_is_hrr := True\<rparr>
         else if drop 24 rnd = sentinel_tls12 then info\<lparr>sh_downgrade_sentinel := Some ''tls12''\<rparr>
         else if drop 24 rnd = sentinel_tls11 then info\<lparr>sh_downgrade_sentinel := Some ''tls11''\<rparr>
         else info)"

definition apply_server_ext :: "server_hello \<Rightarrow> nat \<times> bytes \<Rightarrow> server_hello" where
  "apply_server_ext info e =
     (case e of (etype, edata) \<Rightarrow>
       (let info = info\<lparr>sh_extension_ids := sh_extension_ids info @ [etype]\<rparr>
        in if etype = 43 \<and> length edata = 2
           then info\<lparr>sh_supported_versions_ext := Some (be_int (take 2 edata))\<rparr>
           else if etype = 51 \<and> 2 \<le> length edata
           then info\<lparr>sh_selected_group := Some (be_int (take 2 edata))\<rparr>
           else if etype = 16 \<and> 4 \<le> length edata
           then (let alen = be_int (take 2 edata); nlen = unat (edata ! 2)
                 in if 1 \<le> alen \<and> 3 + nlen \<le> length edata
                    then info\<lparr>sh_alpn := sh_alpn info @ [utf8_replace (py_slice edata 3 (3 + nlen))]\<rparr>
                    else info)
           else info))"

definition server_extensions :: "server_hello \<Rightarrow> bytes \<Rightarrow> server_hello" where
  \<comment> \<open>\<open>b\<close> starts after the cipher suite: the compression byte, then the optional extensions\<close>
  "server_extensions info b =
     (if length b < 1 then info
      else (let b = drop 1 b
            in if length b < 2 then info
               else (let exts_len = be_int (take 2 b); b = drop 2 b
                     in if length b < exts_len then info
                        else (let info = foldl apply_server_ext info (parse_extensions (take exts_len b))
                              in (case sh_supported_versions_ext info of
                                    None \<Rightarrow> info
                                  | Some v \<Rightarrow> info\<lparr>sh_negotiated_version := Some v\<rparr>)))))"

definition parse_server_hello :: "bytes \<Rightarrow> server_hello res" where
  "parse_server_hello data =
     guardR (length data < 2) (TlsParseError ''server hello truncated version'')
       (let legacy = be_int (take 2 data);
            info = (empty_server_hello data)\<lparr>sh_legacy_version := Some legacy\<rparr>;
            b = drop 2 data
        in guardR (length b < 32) (TlsParseError ''server hello truncated random'')
             (let info = note_random info (take 32 b); b = drop 32 b
              in guardR (length b < 1) (TlsParseError ''server hello truncated sid length'')
                   (bindR (byte_at b 0) (\<lambda>sid_len.
                     (let b = drop 1 b
                      in guardR (length b < sid_len) (TlsParseError ''server hello truncated sid'')
                           (let b = drop sid_len b
                            in guardR (length b < 2) (TlsParseError ''server hello truncated cipher'')
                                 (let info = info\<lparr>sh_cipher_suite := Some (be_int (take 2 b)),
                                                  sh_negotiated_version := Some legacy\<rparr>
                                  in Inr (server_extensions info (drop 2 b)))))))))"

section \<open>Certificate message\<close>

record certificate_msg =
  cm_raw_certs :: "bytes list"
  cm_tls13 :: bool

definition max_certs :: nat where
  "max_certs = 32"

function cert_loop :: "bool \<Rightarrow> bytes \<Rightarrow> nat \<Rightarrow> nat \<Rightarrow> bytes list \<Rightarrow> bytes list" where
  \<comment> \<open>the entry loop; in TLS 1.3 each entry is followed by its extensions\<close>
  "cert_loop tls13 buf end pos certs =
     (if \<not> pos < end then certs
      else if length buf < pos + 3 then certs
      else (let der_len = be_int (py_slice buf pos (pos + 3)); p = pos + 3
            in if length buf < p + der_len + (if tls13 then 2 else 0) then certs
               else (let der = py_slice buf p (p + der_len);
                         p = p + der_len;
                         p = (if tls13 then p + 2 + be_int (py_slice buf p (p + 2)) else p);
                         certs = certs @ [der]
                     in if max_certs \<le> length certs then certs
                        else cert_loop tls13 buf end p certs)))"
  by pat_completeness auto
termination
  by (relation "measure (\<lambda>(t, buf, end, pos, certs). end - pos)") auto

declare cert_loop.simps [simp del]

definition parse_certificate_message :: "bytes \<Rightarrow> bool \<Rightarrow> certificate_msg res" where
  "parse_certificate_message data is_tls13 =
     (let start = (if is_tls13 then 1 else 0)
      in guardR (length data < start + 3)
           (TlsParseError (if is_tls13 then ''tls13 cert truncated list length''
                           else ''cert truncated chain length''))
           (let list_len = be_int (py_slice data start (start + 3));
                pos = start + 3;
                certs = cert_loop is_tls13 data (min (pos + list_len) (length data)) pos []
            in guardR (certs = []) (TlsParseError ''certificate message contained no certificates'')
                 (Inr \<lparr>cm_raw_certs = certs, cm_tls13 = is_tls13\<rparr>)))"

section \<open>The cipher knowledge base\<close>

record cipher_meta =
  c_name :: string
  c_strength :: real
  c_kind :: string
  c_pfs :: bool
  c_key_len :: nat
  c_kex :: string
  c_auth :: string
  c_export_class :: "string option"

definition cipher ::
  "string \<Rightarrow> real \<Rightarrow> string \<Rightarrow> bool \<Rightarrow> nat \<Rightarrow> string \<Rightarrow> string \<Rightarrow> string option \<Rightarrow> cipher_meta" where
  "cipher n st kind p kl kex auth ec = \<lparr>c_name = n, c_strength = st, c_kind = kind, c_pfs = p,
     c_key_len = kl, c_kex = kex, c_auth = auth, c_export_class = ec\<rparr>"

definition cipher_db :: "(nat \<times> cipher_meta) list" where
  "cipher_db = [
     (0x1302, cipher ''TLS_AES_256_GCM_SHA384'' 1.0 ''aead'' True 256 ''ecdhe'' ''any-tls13'' None),
     (0x1301, cipher ''TLS_AES_128_GCM_SHA256'' 0.95 ''aead'' True 128 ''ecdhe'' ''any-tls13'' None),
     (0x1303, cipher ''TLS_CHACHA20_POLY1305_SHA256'' 0.95 ''aead'' True 256 ''ecdhe'' ''any-tls13'' None),
     (0xC030, cipher ''TLS_ECDHE_RSA_WITH_AES_256_GCM_SHA384'' 0.9 ''aead'' True 256 ''ecdhe'' ''rsa'' None),
     (0xC02F, cipher ''TLS_ECDHE_RSA_WITH_AES_128_GCM_SHA256'' 0.85 ''aead'' True 128 ''ecdhe'' ''rsa'' None),
     (0xC028, cipher ''TLS_ECDHE_RSA_WITH_AES_256_CBC_SHA384'' 0.7 ''cbc'' True 256 ''ecdhe'' ''rsa'' None),
     (0xC027, cipher ''TLS_ECDHE_RSA_WITH_AES_128_CBC_SHA256'' 0.7 ''cbc'' True 128 ''ecdhe'' ''rsa'' None),
     (0xC014, cipher ''TLS_ECDHE_RSA_WITH_AES_256_CBC_SHA'' 0.6 ''cbc'' True 256 ''ecdhe'' ''rsa'' None),
     (0xC013, cipher ''TLS_ECDHE_RSA_WITH_AES_128_CBC_SHA'' 0.6 ''cbc'' True 128 ''ecdhe'' ''rsa'' None),
     (0x009C, cipher ''TLS_RSA_WITH_AES_128_GCM_SHA256'' 0.55 ''aead'' False 128 ''rsa'' ''rsa'' None),
     (0x009D, cipher ''TLS_RSA_WITH_AES_256_GCM_SHA384'' 0.6 ''aead'' False 256 ''rsa'' ''rsa'' None),
     (0x0035, cipher ''TLS_RSA_WITH_AES_256_CBC_SHA'' 0.4 ''cbc'' False 256 ''rsa'' ''rsa'' None),
     (0x002F, cipher ''TLS_RSA_WITH_AES_128_CBC_SHA'' 0.4 ''cbc'' False 128 ''rsa'' ''rsa'' None),
     (0x000A, cipher ''TLS_RSA_WITH_3DES_EDE_CBC_SHA'' 0.25 ''cbc'' False 112 ''rsa'' ''rsa'' None),
     (0x0005, cipher ''TLS_RSA_WITH_RC4_128_SHA'' 0.05 ''stream'' False 128 ''rsa'' ''rsa'' (Some ''rc4'')),
     (0x0004, cipher ''TLS_RSA_WITH_RC4_128_MD5'' 0.05 ''stream'' False 128 ''rsa'' ''rsa'' (Some ''rc4'')),
     (0x0003, cipher ''TLS_RSA_EXPORT_WITH_RC4_40_MD5'' 0.0 ''stream'' False 40 ''rsa'' ''rsa'' (Some ''export'')),
     (0x0002, cipher ''TLS_RSA_EXPORT_WITH_RC2_CBC_40_MD5'' 0.0 ''cbc'' False 40 ''rsa'' ''rsa'' (Some ''export'')),
     (0x0000, cipher ''TLS_NULL_WITH_NULL_NULL'' 0.0 ''none'' False 0 ''rsa'' ''rsa'' (Some ''null'')),
     (0x0001, cipher ''TLS_RSA_WITH_NULL_MD5'' 0.0 ''none'' False 0 ''rsa'' ''rsa'' (Some ''null'')),
     (0x000B, cipher ''TLS_DH_DSS_WITH_3DES_EDE_CBC_SHA'' 0.25 ''cbc'' True 112 ''dhe'' ''dss'' None),
     (0x0039, cipher ''TLS_DHE_RSA_WITH_AES_256_CBC_SHA'' 0.55 ''cbc'' True 256 ''dhe'' ''rsa'' None),
     (0x0033, cipher ''TLS_DHE_RSA_WITH_AES_128_CBC_SHA'' 0.55 ''cbc'' True 128 ''dhe'' ''rsa'' None),
     (0x0038, cipher ''TLS_DHE_DSS_WITH_AES_256_CBC_SHA'' 0.55 ''cbc'' True 256 ''dhe'' ''dss'' None),
     (0x0032, cipher ''TLS_DHE_DSS_WITH_AES_128_CBC_SHA'' 0.55 ''cbc'' True 128 ''dhe'' ''dss'' None),
     (0xC02B, cipher ''TLS_ECDHE_ECDSA_WITH_AES_128_GCM_SHA256'' 0.85 ''aead'' True 128 ''ecdhe'' ''ecdsa'' None),
     (0xC02C, cipher ''TLS_ECDHE_ECDSA_WITH_AES_256_GCM_SHA384'' 0.9 ''aead'' True 256 ''ecdhe'' ''ecdsa'' None)]"

definition lookup_cipher :: "nat \<Rightarrow> cipher_meta option" where
  "lookup_cipher iana = map_of cipher_db iana"


section \<open>The wire formats and their encoders\<close>

definition enc_ext :: "nat \<times> bytes \<Rightarrow> bytes" where
  "enc_ext e = (case e of (t, d) \<Rightarrow> enc16 t @ enc16 (length d) @ d)"

definition ext_ok :: "nat \<times> bytes \<Rightarrow> bool" where
  "ext_ok e \<longleftrightarrow> fst e < 65536 \<and> length (snd e) < 65536"

definition enc_msg :: "nat \<times> bytes \<Rightarrow> bytes" where
  "enc_msg m = (case m of (t, d) \<Rightarrow> of_nat t # enc24 (length d) @ d)"

definition msg_ok :: "nat \<times> bytes \<Rightarrow> bool" where
  "msg_ok m \<longleftrightarrow> fst m < 256 \<and> length (snd m) < 16777216"

definition enc_u16s :: "nat list \<Rightarrow> bytes" where
  "enc_u16s vs = concat (map enc16 vs)"

lemma length_ge_4E:
  assumes "4 \<le> length bs"
  obtains a b c d r where "bs = a # b # c # d # r"
  using assms by (metis Suc_le_length_iff numeral_eq_Suc pred_numeral_simps(2) pred_numeral_simps(3)
      eval_nat_numeral(3) BitM.simps)

lemma cons_slices:
  "take 2 (a # b # r) = [a, b]"
  "drop 4 (a # b # c # d # r) = r"
  "py_slice (a # b # c # d # r) 2 4 = [c, d]"
  "py_slice (a # b # c # d # r) (Suc 0) 4 = [b, c, d]"
  by (simp_all add: py_slice_def numeral_eq_Suc)

lemma ext_step_Cons:
  "ext_step (a # b # c # d # r) =
     (if length r < be_int [c, d] then None
      else Some ((be_int [a, b], take (be_int [c, d]) r), drop (be_int [c, d]) r))"
  by (simp add: ext_step_def cons_slices Let_def del: be_int_2)

lemma hs_step_Cons:
  "hs_step (a # b # c # d # r) =
     (if length r < be_int [b, c, d] then None
      else Some ((unat a, take (be_int [b, c, d]) r), drop (be_int [b, c, d]) r))"
  by (simp add: hs_step_def cons_slices Let_def del: be_int_3)

lemma enc24_be_int:
  "enc24 (be_int [a, b, c]) = [a, b, c]"
proof -
  have n: "be_int [a, b, c] = 256 * (256 * unat a + unat b) + unat c" by simp
  have d: "(256 * m + unat x) div 256 = m" for m and x :: byte
    using unat_byte_lt [of x] by linarith
  have w: "(of_nat (256 * m + unat x) :: byte) = x" for m and x :: byte
    by (simp only: word_unat_eq_iff unat_of_nat_byte mod_mult_self4) simp
  have q: "k div 65536 = k div 256 div 256" for k :: nat
    using div_mult2_eq [of k 256 256] by simp
  have "be_int [a, b, c] div 256 = 256 * unat a + unat b"
    by (simp only: n d)
  moreover have "be_int [a, b, c] div 65536 = unat a"
    by (simp only: q n d)
  ultimately show ?thesis
    by (simp only: enc24_def byte_of_unat w n)
qed

lemma be_int_3_lt: "be_int [a, b, c] < 16777216"
  using be_int_lt [of "[a, b, c]"] by (simp only: length_Cons list.size) simp

interpretation ext: framing enc_ext ext_ok ext_step
proof (unfold_locales, goal_cases)
  case (1 x rest)
  then obtain t d where x: "x = (t, d)" "t < 65536" "length d < 65536"
    by (cases x) (auto simp: ext_ok_def)
  have "be_int [of_nat (t div 256), of_nat t] = t"
    using be_int_enc16 [OF x(2)] by (simp only: enc16_def)
  moreover have "be_int [of_nat (length d div 256), of_nat (length d)] = length d"
    using be_int_enc16 [OF x(3)] by (simp only: enc16_def)
  ultimately show ?case
    by (simp only: x enc_ext_def prod.case enc16_def append_Cons append_Nil ext_step_Cons) simp
next
  case (2 bs x rest)
  then have "4 \<le> length bs" by (auto simp: ext_step_def split: if_splits)
  then obtain a b c d r where bs: "bs = a # b # c # d # r" by (rule length_ge_4E)
  let ?n = "be_int [c, d]"
  from 2 have n: "?n \<le> length r" and x: "x = (be_int [a, b], take ?n r)" "rest = drop ?n r"
    unfolding bs ext_step_Cons by (auto split: if_splits simp del: be_int_2)
  have "enc16 (be_int [a, b]) = [a, b]" "enc16 ?n = [c, d]"
    by (simp_all add: enc16_be_int del: be_int_2)
  then show ?case
    using be_int_2_lt n by (simp add: x bs enc_ext_def ext_ok_def min_absorb2 del: be_int_2)
qed

interpretation hs: framing enc_msg msg_ok hs_step
proof (unfold_locales, goal_cases)
  case (1 x rest)
  then obtain t d where x: "x = (t, d)" "t < 256" "length d < 16777216"
    by (cases x) (auto simp: msg_ok_def)
  have "be_int (enc24 (length d)) = length d"
    by (rule be_int_enc24 [OF x(3)])
  then have "be_int [of_nat (length d div 65536), of_nat (length d div 256), of_nat (length d)] = length d"
    by (simp only: enc24_def)
  then show ?case
    using x(2) by (simp add: x(1) enc_msg_def enc24_def hs_step_Cons unat_of_nat_byte del: be_int_3)
next
  case (2 bs x rest)
  then have "4 \<le> length bs" by (auto simp: hs_step_def split: if_splits)
  then obtain a b c d r where bs: "bs = a # b # c # d # r" by (rule length_ge_4E)
  let ?n = "be_int [b, c, d]"
  from 2 have n: "?n \<le> length r" and x: "x = (unat a, take ?n r)" "rest = drop ?n r"
    unfolding bs hs_step_Cons by (auto split: if_splits simp del: be_int_3)
  show ?case
    using be_int_3_lt n
    by (simp add: x bs enc_msg_def msg_ok_def min_absorb2 enc24_be_int del: be_int_3)
qed

section \<open>What a ClientHello says, independently of its bytes\<close>

datatype hello_item =
    Sni bytes
  | Groups "nat list"
  | Alpn "bytes list"
  | Versions "nat list"
  | SigAlgs "nat list"
  | KeyShares "(nat \<times> bytes) list"
  | PskModes bytes
  | EarlyData bytes
  | Ech bytes
  | PointFormats bytes
  | Other nat bytes

record hello =
  h_version :: nat
  h_random :: bytes
  h_session :: bytes
  h_suites :: "nat list"
  h_compression :: bytes
  h_exts :: "hello_item list"

definition enc_vec8 :: "bytes \<Rightarrow> bytes" where
  "enc_vec8 d = of_nat (length d) # d"

definition enc_vec16 :: "bytes \<Rightarrow> bytes" where
  "enc_vec16 d = enc16 (length d) @ d"

definition enc_alpn :: "bytes list \<Rightarrow> bytes" where
  "enc_alpn ps = concat (map enc_vec8 ps)"

definition enc_shares :: "(nat \<times> bytes) list \<Rightarrow> bytes" where
  "enc_shares ks = concat (map enc_ext ks)"

fun enc_item :: "hello_item \<Rightarrow> nat \<times> bytes" where
  "enc_item (Sni n) = (0, enc_vec16 (0 # enc_vec16 n))"
| "enc_item (Groups gs) = (10, enc_vec16 (enc_u16s gs))"
| "enc_item (Alpn ps) = (16, enc_vec16 (enc_alpn ps))"
| "enc_item (Versions vs) = (43, enc_vec8 (enc_u16s vs))"
| "enc_item (SigAlgs as) = (13, enc_vec16 (enc_u16s as))"
| "enc_item (KeyShares ks) = (51, enc_vec16 (enc_shares ks))"
| "enc_item (PskModes d) = (45, enc_vec8 d)"
| "enc_item (EarlyData d) = (42, d)"
| "enc_item (Ech d) = (0xFE0D, d)"
| "enc_item (PointFormats d) = (11, enc_vec8 d)"
| "enc_item (Other t d) = (t, d)"

fun item_fits :: "hello_item \<Rightarrow> bool" where
  "item_fits (Groups gs) \<longleftrightarrow> list_all (\<lambda>v. v < 65536) gs"
| "item_fits (Alpn ps) \<longleftrightarrow> list_all (\<lambda>p. length p < 256) ps"
| "item_fits (Versions vs) \<longleftrightarrow> list_all (\<lambda>v. v < 65536) vs \<and> length vs < 128"
| "item_fits (SigAlgs as) \<longleftrightarrow> list_all (\<lambda>v. v < 65536) as"
| "item_fits (KeyShares ks) \<longleftrightarrow> list_all ext_ok ks"
| "item_fits (PskModes d) \<longleftrightarrow> length d < 256"
| "item_fits (PointFormats d) \<longleftrightarrow> length d < 256"
| "item_fits (Other t d) \<longleftrightarrow> t \<notin> set [0, 10, 11, 13, 16, 42, 43, 45, 51, 0xFE0D]"
| "item_fits _ \<longleftrightarrow> True"

fun view_item :: "client_hello \<Rightarrow> hello_item \<Rightarrow> client_hello" where
  "view_item i (Sni n) = i\<lparr>ch_sni := Some (utf8_replace n)\<rparr>"
| "view_item i (Groups gs) = i\<lparr>ch_supported_groups := gs\<rparr>"
| "view_item i (Alpn ps) = i\<lparr>ch_alpn := ch_alpn i @ map utf8_replace ps\<rparr>"
| "view_item i (Versions vs) = i\<lparr>ch_has_supported_versions := True, ch_offered_versions := vs\<rparr>"
| "view_item i (SigAlgs as) = i\<lparr>ch_sig_algs := as\<rparr>"
| "view_item i (KeyShares ks) = i\<lparr>ch_key_share_groups := ch_key_share_groups i @ map fst ks\<rparr>"
| "view_item i (PskModes d) = i\<lparr>ch_psk_kex_modes := map unat d\<rparr>"
| "view_item i (EarlyData d) = i\<lparr>ch_early_data_offered := True\<rparr>"
| "view_item i (Ech d) = i\<lparr>ch_ech_outer := True\<rparr>"
| "view_item i (PointFormats d) = i\<lparr>ch_ec_point_formats := map unat d\<rparr>"
| "view_item i (Other t d) = i"

definition note_item :: "client_hello \<Rightarrow> hello_item \<Rightarrow> client_hello" where
  "note_item i x = view_item (i\<lparr>ch_extension_ids := ch_extension_ids i @ [fst (enc_item x)]\<rparr>) x"

definition enc_hello :: "hello \<Rightarrow> bytes" where
  "enc_hello h = enc16 (h_version h) @ h_random h @ enc_vec8 (h_session h) @
     enc_vec16 (enc_u16s (h_suites h)) @ enc_vec8 (h_compression h) @
     enc_vec16 (concat (map (enc_ext \<circ> enc_item) (h_exts h)))"

definition hello_ok :: "hello \<Rightarrow> bool" where
  "hello_ok h \<longleftrightarrow> h_version h < 65536 \<and> length (h_random h) = 32 \<and> length (h_session h) < 256 \<and>
     list_all (\<lambda>v. v < 65536) (h_suites h) \<and> 2 * length (h_suites h) < 65536 \<and>
     length (h_compression h) < 256 \<and> length (h_exts h) \<le> max_ext \<and>
     list_all item_fits (h_exts h) \<and>
     list_all (ext_ok \<circ> enc_item) (h_exts h) \<and>
     length (concat (map (enc_ext \<circ> enc_item) (h_exts h))) < 65536"

definition hello_view :: "hello \<Rightarrow> client_hello" where
  \<comment> \<open>the record the parser has to report\<close>
  "hello_view h =
     (let i = foldl note_item
            ((empty_client_hello (enc_hello h))\<lparr>ch_legacy_version := Some (h_version h),
               ch_cipher_suites := h_suites h, ch_compression := map unat (h_compression h)\<rparr>)
            (h_exts h)
      in i\<lparr>ch_grease_count := count_grease i\<rparr>)"

section \<open>Reading back what was encoded\<close>

lemma length_enc_u16s [simp]: "length (enc_u16s vs) = 2 * length vs"
  by (induction vs) (simp_all add: enc_u16s_def)

lemma u16_list_enc: "list_all (\<lambda>v. v < 65536) vs \<Longrightarrow> u16_list (enc_u16s vs) = vs"
proof (induction vs)
  case Nil
  then show ?case by (simp add: enc_u16s_def)
next
  case (Cons v vs)
  have "u16_list (enc_u16s (v # vs)) = be_int (enc16 v) # u16_list (enc_u16s vs)"
    by (simp add: enc_u16s_def enc16_def)
  with Cons show ?case by (simp add: be_int_enc16)
qed

lemma enc_vec16_cut:
  assumes "length d < 65536"
  shows "be_int (take 2 (enc_vec16 d @ r)) = length d" "drop 2 (enc_vec16 d @ r) = d @ r"
  using assms by (simp_all add: enc_vec16_def be_int_enc16)

lemma vec16_enc: "length d < 65536 \<Longrightarrow> vec16 (enc_vec16 d) = d"
  using enc_vec16_cut [of d "[]"] by (simp add: vec16_def py_slice_def)

lemma unat_length: "length d < 256 \<Longrightarrow> unat (of_nat (length d) :: byte) = length d"
  by (simp add: unat_of_nat_byte)

lemma vec8_enc: "length d < 256 \<Longrightarrow> vec8 (enc_vec8 d) = d"
  by (simp add: vec8_def py_slice_def enc_vec8_def unat_length)

lemma length_enc_vec [simp]:
  "length (enc_vec8 d) = Suc (length d)" "length (enc_vec16 d) = 2 + length d"
  by (simp_all add: enc_vec8_def enc_vec16_def)

lemma length_enc_ext [simp]: "length (enc_ext (t, d)) = 4 + length d"
  by (simp add: enc_ext_def)

lemma alpn_loop_enc:
  "list_all (\<lambda>p. length p < 256) ps \<Longrightarrow>
   alpn_loop (pre @ enc_alpn ps) (length pre + length (enc_alpn ps)) (length pre) = map utf8_replace ps"
proof (induction ps arbitrary: pre)
  case Nil
  then show ?case by (simp add: enc_alpn_def alpn_loop.simps)
next
  case (Cons p ps)
  let ?q = "pre @ enc_vec8 p"
  have e: "pre @ enc_alpn (p # ps) = ?q @ enc_alpn ps"
    by (simp add: enc_alpn_def)
  have "alpn_loop (?q @ enc_alpn ps) (length ?q + length (enc_alpn ps)) (length ?q) = map utf8_replace ps"
    using Cons.IH [of ?q] Cons.prems by simp
  moreover have "(?q @ enc_alpn ps) ! length pre = of_nat (length p)"
    by (simp add: enc_vec8_def)
  moreover have "py_slice (?q @ enc_alpn ps) (length pre + 1) (length pre + 1 + length p) = p"
    by (simp add: py_slice_def enc_vec8_def)
  ultimately show ?case
    using Cons.prems unfolding e
    by (subst alpn_loop.simps) (simp add: unat_length enc_alpn_def add_ac)
qed

lemma key_share_loop_enc:
  "list_all ext_ok ks \<Longrightarrow>
   key_share_loop (pre @ enc_shares ks) (length pre + length (enc_shares ks)) (length pre) = map fst ks"
proof (induction ks arbitrary: pre)
  case Nil
  then show ?case by (simp add: enc_shares_def key_share_loop.simps)
next
  case (Cons k ks)
  obtain t d where k: "k = (t, d)" by (cases k)
  let ?q = "pre @ enc_ext k"
  have e: "pre @ enc_shares (k # ks) = ?q @ enc_shares ks"
    by (simp add: enc_shares_def)
  have "key_share_loop (?q @ enc_shares ks) (length ?q + length (enc_shares ks)) (length ?q) = map fst ks"
    using Cons.IH [of ?q] Cons.prems by simp
  moreover have "py_slice (?q @ enc_shares ks) (length pre) (length pre + 2) = enc16 t"
    "py_slice (?q @ enc_shares ks) (length pre + 2) (length pre + 4) = enc16 (length d)"
    by (simp_all add: py_slice_def k enc_ext_def)
  moreover have "be_int (enc16 t) = t" "be_int (enc16 (length d)) = length d"
    using Cons.prems by (simp_all add: k ext_ok_def be_int_enc16)
  ultimately show ?case
    unfolding e by (subst key_share_loop.simps) (simp add: Let_def k enc_shares_def add_ac)
qed

lemma parse_sni_enc:
  "length n + 3 < 65536 \<Longrightarrow> parse_sni (enc_vec16 (0 # enc_vec16 n)) = Some (utf8_replace n)"
proof -
  assume n: "length n + 3 < 65536"
  let ?e = "enc_vec16 (0 # enc_vec16 n)"
  have five: "py_slice (a # b # c # d # e # r) 3 5 = [d, e]" "(a # b # c # d # e # r) ! 2 = c"
    "py_slice (a # b # c # d # e # r) 5 (5 + k) = take k r" for a b c d e :: byte and r k
    by (simp_all add: py_slice_def take_Cons')
  have "be_int (take 2 ?e) = 3 + length n"
    using enc_vec16_cut(1) [of "0 # enc_vec16 n" "[]"] n by simp
  moreover obtain a b where ab: "enc16 (length (0 # enc_vec16 n)) = [a, b]" by (simp add: enc16_def)
  obtain c d where cd: "enc16 (length n) = [c, d]" by (simp add: enc16_def)
  have "?e = a # b # 0 # c # d # n"
    using ab cd by (simp add: enc_vec16_def)
  then have "py_slice ?e 3 5 = enc16 (length n)" "?e ! 2 = 0" "py_slice ?e 5 (5 + length n) = n"
    by (simp_all only: five cd take_all order_refl)
  ultimately show ?thesis
    using n by (simp add: parse_sni_def be_int_enc16)
qed

lemma apply_ext_enc:
  assumes "item_fits x" and "ext_ok (enc_item x)"
  shows "apply_ext i (enc_item x) = note_item i x"
proof (cases x)
  case (Sni n)
  with assms show ?thesis by (simp add: apply_ext_def note_item_def ext_ok_def parse_sni_enc)
next
  case (Alpn ps)
  let ?d = "enc_alpn ps"
  have "length ?d < 65536" using assms(2) Alpn by (simp add: ext_ok_def)
  moreover have "alpn_loop (enc16 (length ?d) @ ?d) (2 + length ?d) 2 = map utf8_replace ps"
    using alpn_loop_enc [of ps "enc16 (length ?d)"] assms(1) Alpn by simp
  ultimately show ?thesis
    using Alpn enc_vec16_cut(1) [of ?d "[]"]
    by (simp add: apply_ext_def note_item_def enc_vec16_def)
next
  case (KeyShares ks)
  let ?d = "enc_shares ks"
  have "length ?d < 65536" using assms(2) KeyShares by (simp add: ext_ok_def)
  moreover have "key_share_loop (enc16 (length ?d) @ ?d) (2 + length ?d) 2 = map fst ks"
    using key_share_loop_enc [of ks "enc16 (length ?d)"] assms(1) KeyShares by simp
  ultimately show ?thesis
    using KeyShares enc_vec16_cut(1) [of ?d "[]"]
    by (simp add: apply_ext_def note_item_def enc_vec16_def)
next
  case (Versions vs)
  with assms show ?thesis
    by (simp add: apply_ext_def note_item_def ext_ok_def vec8_enc u16_list_enc)
qed (use assms in \<open>simp_all add: apply_ext_def note_item_def ext_ok_def vec16_enc vec8_enc u16_list_enc
       u8_list_def\<close>)

lemma fold_apply_ext_enc:
  "list_all item_fits xs \<Longrightarrow> list_all (ext_ok \<circ> enc_item) xs \<Longrightarrow>
   foldl apply_ext i (map enc_item xs) = foldl note_item i xs"
  by (induction xs arbitrary: i) (simp_all add: apply_ext_enc)

lemma parse_extensions_enc:
  assumes "list_all (ext_ok \<circ> enc_item) xs" and "length xs \<le> max_ext"
  shows "parse_extensions (concat (map (enc_ext \<circ> enc_item) xs)) = map enc_item xs"
  using ext.frames_enc_all [of "map enc_item xs" max_ext] assms
  by (simp add: parse_extensions_def ext_step_def list_all_iff)

lemma enc_vec8_Cons: "enc_vec8 d @ r = of_nat (length d) # d @ r"
  by (simp add: enc_vec8_def)

lemma parse_hello_tail_enc:
  assumes "length cm < 256" and "length ed < 65536"
  shows "parse_hello_tail info (enc_vec8 cm @ enc_vec16 ed) =
     (let i = foldl apply_ext (info\<lparr>ch_compression := map unat cm\<rparr>) (parse_extensions ed)
      in Inr (i\<lparr>ch_grease_count := count_grease i\<rparr>))"
  using assms enc_vec16_cut [of ed "[]"]
  by (simp add: parse_hello_tail_def enc_vec8_Cons byte_at_def unat_length u8_list_def Let_def)

section \<open>Certificate entries\<close>

definition enc_cert :: "bool \<Rightarrow> bytes \<times> bytes \<Rightarrow> bytes" where
  "enc_cert tls13 e =
     enc24 (length (fst e)) @ fst e @ (if tls13 then enc_vec16 (snd e) else [])"

definition cert_fits :: "bytes \<times> bytes \<Rightarrow> bool" where
  "cert_fits e \<longleftrightarrow> length (fst e) < 16777216 \<and> length (snd e) < 65536"

definition enc_cert_msg :: "bool \<Rightarrow> (bytes \<times> bytes) list \<Rightarrow> bytes" where
  "enc_cert_msg tls13 es =
     (let body = concat (map (enc_cert tls13) es)
      in (if tls13 then [0] else []) @ enc24 (length body) @ body)"

lemma length_enc_cert [simp]:
  "length (enc_cert tls13 e) = 3 + length (fst e) + (if tls13 then 2 + length (snd e) else 0)"
  by (simp add: enc_cert_def)

lemma cert_loop_step:
  assumes "cert_fits e" and "length certs < max_certs"
  shows "cert_loop tls13 (pre @ enc_cert tls13 e @ post) (length (pre @ enc_cert tls13 e @ post))
           (length pre) certs =
    (if Suc (length certs) = max_certs then certs @ [fst e]
     else cert_loop tls13 (pre @ enc_cert tls13 e @ post) (length (pre @ enc_cert tls13 e @ post))
            (length (pre @ enc_cert tls13 e)) (certs @ [fst e]))"
proof -
  let ?buf = "pre @ enc_cert tls13 e @ post"
  have "py_slice ?buf (length pre) (length pre + 3) = enc24 (length (fst e))"
    by (simp add: py_slice_def enc_cert_def)
  then have 1: "be_int (py_slice ?buf (length pre) (length pre + 3)) = length (fst e)"
    using assms(1) by (simp add: cert_fits_def be_int_enc24)
  have "py_slice ?buf (length pre + 3) (length pre + 3 + length (fst e)) = fst e"
    by (simp add: py_slice_def enc_cert_def)
  then have 2: "p = length pre + 3 \<Longrightarrow> q = p + length (fst e) \<Longrightarrow> py_slice ?buf p q = fst e" for p q
    by simp
  have "py_slice ?buf (length pre + 3 + length (fst e)) (length pre + 3 + length (fst e) + 2) =
      enc16 (length (snd e))" if tls13
    using that by (simp add: py_slice_def enc_cert_def enc_vec16_def)
  then have 3: "tls13 \<Longrightarrow> p = length pre + 3 + length (fst e) \<Longrightarrow> q = p + 2 \<Longrightarrow>
      be_int (py_slice ?buf p q) = length (snd e)" for p q
    using assms(1) by (simp add: cert_fits_def be_int_enc16)
  show ?thesis
    using assms(2) 1 2 3
    by (cases tls13) (subst cert_loop.simps, simp add: Let_def add_ac del: append_assoc)+
qed

lemma cert_loop_enc:
  "list_all cert_fits es \<Longrightarrow> length certs < max_certs \<Longrightarrow>
   cert_loop tls13 (pre @ concat (map (enc_cert tls13) es))
     (length (pre @ concat (map (enc_cert tls13) es))) (length pre) certs =
   certs @ take (max_certs - length certs) (map fst es)"
proof (induction es arbitrary: pre certs)
  case Nil
  then show ?case by (simp add: cert_loop.simps)
next
  case (Cons e es)
  let ?q = "pre @ enc_cert tls13 e"
  have e: "pre @ concat (map (enc_cert tls13) (e # es)) =
      pre @ enc_cert tls13 e @ concat (map (enc_cert tls13) es)" by simp
  have "Suc (length certs) \<noteq> max_certs \<Longrightarrow>
      cert_loop tls13 (?q @ concat (map (enc_cert tls13) es))
        (length (?q @ concat (map (enc_cert tls13) es))) (length ?q) (certs @ [fst e]) =
      (certs @ [fst e]) @ take (max_certs - length (certs @ [fst e])) (map fst es)"
    using Cons.prems by (intro Cons.IH) auto
  moreover have "max_certs - length certs = Suc (max_certs - Suc (length certs))"
    using Cons.prems(2) by simp
  ultimately show ?case
    unfolding e using Cons.prems by (subst cert_loop_step) simp_all
qed

lemma parse_client_hello_enc:
  assumes "hello_ok h"
  shows "parse_client_hello (enc_hello h) = Inr (hello_view h)"
proof -
  let ?ed = "concat (map (enc_ext \<circ> enc_item) (h_exts h))"
  let ?tail = "enc_vec8 (h_compression h) @ enc_vec16 ?ed"
  let ?suites = "enc_u16s (h_suites h)"
  let ?b = "enc_vec8 (h_session h) @ enc_vec16 ?suites @ ?tail"
  have e: "enc_hello h = enc16 (h_version h) @ h_random h @ ?b"
    by (simp add: enc_hello_def)
  have v: "be_int (take 2 (enc_hello h)) = h_version h" "drop 2 (enc_hello h) = h_random h @ ?b"
    using assms by (simp_all add: e be_int_enc16 hello_ok_def)
  have "drop 32 (h_random h @ ?b) = ?b" "\<not> length (h_random h @ ?b) < 32" "\<not> length (enc_hello h) < 2"
    using assms by (simp_all add: hello_ok_def e)
  then show ?thesis
    unfolding parse_client_hello_def v Let_def
    using assms enc_vec16_cut [of ?suites ?tail]
    by (simp add: hello_ok_def enc_vec8_Cons [of "h_session h"] byte_at_def unat_length u16_list_enc
        parse_hello_tail_enc hello_view_def parse_extensions_enc fold_apply_ext_enc Let_def)
qed

text \<open>C2: A ClientHello is read back exactly: for every well-formed hello (any version, random, session
  id, cipher suites, compression methods and up to 32 extensions, of every kind the parser knows and any
  other), the record the parser returns for its encoding is the one the hello denotes, every field, the
  extension order and the GREASE count included.\<close>
theorem client_hello_roundtrip:
  assumes "hello_ok h"
  shows "parse_client_hello (enc_hello h) = Inr (hello_view h)"
  using assms by (rule parse_client_hello_enc)

definition sample_hello :: hello where
  "sample_hello = \<lparr>h_version = 0x0303, h_random = replicate 32 7, h_session = [1],
     h_suites = [0x1301, 0x0A0A], h_compression = [0],
     h_exts = [Sni (ascii ''mx''), Other 0x1A1A [], Versions [0x0304], KeyShares [(29, [5])]]\<rparr>"

theorem client_hello_roundtrip_witness:
  "parse_client_hello (enc_hello sample_hello) = Inr (hello_view sample_hello)"
  by (rule client_hello_roundtrip)
    (simp add: sample_hello_def hello_ok_def max_ext_def ext_ok_def enc_u16s_def enc_shares_def
       ascii_def)

lemma length_34E:
  assumes "\<not> length (data :: bytes) < 2" and "\<not> length (drop 2 data) < 32"
  shows "byte_at (drop 32 (drop 2 data)) 0 = Inl IndexError \<longleftrightarrow> length data = 34"
  using assms by (auto simp: byte_at_def)

lemma parse_hello_tail_error: "parse_hello_tail info b = Inl e \<Longrightarrow> \<exists>m. e = TlsParseError m"
  by (auto simp: parse_hello_tail_def byte_at_def guardR_def Let_def split: if_splits)

lemma client_hello_34: "length data = 34 \<Longrightarrow> parse_client_hello data = Inl IndexError"
  by (simp add: parse_client_hello_def guardR_def Let_def byte_at_def)

lemma client_hello_error:
  assumes "parse_client_hello data = Inl e"
  shows "length data = 34 \<and> e = IndexError \<or> (\<exists>m. e = TlsParseError m)"
  using assms parse_hello_tail_error
  unfolding parse_client_hello_def Let_def guardR_eq_Inl bindR_eq_Inl byte_at_def
  by (elim disjE conjE exE) (auto split: if_splits)

text \<open>The ClientHello parser lets Python's own \<open>IndexError\<close> escape on exactly one kind of input: a
  hello of 34 bytes, version and random with nothing behind them. On every other input it returns or
  raises the documented parse error.\<close>
theorem client_hello_index_error:
  "case parse_client_hello data of
     Inl IndexError \<Rightarrow> length data = 34
   | Inl (TlsParseError _) \<Rightarrow> length data \<noteq> 34
   | Inl _ \<Rightarrow> False
   | Inr _ \<Rightarrow> length data \<noteq> 34"
  using client_hello_34 [of data] client_hello_error [of data]
  by (cases "parse_client_hello data") auto

lemma server_hello_error: "parse_server_hello data = Inl e \<Longrightarrow> \<exists>m. e = TlsParseError m"
  unfolding parse_server_hello_def Let_def guardR_eq_Inl bindR_eq_Inl byte_at_def
  by (elim disjE conjE exE) (auto split: if_splits)

lemma apply_server_ext_keeps:
  "sh_server_random (apply_server_ext i e) = sh_server_random i"
  "sh_is_hrr (apply_server_ext i e) = sh_is_hrr i"
  "sh_downgrade_sentinel (apply_server_ext i e) = sh_downgrade_sentinel i"
  "sh_legacy_version (apply_server_ext i e) = sh_legacy_version i"
  "sh_negotiated_version (apply_server_ext i e) = sh_negotiated_version i"
  by (simp_all add: apply_server_ext_def Let_def split: prod.split)

lemma fold_server_ext_keeps:
  "sh_server_random (foldl apply_server_ext i es) = sh_server_random i"
  "sh_is_hrr (foldl apply_server_ext i es) = sh_is_hrr i"
  "sh_downgrade_sentinel (foldl apply_server_ext i es) = sh_downgrade_sentinel i"
  "sh_legacy_version (foldl apply_server_ext i es) = sh_legacy_version i"
  "sh_negotiated_version (foldl apply_server_ext i es) = sh_negotiated_version i"
  by (induction es arbitrary: i) (simp_all add: apply_server_ext_keeps)

lemma server_extensions_keeps:
  "sh_server_random (server_extensions i b) = sh_server_random i"
  "sh_is_hrr (server_extensions i b) = sh_is_hrr i"
  "sh_downgrade_sentinel (server_extensions i b) = sh_downgrade_sentinel i"
  "sh_legacy_version (server_extensions i b) = sh_legacy_version i"
  by (simp_all add: server_extensions_def fold_server_ext_keeps Let_def split: option.split)

lemma server_extensions_version:
  assumes "sh_negotiated_version i = sh_legacy_version i" and "sh_supported_versions_ext i = None"
  shows "sh_negotiated_version (server_extensions i b) =
     (case sh_supported_versions_ext (server_extensions i b) of
        None \<Rightarrow> sh_legacy_version i | Some v \<Rightarrow> Some v)"
  using assms by (simp add: server_extensions_def fold_server_ext_keeps Let_def split: option.split)

lemma parse_server_hello_Inr:
  assumes "parse_server_hello data = Inr sh"
  obtains i b where "sh = server_extensions i b" "sh_negotiated_version i = sh_legacy_version i"
    "sh_supported_versions_ext i = None" "sh_server_random i = py_slice data 2 34"
    "sh_is_hrr i = sh_is_hrr (note_random (empty_server_hello data) (py_slice data 2 34))"
    "sh_downgrade_sentinel i =
       sh_downgrade_sentinel (note_random (empty_server_hello data) (py_slice data 2 34))"
  using assms
  by (auto simp: parse_server_hello_def guardR_def Let_def bindR_eq_Inr note_random_def
      empty_server_hello_def py_slice_def intro!: that split: if_splits)

lemma sentinels_not_hrr:
  "drop 24 hrr_random \<noteq> sentinel_tls12" "drop 24 hrr_random \<noteq> sentinel_tls11"
  by (simp_all add: hrr_random_def sentinel_tls12_def sentinel_tls11_def)

text \<open>The ServerHello parser never indexes outside the message: it either raises the parse error or
  returns a record in which the negotiated version is the one of the supported_versions extension where
  the server sent it and the legacy version otherwise, and in which the retry flag and the downgrade
  sentinel exclude one another and are read off the 32 random bytes.\<close>
theorem parse_server_hello_result:
  "case parse_server_hello data of
     Inl e \<Rightarrow> (\<exists>m. e = TlsParseError m)
   | Inr sh \<Rightarrow>
       sh_negotiated_version sh =
         (case sh_supported_versions_ext sh of None \<Rightarrow> sh_legacy_version sh | Some v \<Rightarrow> Some v) \<and>
       sh_server_random sh = py_slice data 2 34 \<and>
       sh_is_hrr sh = (py_slice data 2 34 = hrr_random) \<and>
       sh_downgrade_sentinel sh =
         (if drop 24 (py_slice data 2 34) = sentinel_tls12 then Some ''tls12''
          else if drop 24 (py_slice data 2 34) = sentinel_tls11 then Some ''tls11'' else None)"
proof (cases "parse_server_hello data")
  case (Inl e)
  then have "\<exists>m. e = TlsParseError m" by (rule server_hello_error)
  with Inl show ?thesis by simp
next
  case (Inr sh)
  then obtain i b where i: "sh = server_extensions i b"
    "sh_negotiated_version i = sh_legacy_version i" "sh_supported_versions_ext i = None"
    "sh_server_random i = py_slice data 2 34"
    "sh_is_hrr i = sh_is_hrr (note_random (empty_server_hello data) (py_slice data 2 34))"
    "sh_downgrade_sentinel i =
       sh_downgrade_sentinel (note_random (empty_server_hello data) (py_slice data 2 34))"
    by (rule parse_server_hello_Inr)
  have "sh_negotiated_version sh =
      (case sh_supported_versions_ext sh of None \<Rightarrow> sh_legacy_version sh | Some v \<Rightarrow> Some v)"
    using server_extensions_version [OF i(2, 3)] by (simp only: i(1) server_extensions_keeps)
  moreover have "sh_server_random sh = py_slice data 2 34"
    by (simp only: i(1, 4) server_extensions_keeps)
  moreover have "sh_is_hrr sh = (py_slice data 2 34 = hrr_random)"
    by (simp add: i(1, 5) server_extensions_keeps note_random_def empty_server_hello_def Let_def)
  moreover have "sh_downgrade_sentinel sh =
      (if drop 24 (py_slice data 2 34) = sentinel_tls12 then Some ''tls12''
       else if drop 24 (py_slice data 2 34) = sentinel_tls11 then Some ''tls11'' else None)"
    using sentinels_not_hrr
    by (simp add: i(1, 6) server_extensions_keeps note_random_def empty_server_hello_def Let_def)
  ultimately show ?thesis
    by (simp only: Inr sum.case simp_thms)
qed

section \<open>Collecting handshake messages\<close>

definition body_of :: "nat \<Rightarrow> (nat \<times> bytes) list \<Rightarrow> bytes option" where
  \<comment> \<open>the first non-empty body of a message of type \<open>t\<close>; the empty body if there are only empty ones\<close>
  "body_of t ms =
     (case filter (\<lambda>m. fst m = t \<and> snd m \<noteq> []) ms of
        m # _ \<Rightarrow> Some (snd m)
      | [] \<Rightarrow> if t \<in> fst ` set ms then Some [] else None)"

definition carries :: "tls_record \<Rightarrow> (nat \<times> bytes) list \<Rightarrow> bool" where
  \<comment> \<open>the whole messages of a record: none in a record of another type, and whatever follows the last
     one is a message cut short\<close>
  "carries r ms \<longleftrightarrow>
     (if content_type r \<noteq> 22 then ms = []
      else list_all msg_ok ms \<and>
           (\<exists>tail. rec_payload r = concat (map enc_msg ms) @ tail \<and> hs_step tail = None))"

lemma body_of_Cons:
  "body_of t (m # ms) =
     (if fst m = t then if snd m \<noteq> [] then Some (snd m)
        else (case body_of t ms of None \<Rightarrow> Some [] | Some b \<Rightarrow> Some b)
      else body_of t ms)"
  by (auto simp: body_of_def split: list.splits)

lemma dget_keep_message:
  "dget (keep_message out m) t =
     (if fst m = t \<and> (dget out t = None \<or> dget out t = Some []) then Some (snd m) else dget out t)"
  by (auto simp: keep_message_def split: option.split prod.split)

lemma fold_keep_message:
  "dget (foldl keep_message out ms) t =
     (if dget out t = None then body_of t ms
      else if dget out t = Some [] then
        (case body_of t ms of None \<Rightarrow> Some [] | Some b \<Rightarrow> Some b)
      else dget out t)"
proof (induction ms arbitrary: out)
  case Nil
  then show ?case by (simp add: body_of_def)
next
  case (Cons m ms)
  show ?case
    by (auto simp: Cons.IH body_of_Cons dget_keep_message split: option.split)
qed

lemma length_concat_msgs: "length ms \<le> length (concat (map enc_msg ms))"
  by (induction ms) (auto simp: enc_msg_def split: prod.split)

lemma carries_messages:
  assumes "carries r ms" and "content_type r = 22"
  shows "fst (frames (length (rec_payload r)) hs_step (rec_payload r)) = ms"
proof -
  from assms obtain tail where r: "rec_payload r = concat (map enc_msg ms) @ tail"
    "hs_step tail = None" "list_all msg_ok ms"
    by (auto simp: carries_def)
  then have "length ms \<le> length (rec_payload r)"
    using length_concat_msgs [of ms] by simp
  from hs.frames_enc [OF r(3) this, of tail] r show ?thesis
    by (simp add: frames_None)
qed

lemma handshake_body_fold:
  "list_all2 carries rs mss \<Longrightarrow>
   foldl (\<lambda>out rec. if content_type rec \<noteq> 22 then out
                    else foldl keep_message out
                           (fst (frames (length (rec_payload rec)) hs_step (rec_payload rec)))) out rs =
   foldl keep_message out (concat mss)"
proof (induction rs mss arbitrary: out rule: list_all2_induct)
  case Nil
  then show ?case by simp
next
  case (Cons r rs ms mss)
  then show ?case
    using carries_messages [of r ms] by (cases "content_type r = 22") (auto simp: carries_def)
qed

lemma handshake_body_messages:
  assumes "list_all2 carries rs mss"
  shows "dget (handshake_body rs) t = body_of t (concat mss)"
  unfolding handshake_body_def handshake_body_fold [OF assms] by (simp add: fold_keep_message)

text \<open>Over any sequence of records, the handshake collector maps each message type to the first
  non-empty body of that type among the complete messages of the handshake records, and to the empty
  body when only empty ones came; cut-off messages and records of other types contribute nothing.\<close>
theorem handshake_body_first:
  assumes "list_all2 carries rs mss"
  shows "dget (handshake_body rs) t = body_of t (concat mss)"
  using assms by (rule handshake_body_messages)

theorem handshake_body_first_witness:
  "dget (handshake_body [\<lparr>content_type = 22, rec_version = 0x0303, rec_payload = [1, 0, 0, 1, 9, 2, 0]\<rparr>]) 1
     = body_of 1 (concat [[(1, [9])]])"
  by (rule handshake_body_first)
    (auto simp: carries_def msg_ok_def enc_msg_def enc24_def hs_step_def intro!: exI [of _ "[2, 0]"])

section \<open>GREASE and the cipher table\<close>

lemma grease_wider_than_rfc: "is_grease 0x0A1A" "is_grease 0x1A2A"
  by (simp_all add: is_grease_def)

lemma cipher_db_distinct: "distinct (map fst cipher_db)"
  by (simp add: cipher_db_def)

lemma static_dh_claims_pfs:
  "map_option c_kex (lookup_cipher 0x000B) = Some ''dhe'' \<and>
   map_option c_pfs (lookup_cipher 0x000B) = Some True"
  by (simp add: lookup_cipher_def cipher_db_def cipher_def)

lemma pq_group_is_forward_secret: "hybrid_pq_groups g \<noteq> None \<Longrightarrow> modern_fs_group g"
  by (simp add: modern_fs_group_def)

text \<open>A Certificate message of TLS 1.2 or 1.3 is read back: the parser returns the DER bodies of the
  first 32 entries, in order, whatever extensions a TLS 1.3 entry carries.\<close>
theorem certificate_message_roundtrip:
  assumes "es \<noteq> []" and "list_all cert_fits es"
    and "length (concat (map (enc_cert tls13) es)) < 16777216"
  shows "parse_certificate_message (enc_cert_msg tls13 es) tls13 =
    Inr \<lparr>cm_raw_certs = take 32 (map fst es), cm_tls13 = tls13\<rparr>"
proof -
  let ?body = "concat (map (enc_cert tls13) es)"
  let ?pre = "(if tls13 then [0] else []) @ enc24 (length ?body)"
  define d where "d = enc_cert_msg tls13 es"
  define st :: nat where "st = (if tls13 then 1 else 0)"
  have d: "d = ?pre @ ?body" and n: "length ?pre = st + 3"
    by (simp_all add: d_def st_def enc_cert_msg_def Let_def)
  have "py_slice d st (st + 3) = enc24 (length ?body)"
    by (simp add: d st_def py_slice_def)
  then have b: "be_int (py_slice d st (st + 3)) = length ?body"
    using assms(3) by (simp add: be_int_enc24)
  have len: "length d = st + 3 + length ?body"
    by (simp only: d length_append [of ?pre] n)
  have c: "cert_loop tls13 d (length d) (st + 3) [] = take 32 (map fst es)"
    using cert_loop_enc [of es "[]" tls13 ?pre] assms(2) unfolding d [symmetric] n
    by (simp add: max_certs_def)
  then show ?thesis
    unfolding parse_certificate_message_def st_def [symmetric] d_def [symmetric] Let_def b
    using assms(1) by (simp add: len)
qed

theorem certificate_message_roundtrip_witness:
  "parse_certificate_message (enc_cert_msg True [([1, 2], [9]), ([3], [])]) True =
     Inr \<lparr>cm_raw_certs = [[1, 2], [3]], cm_tls13 = True\<rparr>"
  using certificate_message_roundtrip [of "[([1, 2], [9]), ([3], [])]" True]
  by (simp add: cert_fits_def)

end
