(* ===== verification/Rules.thy ===== *)
theory Rules
  imports Interfaces Certificates Handshake
begin

text \<open>
  The rules engine (src/backend/app/parsing/rules.py): every rule is a function on the session
  analysis that may append a finding, \<open>run_rules\<close> runs them in the source's order. A finding keeps its
  rule id, rule name, severity, title and evidence; its fixed prose (description, reference) is not
  modelled. \<open>now\<close> is the clock of the certificate checks.
\<close>

section \<open>Severities and findings\<close>

datatype severity = INFO | LOW | MEDIUM | HIGH | CRITICAL

definition sev_str :: "severity \<Rightarrow> string" where
  "sev_str s = (case s of INFO \<Rightarrow> ''info'' | LOW \<Rightarrow> ''low'' | MEDIUM \<Rightarrow> ''medium'' | HIGH \<Rightarrow> ''high''
     | CRITICAL \<Rightarrow> ''critical'')"

definition sev_rank :: "severity \<Rightarrow> nat" where
  "sev_rank s = (case s of INFO \<Rightarrow> 0 | LOW \<Rightarrow> 1 | MEDIUM \<Rightarrow> 2 | HIGH \<Rightarrow> 3 | CRITICAL \<Rightarrow> 4)"

lemma sev_rank_inj: "sev_rank a = sev_rank b \<longleftrightarrow> a = b"
  by (cases a; cases b) (simp_all add: sev_rank_def)

instantiation severity :: linorder
begin

definition less_eq_severity :: "severity \<Rightarrow> severity \<Rightarrow> bool" where
  "less_eq_severity a b \<longleftrightarrow> sev_rank a \<le> sev_rank b"

definition less_severity :: "severity \<Rightarrow> severity \<Rightarrow> bool" where
  "less_severity a b \<longleftrightarrow> sev_rank a < sev_rank b"

instance
  by standard (auto simp: less_eq_severity_def less_severity_def sev_rank_inj)

end

datatype evidence = EvS string | EvU ustr | EvN nat | EvR real | EvL "string list" | EvNs "nat list" | EvTime "int option"
  | EvNone

record finding =
  f_rule_id :: string
  f_rule_name :: string
  f_severity :: severity
  f_title :: string
  f_evidence :: "(string \<times> evidence) list"

definition max_severity :: "finding list \<Rightarrow> severity option" where
  \<comment> \<open>\<open>max\<close> keeps the first of several maximal elements\<close>
  "max_severity fs =
     (case fs of
        [] \<Rightarrow> None
      | f # r \<Rightarrow> Some (foldl (\<lambda>m g. if sev_rank m < sev_rank (f_severity g) then f_severity g else m)
                        (f_severity f) r))"

section \<open>The session analysis\<close>

record visibility =
  v_tls13 :: bool
  v_cert_chain :: string
  v_sni :: string
  v_hrr :: bool
  v_offered_groups :: "nat list"
  v_selected_group :: "nat option"
  v_ja4 :: "string option"
  v_ja4s :: "string option"

record session_analysis =
  sa_session_id :: string
  sa_protocol :: string
  sa_five_tuple :: string
  sa_is_starttls :: bool
  sa_tls_version :: "nat option"
  sa_version_name :: "string option"
  sa_cipher :: "string option"
  sa_cipher_meta :: "cipher_meta option"
  sa_cipher_iana :: "nat option"
  sa_cipher_strength :: "real option"
  sa_client_hello :: "client_hello option"
  sa_server_hello :: "server_hello option"
  sa_certificate :: "certificate_msg option"
  sa_certs :: "cert_analysis list"
  sa_chain_result :: string
  sa_chain_error :: ustr
  sa_started_tls :: bool
  sa_tls_bytes :: nat
  sa_plaintext_bytes :: nat
  sa_implicit_port :: bool
  sa_port :: nat
  sa_saw_starttls :: bool
  sa_visibility :: "visibility option"
  sa_pq :: "pq_posture option"
  sa_ja3 :: "string option"
  sa_ja3s :: "string option"
  sa_findings :: "finding list"
  sa_not_observable :: "string list"

definition new_analysis :: "string \<Rightarrow> string \<Rightarrow> string \<Rightarrow> bool \<Rightarrow> session_analysis" where
  "new_analysis session_id protocol five_tuple is_starttls = \<lparr>sa_session_id = session_id,
     sa_protocol = protocol, sa_five_tuple = five_tuple, sa_is_starttls = is_starttls,
     sa_tls_version = None, sa_version_name = None, sa_cipher = None, sa_cipher_meta = None,
     sa_cipher_iana = None, sa_cipher_strength = None, sa_client_hello = None, sa_server_hello = None,
     sa_certificate = None, sa_certs = [], sa_chain_result = ''no-cert'', sa_chain_error = [],
     sa_started_tls = False, sa_tls_bytes = 0, sa_plaintext_bytes = 0, sa_implicit_port = False,
     sa_port = 0, sa_saw_starttls = False, sa_visibility = None, sa_pq = None, sa_ja3 = None,
     sa_ja3s = None, sa_findings = [], sa_not_observable = []\<rparr>"

definition sa_add ::
  "session_analysis \<Rightarrow> string \<Rightarrow> string \<Rightarrow> severity \<Rightarrow> string \<Rightarrow> (string \<times> evidence) list
   \<Rightarrow> session_analysis" where
  "sa_add sa rule_id rule_name sev title ev = sa\<lparr>sa_findings := sa_findings sa @
     [\<lparr>f_rule_id = rule_id, f_rule_name = rule_name, f_severity = sev, f_title = title,
       f_evidence = ev\<rparr>]\<rparr>"

definition opt_text :: "string option \<Rightarrow> string" where
  "opt_text s = (case s of None \<Rightarrow> ''None'' | Some t \<Rightarrow> t)"

definition opt_ev :: "string option \<Rightarrow> evidence" where
  "opt_ev s = (case s of None \<Rightarrow> EvNone | Some t \<Rightarrow> EvS t)"

definition iana_ev :: "session_analysis \<Rightarrow> evidence" where
  "iana_ev sa = EvS (hex0x (case sa_cipher_iana sa of None \<Rightarrow> 0 | Some n \<Rightarrow> n))"

section \<open>Certificate observability\<close>

definition cert_rule_ids :: "string list" where
  "cert_rule_ids = [''expired-certificate'', ''certificate-not-yet-valid'', ''self-signed-certificate'',
     ''untrusted-certificate-chain'', ''weak-signature-algorithm'', ''short-public-key'']"

definition certs_usable :: "session_analysis \<Rightarrow> bool" where
  "certs_usable sa \<longleftrightarrow>
     list_ex (\<lambda>c. ca_not_before c \<noteq> None \<and>
       ca_subject_cn c \<notin> set [[], ''<unparseable>'', ''<oid missing>'']) (sa_certs sa)"

definition require_usable_certs :: "session_analysis \<Rightarrow> string \<Rightarrow> bool \<times> session_analysis" where
  "require_usable_certs sa rule_id =
     (if certs_usable sa then (True, sa)
      else if (case sa_visibility sa of None \<Rightarrow> False | Some v \<Rightarrow> v_tls13 v)
      then (False, if rule_id \<notin> set (sa_not_observable sa)
                   then sa\<lparr>sa_not_observable := sa_not_observable sa @ [rule_id]\<rparr> else sa)
      else (True, sa))"

definition for_certs ::
  "(nat \<Rightarrow> cert_analysis \<Rightarrow> session_analysis \<Rightarrow> session_analysis) \<Rightarrow> session_analysis \<Rightarrow> session_analysis" where
  \<comment> \<open>\<open>for ci, cert in enumerate(sa.certs)\<close>\<close>
  "for_certs body sa = foldl (\<lambda>sa (ci, c). body ci c sa) sa (enumerate 0 (sa_certs sa))"

section \<open>Version and cipher rules\<close>

definition weak_versions :: "nat \<Rightarrow> (string \<times> severity) option" where
  "weak_versions = map_of [(0x0300, (''SSLV3'', CRITICAL)), (0x0301, (''TLS1.0'', HIGH)),
     (0x0302, (''TLS1.1'', HIGH))]"

definition dot_to_dash :: "string \<Rightarrow> string" where
  "dot_to_dash s = map (\<lambda>c. if c = CHR ''.'' then CHR ''-'' else c) s"

definition rule_deprecated_version :: "session_analysis \<Rightarrow> session_analysis" where
  "rule_deprecated_version sa =
     (case Option.bind (sa_tls_version sa) weak_versions of
        None \<Rightarrow> sa
      | Some (name, sev) \<Rightarrow>
          sa_add sa (''tls-version-'' @ dot_to_dash (str_lower name))
            (''Deprecated TLS version: '' @ name) sev (name @ '' negotiated'')
            [(''negotiated_version'', opt_ev (version_name (sa_tls_version sa))),
             (''raw'', EvS (hex0x (the (sa_tls_version sa))))])"

definition rule_non_aead_cipher :: "session_analysis \<Rightarrow> session_analysis" where
  "rule_non_aead_cipher sa =
     (case sa_cipher_meta sa of
        None \<Rightarrow> sa
      | Some m \<Rightarrow>
          if c_kind m \<in> set [''cbc'', ''stream'']
          then sa_add sa ''non-aead-bulk-cipher'' ''Non-AEAD bulk cipher''
                 (if c_kind m = ''cbc'' then LOW else MEDIUM)
                 (opt_text (sa_cipher sa) @ '' uses legacy bulk encryption'')
                 [(''cipher'', opt_ev (sa_cipher sa)), (''kind'', EvS (c_kind m))]
          else sa)"

definition category_strength :: "string \<Rightarrow> (string \<times> severity) option" where
  "category_strength = map_of [(''export'', (''export-grade cipher'', CRITICAL)),
     (''null'', (''null encryption cipher'', CRITICAL)), (''rc4'', (''RC4 stream cipher'', HIGH)),
     (''des'', (''legacy 3DES'', MEDIUM)), (''stream'', (''stream cipher'', MEDIUM)),
     (''cbc'', (''CBC-mode cipher'', LOW)), (''aead'', (''AEAD cipher'', INFO))]"

definition rule_weak_cipher :: "session_analysis \<Rightarrow> session_analysis" where
  "rule_weak_cipher sa =
     (case sa_cipher_meta sa of
        None \<Rightarrow> sa
      | Some m \<Rightarrow>
          if c_export_class m \<in> set [Some ''export'', Some ''null'', Some ''rc4''] then sa
          else if c_kind m \<notin> set [''cbc'', ''stream''] then sa
          else (case category_strength (c_kind m) of
                  None \<Rightarrow> sa
                | Some (cat, sev) \<Rightarrow>
                    (let sev = (if c_strength m \<le> 0.3
                                then (if c_key_len m \<le> 56 then CRITICAL else MEDIUM) else sev)
                     in sa_add sa ''weak-cipher-suite'' ''Weak cipher suite'' sev
                          (opt_text (sa_cipher sa) @ '' classified '' @ cat)
                          [(''cipher'', opt_ev (sa_cipher sa)), (''iana'', iana_ev sa),
                           (''strength'', EvR (c_strength m)), (''key_len'', EvN (c_key_len m))])))"

definition rule_non_pfs :: "session_analysis \<Rightarrow> session_analysis" where
  "rule_non_pfs sa =
     (case sa_cipher_meta sa of
        None \<Rightarrow> sa
      | Some m \<Rightarrow>
          if \<not> c_pfs m
          then sa_add sa ''non-pfs-key-exchange'' ''No forward secrecy (PFS)'' MEDIUM
                 (opt_text (sa_cipher sa) @ '' uses static key exchange'')
                 [(''cipher'', opt_ev (sa_cipher sa)), (''kex'', EvS (c_kex m))]
          else sa)"

definition rule_export_cipher :: "session_analysis \<Rightarrow> session_analysis" where
  "rule_export_cipher sa =
     (case sa_cipher_meta sa of
        None \<Rightarrow> sa
      | Some m \<Rightarrow>
          if c_export_class m = Some ''export''
          then sa_add sa ''export-grade-cipher'' ''Export-grade cipher suite'' CRITICAL
                 ''Export cipher suite negotiated''
                 [(''cipher'', opt_ev (sa_cipher sa)), (''iana'', iana_ev sa)]
          else sa)"

definition cipher_mentions :: "string \<Rightarrow> session_analysis \<Rightarrow> bool" where
  "cipher_mentions pat sa \<longleftrightarrow> sa_cipher_meta sa \<noteq> None \<and>
     contains pat (case sa_cipher sa of None \<Rightarrow> [] | Some c \<Rightarrow> c)"

definition rule_rc4 :: "session_analysis \<Rightarrow> session_analysis" where
  "rule_rc4 sa =
     (if cipher_mentions ''RC4'' sa
      then sa_add sa ''rc4-cipher'' ''RC4 cipher suite'' HIGH ''RC4 negotiated''
             [(''cipher'', opt_ev (sa_cipher sa))]
      else sa)"

definition rule_3des :: "session_analysis \<Rightarrow> session_analysis" where
  "rule_3des sa =
     (if cipher_mentions ''3DES'' sa
      then sa_add sa ''3des-cipher'' ''3DES cipher suite'' MEDIUM ''3DES negotiated''
             [(''cipher'', opt_ev (sa_cipher sa))]
      else sa)"

definition rule_unknown_cipher :: "session_analysis \<Rightarrow> session_analysis" where
  "rule_unknown_cipher sa =
     (case sa_cipher_iana sa of
        Some (Suc n) \<Rightarrow>
          if sa_cipher_meta sa = None
          then sa_add sa ''unknown-cipher-suite'' ''Unrecognized cipher suite'' MEDIUM
                 (''Cipher suite 0x'' @ hex4 (Suc n) @ '' not in knowledge base'')
                 [(''cipher_iana'', iana_ev sa)]
          else sa
      | _ \<Rightarrow> sa)"

section \<open>Certificate rules\<close>

definition rule_cert_expired :: "int \<Rightarrow> session_analysis \<Rightarrow> session_analysis" where
  "rule_cert_expired now sa =
     (case require_usable_certs sa ''expired-certificate'' of
        (False, sa) \<Rightarrow> sa
      | (True, sa) \<Rightarrow>
          for_certs (\<lambda>ci c sa.
            if \<not> cert_expired now c then sa
            else sa_add sa ''expired-certificate'' ''Expired certificate'' HIGH
                   ''Certificate in chain is expired''
                   [(''subject'', EvS (ca_subject_cn c)), (''index'', EvN ci),
                    (''not_after'', EvTime (ca_not_after c))]) sa)"

definition rule_cert_not_yet_valid :: "int \<Rightarrow> session_analysis \<Rightarrow> session_analysis" where
  "rule_cert_not_yet_valid now sa =
     (case require_usable_certs sa ''certificate-not-yet-valid'' of
        (False, sa) \<Rightarrow> sa
      | (True, sa) \<Rightarrow>
          for_certs (\<lambda>ci c sa.
            if cert_not_yet_valid now c
            then sa_add sa ''certificate-not-yet-valid'' ''Certificate not yet valid'' MEDIUM
                   ''Certificate start date is in the future''
                   [(''subject'', EvS (ca_subject_cn c)), (''index'', EvN ci)]
            else sa) sa)"

definition rule_cert_self_signed :: "session_analysis \<Rightarrow> session_analysis" where
  "rule_cert_self_signed sa =
     (case require_usable_certs sa ''self-signed-certificate'' of
        (False, sa) \<Rightarrow> sa
      | (True, sa) \<Rightarrow>
          for_certs (\<lambda>ci c sa.
            if ca_self_signed c \<and> ci = 0
            then sa_add sa ''self-signed-certificate'' ''Self-signed certificate'' MEDIUM
                   ''Leaf certificate is self-signed'' [(''subject'', EvS (ca_subject_cn c))]
            else sa) sa)"

definition rule_chain_untrusted :: "session_analysis \<Rightarrow> session_analysis" where
  "rule_chain_untrusted sa =
     (case require_usable_certs sa ''untrusted-certificate-chain'' of
        (False, sa) \<Rightarrow> sa
      | (True, sa) \<Rightarrow>
          if sa_chain_result sa \<in> set [''untrusted'', ''invalid-sig'', ''hostname-mismatch'', ''expired'',
               ''not-yet-valid'', ''parse-error'']
          then sa_add sa ''untrusted-certificate-chain'' ''Untrusted certificate chain''
                 (if sa_chain_result sa \<in> set [''hostname-mismatch'', ''parse-error''] then MEDIUM else HIGH)
                 (''Chain validation failed: '' @ sa_chain_result sa)
                 [(''result'', EvS (sa_chain_result sa)), (''detail'', EvU (sa_chain_error sa))]
          else sa)"

definition rule_weak_signature :: "session_analysis \<Rightarrow> session_analysis" where
  "rule_weak_signature sa =
     (case require_usable_certs sa ''weak-signature-algorithm'' of
        (False, sa) \<Rightarrow> sa
      | (True, sa) \<Rightarrow>
          for_certs (\<lambda>ci c sa.
            if weak_signature c
            then sa_add sa ''weak-signature-algorithm'' ''Weak signature algorithm on certificate'' HIGH
                   (''Certificate signed with '' @ ca_signature_alg c)
                   [(''subject'', EvS (ca_subject_cn c)), (''algorithm'', EvS (ca_signature_alg c)),
                    (''index'', EvN ci)]
            else sa) sa)"

definition rule_short_key :: "session_analysis \<Rightarrow> session_analysis" where
  "rule_short_key sa =
     (case require_usable_certs sa ''short-public-key'' of
        (False, sa) \<Rightarrow> sa
      | (True, sa) \<Rightarrow>
          for_certs (\<lambda>ci c sa.
            if short_key c
            then sa_add sa ''short-public-key'' ''Short public key size'' HIGH
                   (''Certificate public key only '' @
                    (case ca_pubkey_bits c of None \<Rightarrow> ''None'' | Some b \<Rightarrow> dec_of b) @ '' bits'')
                   [(''subject'', EvS (ca_subject_cn c)), (''algorithm'', EvS (ca_pubkey_alg c)),
                    (''bits'', case ca_pubkey_bits c of None \<Rightarrow> EvNone | Some b \<Rightarrow> EvN b)]
            else sa) sa)"

section \<open>Plaintext and STARTTLS rules\<close>

definition rule_ssl_in_plaintext :: "session_analysis \<Rightarrow> session_analysis" where
  "rule_ssl_in_plaintext sa =
     (if \<not> sa_started_tls sa \<and> sa_tls_bytes sa = 0 \<and> 0 < sa_plaintext_bytes sa
      then sa_add sa ''plaintext-mail-protocol'' ''Plaintext mail session (no TLS)'' HIGH
             ''Email credentials/messages sent in cleartext''
             [(''plaintext_bytes'', EvN (sa_plaintext_bytes sa))]
      else sa)"

definition rule_starttls_strip :: "session_analysis \<Rightarrow> session_analysis" where
  "rule_starttls_strip sa =
     (if sa_saw_starttls sa \<and> \<not> sa_started_tls sa \<and> sa_tls_bytes sa = 0
      then sa_add sa ''starttls-strip-attempt'' ''Possible STARTTLS stripping'' CRITICAL
             ''STARTTLS advertised but no handshake followed''
             [(''plaintext_continuation_bytes'', EvN (sa_plaintext_bytes sa))]
      else sa)"

definition rule_no_tls_on_tls_port :: "session_analysis \<Rightarrow> session_analysis" where
  "rule_no_tls_on_tls_port sa =
     (if sa_implicit_port sa \<and> \<not> sa_started_tls sa \<and> sa_tls_bytes sa = 0 \<and> 0 < sa_plaintext_bytes sa
      then sa_add sa ''no-tls-on-implicit-port'' ''No TLS on implicit-TLS port'' CRITICAL
             (''Port '' @ dec_of (sa_port sa) @ '' expects TLS but none seen'')
             [(''port'', EvN (sa_port sa))]
      else sa)"

definition rule_handshake_incomplete :: "session_analysis \<Rightarrow> session_analysis" where
  "rule_handshake_incomplete sa =
     (if sa_started_tls sa \<and> sa_client_hello sa = None
      then sa_add sa ''tls-handshake-incomplete'' ''TLS handshake incomplete/opaque'' MEDIUM
             ''TLS records present but no ClientHello parsed'' []
      else sa)"

section \<open>Hello rules\<close>

definition list_max :: "nat list \<Rightarrow> nat" where
  \<comment> \<open>\<open>max(xs)\<close> of a non-empty list\<close>
  "list_max xs = foldl max (hd xs) (tl xs)"

definition rule_no_client_hello_pfs_capability :: "session_analysis \<Rightarrow> session_analysis" where
  "rule_no_client_hello_pfs_capability sa =
     (case sa_client_hello sa of
        None \<Rightarrow> sa
      | Some ch \<Rightarrow>
          (case sa_tls_version sa of
             None \<Rightarrow> sa
           | Some v \<Rightarrow>
               if v \<noteq> 0 \<and> v < 0x0304 \<and>
                  \<not> list_ex (\<lambda>cs. case lookup_cipher cs of None \<Rightarrow> False | Some m \<Rightarrow> c_pfs m)
                      (ch_cipher_suites ch)
               then sa_add sa ''client-no-pfs-suites'' ''Client offers no forward-secrecy suites'' LOW
                      ''ClientHello advertises no ECDHE/DHE cipher suites''
                      [(''offered'', EvL (map hex0x (ch_cipher_suites ch)))]
               else sa))"

definition rule_alpn_missing :: "session_analysis \<Rightarrow> session_analysis" where
  \<comment> \<open>defined in the source, but not part of \<open>ALL_RULES\<close>\<close>
  "rule_alpn_missing sa =
     (case sa_client_hello sa of
        None \<Rightarrow> sa
      | Some ch \<Rightarrow>
          if ch_alpn ch = [] \<and> sa_tls_version sa = Some 0x0304
          then sa_add sa ''alpn-not-negotiated'' ''ALPN not used'' INFO ''No ALPN protocol negotiated'' []
          else sa)"

definition has_modern :: "client_hello \<Rightarrow> bool" where
  "has_modern ch \<longleftrightarrow> list_ex modern_fs_group (strip_grease (ch_supported_groups ch))"

definition rule_legacy_groups :: "session_analysis \<Rightarrow> session_analysis" where
  "rule_legacy_groups sa =
     (case sa_client_hello sa of
        None \<Rightarrow> sa
      | Some ch \<Rightarrow>
          (let offered = filter deprecated_group (strip_grease (ch_supported_groups ch));
               selected = Option.bind (sa_server_hello sa) sh_selected_group
           in if (case selected of None \<Rightarrow> False | Some g \<Rightarrow> deprecated_group g)
              then sa_add sa ''deprecated-group-negotiated'' ''Deprecated key-exchange group negotiated'' HIGH
                     (''Deprecated group '' @ group_name (the selected) @ '' negotiated'')
                     [(''group'', EvS (group_name (the selected)))]
              else if offered \<noteq> []
              then sa_add sa ''deprecated-group-offered''
                     (if \<not> has_modern ch then ''Client offers only deprecated groups''
                      else ''Client offers deprecated groups'')
                     (if \<not> has_modern ch then MEDIUM else LOW) ''Deprecated groups in ClientHello''
                     [(''groups'', EvL (map group_name offered))]
              else sa))"

definition rule_no_modern_pfs_group :: "session_analysis \<Rightarrow> session_analysis" where
  "rule_no_modern_pfs_group sa =
     (case sa_client_hello sa of
        None \<Rightarrow> sa
      | Some ch \<Rightarrow>
          if ch_supported_groups ch = [] then sa
          else (let offered = strip_grease (ch_supported_groups ch)
                in if offered \<noteq> [] \<and> \<not> list_ex modern_fs_group offered
                   then sa_add sa ''no-modern-pfs-group'' ''No modern forward-secrecy group offered'' MEDIUM
                          ''Client offers no modern PFS-capable group''
                          [(''offered'', EvL (map group_name offered))]
                   else sa))"

definition best_offer :: "client_hello option \<Rightarrow> nat option" where
  "best_offer ch =
     (case ch of
        None \<Rightarrow> None
      | Some c \<Rightarrow> if ch_offered_versions c = [] then None else Some (list_max (ch_offered_versions c)))"

definition rule_downgrade_sentinel :: "session_analysis \<Rightarrow> session_analysis" where
  "rule_downgrade_sentinel sa =
     (case Option.bind (sa_server_hello sa) sh_downgrade_sentinel of
        None \<Rightarrow> sa
      | Some sentinel \<Rightarrow>
          (case (best_offer (sa_client_hello sa), sa_tls_version sa) of
             (Some best, Some v) \<Rightarrow>
               if v < best
               then sa_add sa ''downgrade-attack-detected'' ''TLS downgrade attack detected'' CRITICAL
                      ''Server downgrade sentinel with higher version offered'' [(''sentinel'', EvS sentinel)]
               else sa
           | _ \<Rightarrow> sa))"

definition rule_hrr_anomaly :: "session_analysis \<Rightarrow> session_analysis" where
  "rule_hrr_anomaly sa =
     (case sa_server_hello sa of
        None \<Rightarrow> sa
      | Some sh \<Rightarrow>
          if \<not> sh_is_hrr sh then sa
          else (let offered = (case sa_client_hello sa of None \<Rightarrow> []
                               | Some ch \<Rightarrow> strip_grease (ch_supported_groups ch))
                in (case sh_selected_group sh of
                      None \<Rightarrow> sa
                    | Some g \<Rightarrow>
                        if offered \<noteq> [] \<and> g \<notin> set offered
                        then sa_add sa ''hrr-group-mismatch'' ''HelloRetryRequest selects unoffered group'' MEDIUM
                               ''HRR requests a group the client never offered'' [(''selected'', EvS (group_name g))]
                        else sa)))"

definition rule_tls_version_downgrade :: "session_analysis \<Rightarrow> session_analysis" where
  "rule_tls_version_downgrade sa =
     (case (best_offer (sa_client_hello sa), sa_tls_version sa) of
        (Some best, Some v) \<Rightarrow>
          if best \<le> v then sa
          else if v \<le> 0x0302 \<and> 0x0303 \<le> best
          then sa_add sa ''tls-version-downgrade-suspected'' ''Negotiated version below best offer'' HIGH
                 ''Server negotiated below the client's best offer''
                 [(''offered'', EvS (hex0x best)), (''negotiated'', EvS (hex0x v))]
          else if v = 0x0303 \<and> best = 0x0304
          then sa_add sa ''tls13-not-negotiated'' ''TLS 1.3 offered but 1.2 negotiated'' INFO
                 ''Server does not negotiate TLS 1.3'' []
          else sa
      | _ \<Rightarrow> sa)"

definition rule_ech_present :: "session_analysis \<Rightarrow> session_analysis" where
  "rule_ech_present sa =
     (case sa_client_hello sa of
        None \<Rightarrow> sa
      | Some ch \<Rightarrow>
          if ch_ech_outer ch
          then sa_add sa ''ech-observed'' ''Encrypted Client Hello in use'' INFO
                 ''ECH outer ClientHello observed''
                 [(''outer_sni'', case ch_sni ch of None \<Rightarrow> EvNone | Some s \<Rightarrow> EvU s)]
          else sa)"

definition rule_outdated_client_stack :: "session_analysis \<Rightarrow> session_analysis" where
  "rule_outdated_client_stack sa =
     (case sa_client_hello sa of
        None \<Rightarrow> sa
      | Some ch \<Rightarrow>
          (let offered = ch_offered_versions ch;
               offered = (if offered = [] then (case ch_legacy_version ch of None \<Rightarrow> [] | Some v \<Rightarrow> [v])
                          else offered)
           in if offered \<noteq> [] \<and> list_max offered \<le> 0x0302
              then sa_add sa ''outdated-client-stack'' ''Client stack predates TLS 1.2'' INFO
                     ''ClientHello offers nothing newer than TLS 1.1''
                     [(''best_offered'', EvS (hex0x (list_max offered)))]
              else sa))"

definition rule_legacy_compression :: "session_analysis \<Rightarrow> session_analysis" where
  "rule_legacy_compression sa =
     (case sa_client_hello sa of
        None \<Rightarrow> sa
      | Some ch \<Rightarrow>
          if sa_tls_version sa \<noteq> Some 0x0304 then sa
          else if ch_compression ch \<noteq> [] \<and> ch_compression ch \<noteq> [0]
          then sa_add sa ''legacy-compression-offered'' ''Non-null compression with TLS 1.3'' LOW
                 ''Client offers legacy compression'' [(''offered'', EvNs (ch_compression ch))]
          else sa)"

section \<open>Running the rules\<close>

definition all_rules :: "int \<Rightarrow> (session_analysis \<Rightarrow> session_analysis) list" where
  "all_rules now = [rule_deprecated_version, rule_non_aead_cipher, rule_weak_cipher,
     rule_export_cipher, rule_non_pfs, rule_rc4, rule_3des, rule_cert_expired now,
     rule_cert_not_yet_valid now, rule_cert_self_signed, rule_chain_untrusted, rule_weak_signature,
     rule_short_key, rule_ssl_in_plaintext, rule_starttls_strip, rule_no_client_hello_pfs_capability,
     rule_no_tls_on_tls_port, rule_handshake_incomplete, rule_unknown_cipher, rule_legacy_groups,
     rule_no_modern_pfs_group, rule_downgrade_sentinel, rule_hrr_anomaly, rule_tls_version_downgrade,
     rule_ech_present, rule_legacy_compression, rule_outdated_client_stack]"

definition run_rules :: "int \<Rightarrow> session_analysis \<Rightarrow> session_analysis" where
  \<comment> \<open>no rule of the model raises, so the \<open>try\<close> around each call is not visible\<close>
  "run_rules now sa = foldl (\<lambda>sa rule. rule sa) sa (all_rules now)"

section \<open>What a rule may change\<close>

definition core :: "session_analysis \<Rightarrow> session_analysis" where
  \<comment> \<open>everything but the two logs\<close>
  "core sa = sa\<lparr>sa_findings := [], sa_not_observable := []\<rparr>"

definition critical :: "session_analysis \<Rightarrow> bool" where
  "critical sa \<longleftrightarrow> list_ex (\<lambda>f. f_severity f = CRITICAL) (sa_findings sa)"

lemma sa_add_simps [simp]:
  "core (sa_add sa i n s t e) = core sa"
  "critical (sa_add sa i n s t e) \<longleftrightarrow> critical sa \<or> s = CRITICAL"
  "sa_not_observable (sa_add sa i n s t e) = sa_not_observable sa"
  "sa_findings (sa_add sa i n s t e) = sa_findings sa @
     [\<lparr>f_rule_id = i, f_rule_name = n, f_severity = s, f_title = t, f_evidence = e\<rparr>]"
  by (simp_all add: sa_add_def core_def critical_def)

lemma core_not_observable [simp]: "core (sa\<lparr>sa_not_observable := x\<rparr>) = core sa"
  "critical (sa\<lparr>sa_not_observable := x\<rparr>) = critical sa"
  by (simp_all add: core_def critical_def)

lemma core_idem [simp]: "core (core sa) = core sa"
  by (simp add: core_def)

lemma core_id: "sa_findings sa = [] \<Longrightarrow> sa_not_observable sa = [] \<Longrightarrow> core sa = sa"
  by (cases sa) (simp add: core_def)

lemma core_sel [simp]:
  "sa_findings (core sa) = []" "sa_not_observable (core sa) = []"
  "sa_tls_version (core sa) = sa_tls_version sa" "sa_cipher (core sa) = sa_cipher sa"
  "sa_cipher_meta (core sa) = sa_cipher_meta sa" "sa_cipher_iana (core sa) = sa_cipher_iana sa"
  "sa_client_hello (core sa) = sa_client_hello sa" "sa_server_hello (core sa) = sa_server_hello sa"
  "sa_certs (core sa) = sa_certs sa" "sa_chain_result (core sa) = sa_chain_result sa"
  "sa_chain_error (core sa) = sa_chain_error sa" "sa_started_tls (core sa) = sa_started_tls sa"
  "sa_tls_bytes (core sa) = sa_tls_bytes sa" "sa_plaintext_bytes (core sa) = sa_plaintext_bytes sa"
  "sa_implicit_port (core sa) = sa_implicit_port sa" "sa_port (core sa) = sa_port sa"
  "sa_saw_starttls (core sa) = sa_saw_starttls sa" "sa_visibility (core sa) = sa_visibility sa"
  by (simp_all add: core_def)

lemma core_reads [simp]:
  "certs_usable (core sa) = certs_usable sa" "iana_ev (core sa) = iana_ev sa"
  "cipher_mentions pat (core sa) = cipher_mentions pat sa"
  by (simp_all add: certs_usable_def iana_ev_def cipher_mentions_def)

definition logs :: "(session_analysis \<Rightarrow> session_analysis) \<Rightarrow> bool" where
  \<comment> \<open>the contract of one rule\<close>
  "logs r \<longleftrightarrow> (\<forall>sa. core (r sa) = core sa \<and>
     sa_findings (r sa) = sa_findings sa @ sa_findings (r (core sa)))"

named_theorems rule_logs "each rule satisfies the contract"

lemma logsI:
  "(\<And>sa. core (r sa) = core sa) \<Longrightarrow>
   (\<And>sa. sa_findings (r sa) = sa_findings sa @ sa_findings (r (core sa))) \<Longrightarrow> logs r"
  unfolding logs_def by blast

lemma logs_version [rule_logs]: "logs rule_deprecated_version"
  by (rule logsI) (simp_all add: rule_deprecated_version_def split_beta split: option.split)

lemma logs_non_aead [rule_logs]: "logs rule_non_aead_cipher"
  by (rule logsI) (auto simp: rule_non_aead_cipher_def split: option.split)

lemma logs_weak_cipher [rule_logs]: "logs rule_weak_cipher"
  by (rule logsI) (simp_all add: rule_weak_cipher_def Let_def split: option.split)

lemma logs_cipher_rules [rule_logs]:
  "logs rule_export_cipher" "logs rule_non_pfs" "logs rule_rc4" "logs rule_3des"
  by (rule logsI; simp add: rule_export_cipher_def rule_non_pfs_def rule_rc4_def rule_3des_def
        split: option.split)+

lemma logs_unknown_cipher [rule_logs]: "logs rule_unknown_cipher"
  by (rule logsI) (auto simp: rule_unknown_cipher_def split: option.split nat.split)

lemma logs_plaintext [rule_logs]:
  "logs rule_ssl_in_plaintext" "logs rule_starttls_strip" "logs rule_no_tls_on_tls_port"
  "logs rule_handshake_incomplete"
  by (rule logsI; simp add: rule_ssl_in_plaintext_def rule_starttls_strip_def
        rule_no_tls_on_tls_port_def rule_handshake_incomplete_def)+

lemma logs_hello [rule_logs]:
  "logs rule_no_client_hello_pfs_capability" "logs rule_alpn_missing" "logs rule_legacy_groups"
  "logs rule_no_modern_pfs_group" "logs rule_ech_present" "logs rule_outdated_client_stack"
  "logs rule_legacy_compression"
  by (rule logsI; simp add: rule_no_client_hello_pfs_capability_def rule_alpn_missing_def
        rule_legacy_groups_def rule_no_modern_pfs_group_def rule_ech_present_def
        rule_outdated_client_stack_def rule_legacy_compression_def Let_def split: option.split)+

lemma logs_negotiation [rule_logs]:
  "logs rule_downgrade_sentinel" "logs rule_hrr_anomaly" "logs rule_tls_version_downgrade"
  by (rule logsI; simp add: rule_downgrade_sentinel_def rule_hrr_anomaly_def
        rule_tls_version_downgrade_def Let_def split: option.split)+

section \<open>Certificate rules under the contract\<close>

definition skip_certs :: "session_analysis \<Rightarrow> bool" where
  \<comment> \<open>TLS 1.3 without a usable certificate\<close>
  "skip_certs sa \<longleftrightarrow> \<not> certs_usable sa \<and> (case sa_visibility sa of None \<Rightarrow> False | Some v \<Rightarrow> v_tls13 v)"

lemma skip_certs_core [simp]: "skip_certs (core sa) = skip_certs sa"
  by (simp add: skip_certs_def)

definition mark :: "string \<Rightarrow> session_analysis \<Rightarrow> session_analysis" where
  "mark i sa = (if i \<in> set (sa_not_observable sa) then sa
                else sa\<lparr>sa_not_observable := sa_not_observable sa @ [i]\<rparr>)"

lemma require_usable_certs_eq:
  "require_usable_certs sa i = (if skip_certs sa then (False, mark i sa) else (True, sa))"
  by (simp add: require_usable_certs_def skip_certs_def mark_def split: option.split)

lemma mark_simps [simp]:
  "core (mark i sa) = core sa" "sa_findings (mark i sa) = sa_findings sa"
  "set (sa_not_observable (mark i sa)) = insert i (set (sa_not_observable sa))"
  by (auto simp: mark_def core_def)

lemma for_certs_log:
  assumes "\<And>i c sa. core (body i c sa) = core sa"
    and "\<And>i c sa. sa_findings (body i c sa) = sa_findings sa @ g i c"
  shows "core (for_certs body sa) = core sa"
    and "sa_findings (for_certs body sa) =
           sa_findings sa @ concat (map (\<lambda>(i, c). g i c) (enumerate 0 (sa_certs sa)))"
proof -
  have "core (foldl (\<lambda>sa (i, c). body i c sa) sa xs) = core sa \<and>
      sa_findings (foldl (\<lambda>sa (i, c). body i c sa) sa xs) =
        sa_findings sa @ concat (map (\<lambda>(i, c). g i c) xs)" for xs
    by (induction xs arbitrary: sa) (auto simp: assms)
  then show "core (for_certs body sa) = core sa" "sa_findings (for_certs body sa) =
      sa_findings sa @ concat (map (\<lambda>(i, c). g i c) (enumerate 0 (sa_certs sa)))"
    by (simp_all add: for_certs_def)
qed

lemma logs_cert_rule:
  assumes "\<And>i c sa. core (body i c sa) = core sa"
    and "\<And>i c sa. sa_findings (body i c sa) = sa_findings sa @ sa_findings (body i c (core sa))"
    and "\<And>i c sa sb. sa_findings (body i c (core sa)) = sa_findings (body i c (core sb))"
  shows "logs (\<lambda>sa. case require_usable_certs sa rid of
                      (False, sa) \<Rightarrow> sa | (True, sa) \<Rightarrow> for_certs body sa)"
proof (rule logsI)
  fix sa
  have g: "sa_findings (body i c s) = sa_findings s @ sa_findings (body i c (core sa))" for i c s
    using assms(2) [of i c s] assms(3) [of i c s sa] by simp
  note fc = for_certs_log [OF assms(1) g]
  show "core (case require_usable_certs sa rid of (False, sa) \<Rightarrow> sa | (True, sa) \<Rightarrow> for_certs body sa)
      = core sa"
    by (simp add: require_usable_certs_eq fc)
  show "sa_findings (case require_usable_certs sa rid of
        (False, sa) \<Rightarrow> sa | (True, sa) \<Rightarrow> for_certs body sa) = sa_findings sa @
      sa_findings (case require_usable_certs (core sa) rid of
        (False, sa) \<Rightarrow> sa | (True, sa) \<Rightarrow> for_certs body sa)"
    by (simp add: require_usable_certs_eq fc)
qed

lemma logs_cert_rules [rule_logs]:
  "logs (rule_cert_expired now)" "logs (rule_cert_not_yet_valid now)" "logs rule_cert_self_signed"
  "logs rule_weak_signature" "logs rule_short_key"
  unfolding rule_cert_expired_def [abs_def] rule_cert_not_yet_valid_def [abs_def]
    rule_cert_self_signed_def [abs_def] rule_weak_signature_def [abs_def] rule_short_key_def [abs_def]
  by (rule logs_cert_rule; simp)+

lemma logs_chain [rule_logs]: "logs rule_chain_untrusted"
  by (rule logsI) (simp_all add: rule_chain_untrusted_def require_usable_certs_eq)

section \<open>The engine\<close>

lemma all_rules_log: "r \<in> set (all_rules now) \<Longrightarrow> logs r"
  unfolding all_rules_def list.set by (elim insertE emptyE) (simp_all only: rule_logs)

interpretation engine: rule_engine "all_rules now" core sa_findings for now
proof (unfold_locales, goal_cases)
  case (1 r s)
  then show ?case using all_rules_log [of r now] unfolding logs_def by blast
next
  case (2 r s)
  then show ?case using all_rules_log [of r now] unfolding logs_def by blast
qed

lemma run_rules_engine: "run_rules now sa = engine.run now sa"
  by (simp add: run_rules_def engine.run_def)

lemma run_rules_log:
  "sa_findings (run_rules now sa) =
     sa_findings sa @ concat (map (\<lambda>r. sa_findings (r (core sa))) (all_rules now))"
  unfolding run_rules_engine by (rule engine.run_log)

text \<open>The engine is a pure, order-independent accumulation: it leaves every fact of the session alone,
  keeps the findings that were already there, and adds, rule by rule, exactly the findings that rule
  reports on the bare session.\<close>
theorem run_rules_accumulates:
  "core (run_rules now sa) = core sa \<and>
   sa_findings (run_rules now sa) =
     sa_findings sa @ concat (map (\<lambda>r. sa_findings (r (core sa))) (all_rules now))"
  unfolding run_rules_engine using engine.run_facts engine.run_log by blast

lemma critical_run:
  "critical (run_rules now sa) \<longleftrightarrow> critical sa \<or> list_ex (\<lambda>r. critical (r (core sa))) (all_rules now)"
  using run_rules_log [of now sa] by (auto simp: critical_def list_ex_iff)

section \<open>Verdicts\<close>

lemma for_certs_not_critical:
  assumes "\<And>i c sa. critical (body i c sa) = critical sa"
  shows "critical (for_certs body sa) = critical sa"
proof -
  have "critical (foldl (\<lambda>sa (i, c). body i c sa) sa xs) = critical sa" for xs
  proof (induction xs arbitrary: sa)
    case (Cons x xs)
    then show ?case using assms by (cases x) simp
  qed simp
  then show ?thesis by (simp add: for_certs_def)
qed

lemma mark_critical [simp]: "critical (mark i sa) = critical sa"
  by (simp add: critical_def)

lemma critical_core [simp]: "\<not> critical (core sa)"
  by (simp add: critical_def)

named_theorems rule_critical "when a rule reports a critical finding on bare facts"

lemma cert_rules_not_critical [rule_critical]:
  "\<not> critical (rule_cert_expired now (core sa))" "\<not> critical (rule_cert_not_yet_valid now (core sa))"
  "\<not> critical (rule_cert_self_signed (core sa))" "\<not> critical (rule_weak_signature (core sa))"
  "\<not> critical (rule_short_key (core sa))" "\<not> critical (rule_chain_untrusted (core sa))"
  by (simp_all add: rule_cert_expired_def rule_cert_not_yet_valid_def rule_cert_self_signed_def
      rule_weak_signature_def rule_short_key_def rule_chain_untrusted_def require_usable_certs_eq
      for_certs_not_critical)

lemma other_rules_not_critical [rule_critical]:
  "\<not> critical (rule_non_aead_cipher (core sa))" "\<not> critical (rule_non_pfs (core sa))"
  "\<not> critical (rule_rc4 (core sa))" "\<not> critical (rule_3des (core sa))"
  "\<not> critical (rule_ssl_in_plaintext (core sa))" "\<not> critical (rule_handshake_incomplete (core sa))"
  "\<not> critical (rule_no_client_hello_pfs_capability (core sa))"
  "\<not> critical (rule_legacy_groups (core sa))" "\<not> critical (rule_no_modern_pfs_group (core sa))"
  "\<not> critical (rule_ech_present (core sa))" "\<not> critical (rule_outdated_client_stack (core sa))"
  "\<not> critical (rule_legacy_compression (core sa))"
  by (simp_all add: rule_non_aead_cipher_def rule_non_pfs_def rule_rc4_def rule_3des_def
      rule_ssl_in_plaintext_def rule_handshake_incomplete_def rule_no_client_hello_pfs_capability_def
      rule_legacy_groups_def rule_no_modern_pfs_group_def rule_ech_present_def
      rule_outdated_client_stack_def rule_legacy_compression_def Let_def split: option.split)

lemma negotiation_rules_not_critical [rule_critical]:
  "\<not> critical (rule_unknown_cipher (core sa))" "\<not> critical (rule_hrr_anomaly (core sa))"
  "\<not> critical (rule_tls_version_downgrade (core sa))"
  by (auto simp: rule_unknown_cipher_def rule_hrr_anomaly_def rule_tls_version_downgrade_def Let_def
      split: option.split nat.split)

definition very_weak :: "cipher_meta \<Rightarrow> bool" where
  \<comment> \<open>an export suite, or a CBC or stream suite of strength at most 0.3 with a key of at most 56 bits\<close>
  "very_weak m \<longleftrightarrow>
     c_export_class m = Some ''export'' \<or>
     c_export_class m \<notin> set [Some ''null'', Some ''rc4''] \<and> c_kind m \<in> set [''cbc'', ''stream''] \<and>
     c_strength m \<le> 0.3 \<and> c_key_len m \<le> 56"

definition no_tls_seen :: "session_analysis \<Rightarrow> bool" where
  "no_tls_seen sa \<longleftrightarrow> \<not> sa_started_tls sa \<and> sa_tls_bytes sa = 0"

definition sentinel_seen :: "session_analysis \<Rightarrow> bool" where
  \<comment> \<open>the server random carries a downgrade sentinel and something above the negotiated version was
     offered\<close>
  "sentinel_seen sa \<longleftrightarrow> Option.bind (sa_server_hello sa) sh_downgrade_sentinel \<noteq> None \<and>
     (case (best_offer (sa_client_hello sa), sa_tls_version sa) of
        (Some best, Some v) \<Rightarrow> v < best | _ \<Rightarrow> False)"

lemma critical_rules [rule_critical]:
  "critical (rule_deprecated_version (core sa)) \<longleftrightarrow> sa_tls_version sa = Some 0x0300"
  "critical (rule_weak_cipher (core sa)) \<or> critical (rule_export_cipher (core sa)) \<longleftrightarrow>
     (case sa_cipher_meta sa of None \<Rightarrow> False | Some m \<Rightarrow> very_weak m)"
  "critical (rule_starttls_strip (core sa)) \<longleftrightarrow> sa_saw_starttls sa \<and> no_tls_seen sa"
  "critical (rule_no_tls_on_tls_port (core sa)) \<longleftrightarrow>
     sa_implicit_port sa \<and> no_tls_seen sa \<and> 0 < sa_plaintext_bytes sa"
  "critical (rule_downgrade_sentinel (core sa)) \<longleftrightarrow> sentinel_seen sa"
proof -
  show "critical (rule_deprecated_version (core sa)) \<longleftrightarrow> sa_tls_version sa = Some 0x0300"
    by (cases "sa_tls_version sa") (auto simp: rule_deprecated_version_def weak_versions_def)
  show "critical (rule_weak_cipher (core sa)) \<or> critical (rule_export_cipher (core sa)) \<longleftrightarrow>
     (case sa_cipher_meta sa of None \<Rightarrow> False | Some m \<Rightarrow> very_weak m)"
    by (cases "sa_cipher_meta sa")
      (auto simp: rule_weak_cipher_def rule_export_cipher_def very_weak_def category_strength_def)
  show "critical (rule_starttls_strip (core sa)) \<longleftrightarrow> sa_saw_starttls sa \<and> no_tls_seen sa"
    "critical (rule_no_tls_on_tls_port (core sa)) \<longleftrightarrow>
       sa_implicit_port sa \<and> no_tls_seen sa \<and> 0 < sa_plaintext_bytes sa"
    by (auto simp: rule_starttls_strip_def rule_no_tls_on_tls_port_def no_tls_seen_def)
  show "critical (rule_downgrade_sentinel (core sa)) \<longleftrightarrow> sentinel_seen sa"
    by (auto simp: rule_downgrade_sentinel_def sentinel_seen_def split: option.split)
qed

lemma critical_cases:
  "critical (run_rules now (core sa)) \<longleftrightarrow>
     sa_tls_version sa = Some 0x0300 \<or>
     (case sa_cipher_meta sa of None \<Rightarrow> False | Some m \<Rightarrow> very_weak m) \<or>
     sa_saw_starttls sa \<and> no_tls_seen sa \<or>
     sa_implicit_port sa \<and> no_tls_seen sa \<and> 0 < sa_plaintext_bytes sa \<or>
     sentinel_seen sa"
  unfolding critical_run critical_rules(2) [symmetric] all_rules_def core_idem
  by (simp add: cert_rules_not_critical other_rules_not_critical negotiation_rules_not_critical
      critical_rules(1, 3, 4, 5))


section \<open>Nothing is alleged about unseen certificates\<close>

named_theorems rule_ids "the ids a rule may report on bare facts"

definition reports_only :: "string set \<Rightarrow> session_analysis \<Rightarrow> bool" where
  "reports_only ids sa \<longleftrightarrow> (\<forall>f\<in>set (sa_findings sa). f_rule_id f \<in> ids)"

lemma reports_only_add [simp]:
  "reports_only ids (sa_add sa i n s t e) \<longleftrightarrow> reports_only ids sa \<and> i \<in> ids"
  "reports_only ids (core sa)" "reports_only ids (mark i sa) = reports_only ids sa"
  by (auto simp: reports_only_def)

lemma cipher_rule_ids [rule_ids]:
  "reports_only {''non-aead-bulk-cipher''} (rule_non_aead_cipher (core sa))"
  "reports_only {''weak-cipher-suite''} (rule_weak_cipher (core sa))"
  "reports_only {''export-grade-cipher''} (rule_export_cipher (core sa))"
  "reports_only {''non-pfs-key-exchange''} (rule_non_pfs (core sa))"
  "reports_only {''rc4-cipher''} (rule_rc4 (core sa))"
  "reports_only {''3des-cipher''} (rule_3des (core sa))"
  by (simp_all add: rule_non_aead_cipher_def rule_weak_cipher_def rule_export_cipher_def
      rule_non_pfs_def rule_rc4_def rule_3des_def Let_def split_beta split: option.split)

lemma version_tags:
  "dot_to_dash (str_lower ''SSLV3'') = ''sslv3''" "dot_to_dash (str_lower ''TLS1.0'') = ''tls1-0''"
  "dot_to_dash (str_lower ''TLS1.1'') = ''tls1-1''"
  by code_simp+

lemma version_rule_ids [rule_ids]:
  "reports_only {''tls-version-sslv3'', ''tls-version-tls1-0'', ''tls-version-tls1-1''}
     (rule_deprecated_version (core sa))"
  by (cases "sa_tls_version sa")
    (auto simp: rule_deprecated_version_def weak_versions_def version_tags)

lemma unknown_rule_ids [rule_ids]:
  "reports_only {''unknown-cipher-suite''} (rule_unknown_cipher (core sa))"
  by (auto simp: rule_unknown_cipher_def split: option.split nat.split)

lemma plain_rule_ids [rule_ids]:
  "reports_only {''plaintext-mail-protocol''} (rule_ssl_in_plaintext (core sa))"
  "reports_only {''starttls-strip-attempt''} (rule_starttls_strip (core sa))"
  "reports_only {''no-tls-on-implicit-port''} (rule_no_tls_on_tls_port (core sa))"
  "reports_only {''tls-handshake-incomplete''} (rule_handshake_incomplete (core sa))"
  by (simp_all add: rule_ssl_in_plaintext_def rule_starttls_strip_def rule_no_tls_on_tls_port_def
      rule_handshake_incomplete_def)

lemma hello_rule_ids [rule_ids]:
  "reports_only {''client-no-pfs-suites''} (rule_no_client_hello_pfs_capability (core sa))"
  "reports_only {''deprecated-group-negotiated'', ''deprecated-group-offered''}
     (rule_legacy_groups (core sa))"
  "reports_only {''no-modern-pfs-group''} (rule_no_modern_pfs_group (core sa))"
  "reports_only {''ech-observed''} (rule_ech_present (core sa))"
  "reports_only {''outdated-client-stack''} (rule_outdated_client_stack (core sa))"
  "reports_only {''legacy-compression-offered''} (rule_legacy_compression (core sa))"
  by (simp_all add: rule_no_client_hello_pfs_capability_def rule_legacy_groups_def
      rule_no_modern_pfs_group_def rule_ech_present_def rule_outdated_client_stack_def
      rule_legacy_compression_def Let_def split: option.split)

lemma negotiation_rule_ids [rule_ids]:
  "reports_only {''downgrade-attack-detected''} (rule_downgrade_sentinel (core sa))"
  "reports_only {''hrr-group-mismatch''} (rule_hrr_anomaly (core sa))"
  "reports_only {''tls-version-downgrade-suspected'', ''tls13-not-negotiated''}
     (rule_tls_version_downgrade (core sa))"
  by (auto simp: rule_downgrade_sentinel_def rule_hrr_anomaly_def rule_tls_version_downgrade_def
      Let_def split: option.split)

lemma skipped_cert_rules:
  assumes "skip_certs sa"
  shows "rule_cert_expired now sa = mark ''expired-certificate'' sa"
    "rule_cert_not_yet_valid now sa = mark ''certificate-not-yet-valid'' sa"
    "rule_cert_self_signed sa = mark ''self-signed-certificate'' sa"
    "rule_chain_untrusted sa = mark ''untrusted-certificate-chain'' sa"
    "rule_weak_signature sa = mark ''weak-signature-algorithm'' sa"
    "rule_short_key sa = mark ''short-public-key'' sa"
  using assms
  by (simp_all add: rule_cert_expired_def rule_cert_not_yet_valid_def rule_cert_self_signed_def
      rule_chain_untrusted_def rule_weak_signature_def rule_short_key_def require_usable_certs_eq)

lemma reports_only_mono: "reports_only A sa \<Longrightarrow> A \<subseteq> B \<Longrightarrow> reports_only B sa"
  by (auto simp: reports_only_def)

lemma reports_only_run:
  "reports_only ids (run_rules now (core sa)) \<longleftrightarrow>
     (\<forall>r\<in>set (all_rules now). reports_only ids (r (core sa)))"
  using run_rules_log [of now "core sa"] by (auto simp: reports_only_def)

lemma other_rules_observable:
  "sa_not_observable (rule_deprecated_version sa) = sa_not_observable sa"
  "sa_not_observable (rule_non_aead_cipher sa) = sa_not_observable sa"
  "sa_not_observable (rule_weak_cipher sa) = sa_not_observable sa"
  "sa_not_observable (rule_export_cipher sa) = sa_not_observable sa"
  "sa_not_observable (rule_non_pfs sa) = sa_not_observable sa"
  "sa_not_observable (rule_rc4 sa) = sa_not_observable sa"
  "sa_not_observable (rule_3des sa) = sa_not_observable sa"
  "sa_not_observable (rule_ssl_in_plaintext sa) = sa_not_observable sa"
  "sa_not_observable (rule_starttls_strip sa) = sa_not_observable sa"
  "sa_not_observable (rule_no_tls_on_tls_port sa) = sa_not_observable sa"
  "sa_not_observable (rule_handshake_incomplete sa) = sa_not_observable sa"
  by (simp_all add: rule_deprecated_version_def rule_non_aead_cipher_def rule_weak_cipher_def
      rule_export_cipher_def rule_non_pfs_def rule_rc4_def rule_3des_def rule_ssl_in_plaintext_def
      rule_starttls_strip_def rule_no_tls_on_tls_port_def rule_handshake_incomplete_def Let_def
      split_beta split: option.split)

lemma hello_rules_observable:
  "sa_not_observable (rule_no_client_hello_pfs_capability sa) = sa_not_observable sa"
  "sa_not_observable (rule_legacy_groups sa) = sa_not_observable sa"
  "sa_not_observable (rule_no_modern_pfs_group sa) = sa_not_observable sa"
  "sa_not_observable (rule_ech_present sa) = sa_not_observable sa"
  "sa_not_observable (rule_outdated_client_stack sa) = sa_not_observable sa"
  "sa_not_observable (rule_legacy_compression sa) = sa_not_observable sa"
  "sa_not_observable (rule_downgrade_sentinel sa) = sa_not_observable sa"
  "sa_not_observable (rule_hrr_anomaly sa) = sa_not_observable sa"
  "sa_not_observable (rule_tls_version_downgrade sa) = sa_not_observable sa"
  by (simp_all add: rule_no_client_hello_pfs_capability_def rule_legacy_groups_def
      rule_no_modern_pfs_group_def rule_ech_present_def rule_outdated_client_stack_def
      rule_legacy_compression_def rule_downgrade_sentinel_def rule_hrr_anomaly_def
      rule_tls_version_downgrade_def Let_def split: option.split)

lemma unknown_rule_observable:
  "sa_not_observable (rule_unknown_cipher sa) = sa_not_observable sa"
  by (auto simp: rule_unknown_cipher_def split: option.split nat.split)

lemmas rules_observable = other_rules_observable hello_rules_observable unknown_rule_observable

lemma observable_mono:
  assumes "r \<in> set (all_rules now)" and "skip_certs sa"
  shows "set (sa_not_observable sa) \<subseteq> set (sa_not_observable (r sa))"
  using assms unfolding all_rules_def list.set
  by (elim insertE emptyE; hypsubst) (auto simp: skipped_cert_rules rules_observable)

lemma skip_certs_facts: "core a = core b \<Longrightarrow> skip_certs a = skip_certs b"
  by (metis skip_certs_core)

lemma marked_by_run:
  assumes "set rs \<subseteq> set (all_rules now)" and "skip_certs sa"
    and "i \<in> set (sa_not_observable sa) \<or>
         (\<exists>r\<in>set rs. \<forall>s. skip_certs s \<longrightarrow> i \<in> set (sa_not_observable (r s)))"
  shows "i \<in> set (sa_not_observable (foldl (\<lambda>sa r. r sa) sa rs))"
  using assms
proof (induction rs arbitrary: sa)
  case Nil
  then show ?case by simp
next
  case (Cons r rs)
  then have r: "r \<in> set (all_rules now)" by simp
  then have "skip_certs (r sa)"
    using Cons.prems(2) engine.keeps_facts [of r now sa] skip_certs_facts by metis
  moreover have "i \<in> set (sa_not_observable (r sa)) \<or>
      (\<exists>r\<in>set rs. \<forall>s. skip_certs s \<longrightarrow> i \<in> set (sa_not_observable (r s)))"
    using Cons.prems(2, 3) observable_mono [OF r Cons.prems(2)] by auto
  ultimately show ?case using Cons by simp
qed

lemma cert_rules_mark:
  assumes "i \<in> set cert_rule_ids"
  shows "\<exists>r\<in>set (all_rules now). \<forall>s. skip_certs s \<longrightarrow> i \<in> set (sa_not_observable (r s))"
proof -
  have "rule_cert_expired now \<in> set (all_rules now)" "rule_cert_not_yet_valid now \<in> set (all_rules now)"
    "rule_cert_self_signed \<in> set (all_rules now)" "rule_chain_untrusted \<in> set (all_rules now)"
    "rule_weak_signature \<in> set (all_rules now)" "rule_short_key \<in> set (all_rules now)"
    by (simp_all add: all_rules_def)
  then show ?thesis
    using assms unfolding cert_rule_ids_def list.set
    by (elim insertE emptyE; hypsubst) (metis skipped_cert_rules mark_simps(3) insertI1)+
qed

lemma skipped_rules_report:
  assumes "skip_certs sa" and "r \<in> set (all_rules now)"
  shows "reports_only (- set cert_rule_ids) (r (core sa))"
proof -
  have s: "skip_certs (core sa)" using assms(1) by simp
  show ?thesis
    using assms(2) unfolding all_rules_def list.set
    by (elim insertE emptyE; hypsubst)
      (rule reports_only_mono, rule rule_ids, simp add: cert_rule_ids_def |
       simp add: skipped_cert_rules [OF s])+
qed

lemma unseen_certificates_not_judged:
  assumes "skip_certs sa"
  shows "reports_only (- set cert_rule_ids) (run_rules now (core sa)) \<and>
    set cert_rule_ids \<subseteq> set (sa_not_observable (run_rules now (core sa)))"
proof
  show "reports_only (- set cert_rule_ids) (run_rules now (core sa))"
    using skipped_rules_report [OF assms] by (simp add: reports_only_run)
  have s: "skip_certs (core sa)" using assms by simp
  show "set cert_rule_ids \<subseteq> set (sa_not_observable (run_rules now (core sa)))"
    unfolding run_rules_def
    using marked_by_run [OF subset_refl s] cert_rules_mark by blast
qed

section \<open>The overall severity\<close>

lemma fold_severity:
  "foldl (\<lambda>m g. if sev_rank m < sev_rank (f_severity g) then f_severity g else m) s fs =
     Max (insert s (f_severity ` set fs))"
proof (induction fs arbitrary: s)
  case Nil
  then show ?case by simp
next
  case (Cons f fs)
  have "(if sev_rank s < sev_rank (f_severity f) then f_severity f else s) = max s (f_severity f)"
    using sev_rank_inj [of s "f_severity f"] by (auto simp: max_def less_eq_severity_def)
  moreover have "Max (insert (max s x) A) = Max (insert s (insert x A))" if "finite A" for x A
    using that by (cases "A = {}") (simp_all add: max.assoc)
  ultimately show ?case
    by (simp add: Cons.IH)
qed

text \<open>The overall severity of a session is the maximum of its findings' severities, and there is
  none exactly when there are no findings.\<close>
theorem max_severity_is_maximum:
  "max_severity fs = (if fs = [] then None else Some (Max (f_severity ` set fs)))"
  by (cases fs) (simp_all add: max_severity_def fold_severity)

section \<open>Gaps\<close>

lemma grease_offer_raises_downgrade_alarm:
  assumes "sa_server_hello sa = Some sh" and "sh_downgrade_sentinel sh = Some ''tls12''"
    and "sa_client_hello sa = Some ch" and "ch_offered_versions ch = [0x0A0A, 0x0303]"
    and "sa_tls_version sa = Some 0x0303"
  shows "critical (run_rules now (core sa))"
  using assms by (simp add: critical_cases sentinel_seen_def best_offer_def list_max_def)

lemma null_cipher_has_no_rule:
  assumes "lookup_cipher 0x0001 = Some m" and "sa_cipher_meta sa = Some m"
  shows "rule_weak_cipher sa = sa \<and> rule_export_cipher sa = sa \<and> rule_non_aead_cipher sa = sa"
proof -
  have "m = cipher ''TLS_RSA_WITH_NULL_MD5'' 0 ''none'' False 0 ''rsa'' ''rsa'' (Some ''null'')"
    using assms(1) by (simp add: lookup_cipher_def cipher_db_def)
  then show ?thesis
    using assms(2)
    by (simp add: rule_weak_cipher_def rule_export_cipher_def rule_non_aead_cipher_def cipher_def)
qed

end
