(* ===== verification/JA4.thy ===== *)
theory JA4
  imports Handshake Digest "HOL-Library.List_Lexorder" "HOL-Library.Char_ord"
begin

text \<open>
  JA3 and JA4 fingerprints of the two hello messages (src/backend/app/parsing/ja4.py). SHA-256 is the
  executable function of \<open>Digest\<close>; the MD5 wrappers of JA3 are left out.
\<close>

section \<open>The building blocks\<close>

definition version_map :: "nat \<Rightarrow> string option" where
  "version_map = map_of [(0x0304, ''13''), (0x0303, ''12''), (0x0302, ''11''), (0x0301, ''10''),
     (0x0300, ''s3''), (0x0002, ''s2''), (0xFEFF, ''d1''), (0xFEFD, ''d2''), (0xFEFC, ''d3'')]"

definition hex4_list :: "nat list \<Rightarrow> string list" where
  "hex4_list values = map (\<lambda>v. hex4 (v AND 0xFFFF)) values"

definition sha12 :: "string list \<Rightarrow> string" where
  "sha12 parts =
     (if parts = [] then ''000000000000'' else take 12 (sha256_hex (ascii (join '','' parts))))"

definition py_max :: "nat list \<Rightarrow> nat" where
  \<comment> \<open>\<open>max(xs)\<close> of a non-empty list\<close>
  "py_max xs = fold max (tl xs) (hd xs)"

definition ja4_version :: "nat option \<Rightarrow> nat list \<Rightarrow> string" where
  "ja4_version ch_version offered =
     (let cands = strip_grease offered;
          top = (if cands \<noteq> [] then py_max cands else (case ch_version of None \<Rightarrow> 0 | Some v \<Rightarrow> v))
      in case version_map top of None \<Rightarrow> ''00'' | Some s \<Rightarrow> s)"

definition latin1_replace :: "ustr \<Rightarrow> nat list" where
  \<comment> \<open>\<open>s.encode("latin-1", errors="replace")\<close>\<close>
  "latin1_replace s = map (\<lambda>c. if c < 256 then c else 63) s"

definition ascii_alnum :: "nat \<Rightarrow> bool" where
  "ascii_alnum b \<longleftrightarrow> (0x30 \<le> b \<and> b \<le> 0x39) \<or> (0x41 \<le> b \<and> b \<le> 0x5A) \<or> (0x61 \<le> b \<and> b \<le> 0x7A)"

definition alpn_edge :: "nat \<Rightarrow> bool \<Rightarrow> char" where
  "alpn_edge b is_first =
     (if ascii_alnum b then char_of b
      else (let hx = pad0 2 (hex_of b) in if is_first then hx ! 0 else hx ! 1))"

definition alpn2 :: "ustr list \<Rightarrow> string" where
  "alpn2 alpn =
     (if alpn = [] \<or> hd alpn = [] then ''00''
      else (let first = latin1_replace (hd alpn)
            in if length first = 1 then
                 (let c = alpn_edge (first ! 0) True
                  in if c = char_of (first ! 0) \<and> \<not> ascii_alnum (first ! 0)
                     then (let hx = pad0 2 (hex_of (first ! 0)) in [hx ! 0, hx ! 1])
                     else [c, c])
               else [alpn_edge (first ! 0) True, alpn_edge (last first) False]))"

definition count2 :: "nat \<Rightarrow> string" where
  \<comment> \<open>\<open>f"{min(n, 99):02d}"\<close>\<close>
  "count2 n = pad0 2 (dec_of (min n 99))"

section \<open>The fingerprints\<close>

definition dashed :: "nat list \<Rightarrow> string" where
  "dashed values = join ''-'' (map dec_of values)"

definition ja3 :: "client_hello \<Rightarrow> string" where
  "ja3 ch =
     (let vs = strip_grease (ch_offered_versions ch);
          ver = (if vs \<noteq> [] then py_max vs
                 else (case ch_legacy_version ch of None \<Rightarrow> 0 | Some v \<Rightarrow> v))
      in join '','' [dec_of ver,
                     dashed (strip_grease (ch_cipher_suites ch)),
                     dashed (strip_grease (ch_extension_ids ch)),
                     dashed (strip_grease (ch_supported_groups ch)),
                     dashed (strip_grease (ch_ec_point_formats ch))])"

definition ja4_ext_hash :: "nat list \<Rightarrow> nat list \<Rightarrow> string" where
  "ja4_ext_hash exts sigs =
     (let ext_nogrease = sort (hex4_list (filter (\<lambda>e. e \<notin> set [0, 16]) exts))
      in if sigs \<noteq> []
         then take 12 (sha256_hex (ascii (join '','' ext_nogrease @ ''_'' @ join '','' (hex4_list sigs))))
         else sha12 ext_nogrease)"

definition ja4 :: "client_hello \<Rightarrow> bool \<Rightarrow> string" where
  "ja4 ch quic =
     (let ciphers = strip_grease (ch_cipher_suites ch);
          exts = strip_grease (ch_extension_ids ch)
      in (if quic then ''q'' else ''t'') @ ja4_version (ch_legacy_version ch) (ch_offered_versions ch) @
         (case ch_sni ch of Some (c # s) \<Rightarrow> ''d'' | _ \<Rightarrow> ''i'') @
         count2 (length ciphers) @ count2 (length exts) @ alpn2 (ch_alpn ch) @ ''_'' @
         sha12 (sort (hex4_list ciphers)) @ ''_'' @ ja4_ext_hash exts (ch_sig_algs ch))"

definition or_zero :: "nat option \<Rightarrow> nat option \<Rightarrow> nat" where
  \<comment> \<open>\<open>a or b or 0\<close>\<close>
  "or_zero a b = (case a of Some (Suc v) \<Rightarrow> Suc v | _ \<Rightarrow> (case b of Some w \<Rightarrow> w | None \<Rightarrow> 0))"

definition ja3s :: "server_hello \<Rightarrow> string" where
  "ja3s sh = join '','' [dec_of (or_zero (sh_negotiated_version sh) (sh_legacy_version sh)),
     dec_of (or_zero (sh_cipher_suite sh) None), dashed (strip_grease (sh_extension_ids sh))]"

definition ja4s_include_grease :: bool where
  "ja4s_include_grease = True"

definition ja4s :: "server_hello \<Rightarrow> bool \<Rightarrow> string" where
  "ja4s sh quic =
     (let ver = (case version_map (or_zero (sh_negotiated_version sh) (sh_legacy_version sh)) of
                   None \<Rightarrow> ''00'' | Some s \<Rightarrow> s);
          exts = (if ja4s_include_grease then sh_extension_ids sh else strip_grease (sh_extension_ids sh))
      in (if quic then ''q'' else ''t'') @ ver @ count2 (length exts) @ alpn2 (sh_alpn sh) @ ''_'' @
         hex4 (or_zero (sh_cipher_suite sh) None AND 0xFFFF) @ ''_'' @ sha12 (hex4_list exts))"

section \<open>Widths\<close>

lemma length_hex_of: "0 < k \<Longrightarrow> n < 16 ^ k \<Longrightarrow> length (hex_of n) \<le> k"
proof (induction k arbitrary: n)
  case 0
  then show ?case by simp
next
  case (Suc k)
  show ?case
  proof (cases "n < 16")
    case True
    then show ?thesis by (simp add: hex_of.simps [of n])
  next
    case False
    then have "0 < k" using Suc.prems by (cases k) auto
    moreover have "n div 16 < 16 ^ k" using Suc.prems by (simp add: less_mult_imp_div_less mult.commute)
    ultimately have "length (hex_of (n div 16)) \<le> k" by (rule Suc.IH)
    with False show ?thesis by (simp add: hex_of.simps [of n])
  qed
qed

lemma length_hex4: "n < 65536 \<Longrightarrow> length (hex4 n) = 4"
  using length_hex_of [of 4 n] by (simp add: hex4_def length_pad0)

lemma length_count2 [simp]: "length (count2 n) = 2"
  using length_dec_of [of 2 "min n 99"] by (simp add: count2_def length_pad0)

lemma length_sha12 [simp]: "length (sha12 parts) = 12"
  by (simp add: sha12_def)

lemma length_ja4_ext_hash [simp]: "length (ja4_ext_hash exts sigs) = 12"
  by (simp add: ja4_ext_hash_def Let_def)

lemma length_alpn2 [simp]: "length (alpn2 a) = 2"
  by (simp add: alpn2_def Let_def)

lemma length_version_map: "version_map n = Some s \<Longrightarrow> length s = 2"
  by (auto simp: version_map_def split: if_splits)

lemma length_ja4_version [simp]: "length (ja4_version v vs) = 2"
  by (auto simp: ja4_version_def Let_def length_version_map split: option.split)

lemmas ja4_widths = length_hex4 length_count2 length_sha12 length_ja4_ext_hash length_alpn2
  length_version_map length_ja4_version

section \<open>Invariance under GREASE and reordering\<close>

definition same_client :: "client_hello \<Rightarrow> client_hello \<Rightarrow> bool" where
  \<comment> \<open>equal up to GREASE values and the order of cipher suites and extensions\<close>
  "same_client a b \<longleftrightarrow>
     mset (strip_grease (ch_cipher_suites a)) = mset (strip_grease (ch_cipher_suites b)) \<and>
     mset (strip_grease (ch_extension_ids a)) = mset (strip_grease (ch_extension_ids b)) \<and>
     mset (strip_grease (ch_offered_versions a)) = mset (strip_grease (ch_offered_versions b)) \<and>
     ch_legacy_version a = ch_legacy_version b \<and> ch_sni a = ch_sni b \<and> ch_alpn a = ch_alpn b \<and>
     ch_sig_algs a = ch_sig_algs b"

lemma py_max_eq_Max: "xs \<noteq> [] \<Longrightarrow> py_max xs = Max (set xs)"
  by (cases xs) (simp_all only: py_max_def Max.set_eq_fold list.sel)

lemma py_max_mset: "mset xs = mset ys \<Longrightarrow> xs \<noteq> [] \<Longrightarrow> py_max xs = py_max ys"
  by (metis mset_eq_setD py_max_eq_Max mset_zero_iff)

lemma sort_cong_mset: "mset xs = mset ys \<Longrightarrow> sort xs = sort ys" for xs ys :: "string list"
  by (metis mset_sort properties_for_sort sorted_sort)

lemma mset_hex4_list: "mset xs = mset ys \<Longrightarrow> mset (hex4_list xs) = mset (hex4_list ys)"
  by (simp add: hex4_list_def)

lemma ja4_version_mset:
  assumes "mset (strip_grease vs) = mset (strip_grease ws)"
  shows "ja4_version v vs = ja4_version v ws"
proof -
  have "(strip_grease vs = []) = (strip_grease ws = [])"
    using assms by (metis mset_zero_iff)
  then show ?thesis
    using py_max_mset [OF assms] by (simp add: ja4_version_def Let_def)
qed

lemma ja4_ext_hash_mset:
  assumes "mset xs = mset ys"
  shows "ja4_ext_hash xs sigs = ja4_ext_hash ys sigs"
proof -
  have "mset (filter (\<lambda>e. e \<notin> set [0, 16]) xs) = mset (filter (\<lambda>e. e \<notin> set [0, 16]) ys)"
    using assms by (simp only: mset_filter)
  then have "sort (hex4_list (filter (\<lambda>e. e \<notin> set [0, 16]) xs)) =
      sort (hex4_list (filter (\<lambda>e. e \<notin> set [0, 16]) ys))"
    by (intro sort_cong_mset mset_hex4_list)
  then show ?thesis
    by (simp only: ja4_ext_hash_def Let_def)
qed



text \<open>Both fingerprints have the fixed layout of the specification: JA4 is 36 characters with the
  underscores at 10 and 23, JA4S is 25 characters with the underscores at 7 and 12, for every hello,
  however long its lists and whatever its ALPN text.\<close>
theorem fingerprint_layout:
  "length (ja4 ch quic) = 36 \<and> ja4 ch quic ! 10 = CHR ''_'' \<and> ja4 ch quic ! 23 = CHR ''_'' \<and>
   length (ja4s sh quic) = 25 \<and> ja4s sh quic ! 7 = CHR ''_'' \<and> ja4s sh quic ! 12 = CHR ''_''"
proof -
  have at: "(xs @ y # ys) ! n = y" if "length xs = n" for xs ys :: string and y n
    using that by auto
  obtain A B C where a: "ja4 ch quic = A @ CHR ''_'' # B @ CHR ''_'' # C"
    "length A = 10" "length B = 12" "length C = 12"
    by (rule that [of "(if quic then ''q'' else ''t'') @
          ja4_version (ch_legacy_version ch) (ch_offered_versions ch) @
          (case ch_sni ch of Some (c # s) \<Rightarrow> ''d'' | _ \<Rightarrow> ''i'') @
          count2 (length (strip_grease (ch_cipher_suites ch))) @
          count2 (length (strip_grease (ch_extension_ids ch))) @ alpn2 (ch_alpn ch)"
        "sha12 (sort (hex4_list (strip_grease (ch_cipher_suites ch))))"
        "ja4_ext_hash (strip_grease (ch_extension_ids ch)) (ch_sig_algs ch)"])
      (simp_all add: ja4_def Let_def split: option.split list.split)
  obtain D E F where b: "ja4s sh quic = D @ CHR ''_'' # E @ CHR ''_'' # F"
    "length D = 7" "length E = 4" "length F = 12"
    by (rule that [of "(if quic then ''q'' else ''t'') @
          (case version_map (or_zero (sh_negotiated_version sh) (sh_legacy_version sh)) of
             None \<Rightarrow> ''00'' | Some s \<Rightarrow> s) @ count2 (length (sh_extension_ids sh)) @ alpn2 (sh_alpn sh)"
        "hex4 (or_zero (sh_cipher_suite sh) None AND 0xFFFF)" "sha12 (hex4_list (sh_extension_ids sh))"])
      (simp_all add: ja4s_def Let_def ja4s_include_grease_def length_hex4 and_ffff length_version_map
         split: option.split)
  show ?thesis
    using a b at [of A 10] at [of "A @ CHR ''_'' # B" 23] at [of D 7] at [of "D @ CHR ''_'' # E" 12]
    by simp
qed

lemma single_symbol_alpn: "alpn2 [[0x2E]] = ''22''"
  by code_simp

lemma non_latin_alpn: "alpn2 [utf8_replace [0xAB, 0xAB]] = ''3f''"
  by (simp add: alpn2_def latin1_replace_def alpn_edge_def ascii_alnum_def hex_of.simps hex_digit_def
      pad0_def utf8_replace.simps Let_def)

end
