(* ===== verification/Analysis.thy ===== *)
theory Analysis
  imports Sessions Rules JA4
begin

text \<open>
  From a session to its analysis (src/backend/app/parsing/analysis.py): both record streams are parsed,
  the hellos and the certificate message are read, versions, suite, chain, visibility, fingerprints and
  post-quantum posture are filled in, and the rules run. The X.509 library, the path verifier and the
  trust bundle are the fields of \<open>pki\<close>. The model returns a sum: an exception that the code does not
  catch is an \<open>Inl\<close>.
\<close>

record pki =
  k_load :: "bytes \<Rightarrow> string + x509"
  k_verify :: "bytes list \<Rightarrow> verify_outcome"
  k_openssl :: bool
  k_anchors :: "nat option"
  k_now :: int

section \<open>The steps\<close>

definition start_analysis :: "session \<Rightarrow> session_analysis" where
  "start_analysis s =
     (new_analysis (s_five_tuple s) (protocol_value (s_protocol s)) (five_tuple_full s) (s_is_starttls s))
       \<lparr>sa_implicit_port := s_server_port s \<in> set implicit_tls_ports,
        sa_port := s_server_port s,
        sa_saw_starttls := contains (ascii ''STARTTLS'') (s_plaintext s) \<or>
          contains (ascii ''STARTTLS'') (s_plaintext_server s) \<or>
          contains (ascii ''STLS'') (s_plaintext s),
        sa_started_tls := 0 < length (s_tls s),
        sa_tls_bytes := length (s_tls s),
        sa_plaintext_bytes := length (s_plaintext s)\<rparr>"

definition records_or_none :: "bytes \<Rightarrow> tls_record list" where
  \<comment> \<open>\<open>except RecErr: records = []\<close>\<close>
  "records_or_none bs = (case parse_tls_records bs default_max_records of Inl _ \<Rightarrow> [] | Inr rs \<Rightarrow> rs)"

definition catch_parse :: "'a res \<Rightarrow> 'a option res" where
  \<comment> \<open>\<open>except TlsParseError: None\<close>; any other exception passes\<close>
  "catch_parse r =
     (case r of
        Inr x \<Rightarrow> Inr (Some x)
      | Inl e \<Rightarrow> (case e of TlsParseError _ \<Rightarrow> Inr None | _ \<Rightarrow> Inl e))"

definition read_client :: "tls_record list \<Rightarrow> client_hello option res" where
  "read_client records =
     (case dget (handshake_body records) 1 of
        None \<Rightarrow> Inr None
      | Some body \<Rightarrow> catch_parse (parse_client_hello body))"

definition read_server :: "tls_record list \<Rightarrow> server_hello option res" where
  "read_server records =
     (case dget (handshake_body records) 2 of
        None \<Rightarrow> Inr None
      | Some body \<Rightarrow> catch_parse (parse_server_hello body))"

definition read_certificate :: "tls_record list \<Rightarrow> server_hello option \<Rightarrow> certificate_msg option res" where
  "read_certificate records sh =
     (case dget (handshake_body records) 11 of
        None \<Rightarrow> Inr None
      | Some body \<Rightarrow>
          catch_parse (parse_certificate_message body
            (case sh of None \<Rightarrow> False | Some h \<Rightarrow> sh_negotiated_version h = Some 0x0304)))"

definition note_negotiated :: "session_analysis \<Rightarrow> session_analysis" where
  "note_negotiated sa =
     (case sa_server_hello sa of
        Some sh \<Rightarrow>
          (let nv = sh_negotiated_version sh;
               sa = sa\<lparr>sa_tls_version := nv, sa_version_name := version_name nv,
                       sa_cipher_iana := sh_cipher_suite sh\<rparr>
           in (case sa_cipher_iana sa of
                 None \<Rightarrow> sa
               | Some iana \<Rightarrow>
                   if iana = 0 then sa
                   else (case lookup_cipher iana of
                           Some m \<Rightarrow> sa\<lparr>sa_cipher_meta := Some m, sa_cipher := Some (c_name m),
                                         sa_cipher_strength := Some (c_strength m)\<rparr>
                         | None \<Rightarrow> sa\<lparr>sa_cipher := Some (''0x'' @ hex4 iana)\<rparr>)))
      | None \<Rightarrow>
          (case sa_client_hello sa of
             None \<Rightarrow> sa
           | Some ch \<Rightarrow>
               (let v = (if ch_offered_versions ch \<noteq> [] then Some (list_max (ch_offered_versions ch))
                         else ch_legacy_version ch)
                in sa\<lparr>sa_tls_version := v, sa_version_name := version_name v\<rparr>)))"

definition note_certificates :: "pki \<Rightarrow> session_analysis \<Rightarrow> session_analysis" where
  "note_certificates k sa =
     (case sa_certificate sa of
        None \<Rightarrow> sa\<lparr>sa_chain_result := ''no-cert''\<rparr>
      | Some cm \<Rightarrow>
          if cm_raw_certs cm = [] then sa\<lparr>sa_chain_result := ''no-cert''\<rparr>
          else (let (result, err) = validate_chain (k_openssl k) (k_anchors k) (k_verify k) (k_load k)
                      (cm_raw_certs cm) (Option.bind (sa_client_hello sa) ch_sni)
                in sa\<lparr>sa_certs := map (\<lambda>der. (analyze_certificate (k_load k) (k_now k) der)
                           \<lparr>ca_chain_result := result\<rparr>) (cm_raw_certs cm),
                      sa_chain_result := result, sa_chain_error := err\<rparr>))"

definition sni_state :: "client_hello option \<Rightarrow> string" where
  "sni_state ch =
     (case ch of
        None \<Rightarrow> ''absent''
      | Some c \<Rightarrow> if ch_ech_outer c then ''ech_outer''
                  else (case ch_sni c of Some (x # s) \<Rightarrow> ''observed'' | _ \<Rightarrow> ''absent''))"

definition note_visibility :: "session_analysis \<Rightarrow> session_analysis" where
  "note_visibility sa =
     (let is_tls13 = (sa_tls_version sa = Some 0x0304);
          ch = sa_client_hello sa; sh = sa_server_hello sa;
          groups = (case ch of None \<Rightarrow> [] | Some c \<Rightarrow> ch_supported_groups c);
          selected = Option.bind sh sh_selected_group
      in sa\<lparr>sa_visibility := Some
              \<lparr>v_tls13 = is_tls13,
               v_cert_chain = (if certs_usable sa then ''observed''
                               else if is_tls13 then ''not_observable_tls13'' else ''absent''),
               v_sni = sni_state ch,
               v_hrr = (case sh of None \<Rightarrow> False | Some h \<Rightarrow> sh_is_hrr h),
               v_offered_groups = groups, v_selected_group = selected,
               v_ja4 = map_option (\<lambda>c. ja4 c False) ch, v_ja4s = map_option (\<lambda>h. ja4s h False) sh\<rparr>,
            sa_ja3 := map_option ja3 ch, sa_ja3s := map_option ja3s sh,
            sa_pq := Some (pq_status groups selected)\<rparr>)"

definition analyze_session :: "pki \<Rightarrow> session \<Rightarrow> session_analysis res" where
  "analyze_session k s =
     (let sa = start_analysis s
      in if \<not> sa_started_tls sa then Inr (run_rules (k_now k) sa)
         else (let records = records_or_none (s_tls s);
                   server_records = records_or_none (s_tls_server s)
               in bindR (read_client records) (\<lambda>ch.
                    bindR (read_server server_records) (\<lambda>sh.
                      bindR (read_certificate server_records sh) (\<lambda>cm.
                        let sa = sa\<lparr>sa_client_hello := ch, sa_server_hello := sh, sa_certificate := cm\<rparr>
                        in Inr (run_rules (k_now k)
                             (note_visibility (note_certificates k (note_negotiated sa)))))))))"

fun map_res :: "('a \<Rightarrow> 'b res) \<Rightarrow> 'a list \<Rightarrow> 'b list res" where
  "map_res f [] = Inr []"
| "map_res f (x # xs) = bindR (f x) (\<lambda>y. bindR (map_res f xs) (\<lambda>ys. Inr (y # ys)))"

definition analyze_all :: "pki \<Rightarrow> session list \<Rightarrow> session_analysis list res" where
  \<comment> \<open>\<open>analyze_pcap\<close> after the sessions were reconstructed\<close>
  "analyze_all k sessions = map_res (analyze_session k) sessions"

section \<open>Errors\<close>

lemma catch_parse_Inl: "catch_parse r = Inl e \<longleftrightarrow> r = Inl e \<and> (\<forall>m. e \<noteq> TlsParseError m)"
  by (auto simp: catch_parse_def split: sum.split pyerr.split)

lemma read_server_ok: "read_server rs \<noteq> Inl e"
proof
  assume "read_server rs = Inl e"
  then obtain d where "parse_server_hello d = Inl e" "\<forall>m. e \<noteq> TlsParseError m"
    by (auto simp: read_server_def catch_parse_Inl split: option.splits)
  then show False using server_hello_error by blast
qed

lemma read_certificate_ok: "read_certificate rs sh \<noteq> Inl e"
  by (auto simp: read_certificate_def catch_parse_def parse_certificate_message_def guardR_def Let_def
      split: option.split)

lemma read_client_Inl:
  "read_client rs = Inl e \<longleftrightarrow>
     e = IndexError \<and> (\<exists>d. dget (handshake_body rs) 1 = Some d \<and> length d = 34)"
  using client_hello_34 client_hello_error
  by (fastforce simp: read_client_def catch_parse_Inl split: option.splits)

section \<open>The analysed session before the rules\<close>

definition assembled ::
  "pki \<Rightarrow> session \<Rightarrow> client_hello option \<Rightarrow> server_hello option \<Rightarrow> certificate_msg option
   \<Rightarrow> session_analysis" where
  "assembled k s ch sh cm = note_visibility (note_certificates k (note_negotiated
     ((start_analysis s)\<lparr>sa_client_hello := ch, sa_server_hello := sh, sa_certificate := cm\<rparr>)))"

lemma start_analysis_logs [simp]:
  "sa_findings (start_analysis s) = []" "sa_not_observable (start_analysis s) = []"
  by (simp_all add: start_analysis_def new_analysis_def)

lemma note_logs [simp]:
  "sa_findings (note_negotiated sa) = sa_findings sa"
  "sa_not_observable (note_negotiated sa) = sa_not_observable sa"
  "sa_findings (note_certificates k sa) = sa_findings sa"
  "sa_not_observable (note_certificates k sa) = sa_not_observable sa"
  "sa_findings (note_visibility sa) = sa_findings sa"
  "sa_not_observable (note_visibility sa) = sa_not_observable sa"
  by (simp_all add: note_negotiated_def note_certificates_def note_visibility_def Let_def split_beta
      split: option.split)

lemma note_started [simp]:
  "sa_started_tls (note_negotiated sa) = sa_started_tls sa"
  "sa_started_tls (note_certificates k sa) = sa_started_tls sa"
  "sa_started_tls (note_visibility sa) = sa_started_tls sa"
  by (simp_all add: note_negotiated_def note_certificates_def note_visibility_def Let_def split_beta
      split: option.split)

lemma core_assembled [simp]: "core (assembled k s ch sh cm) = assembled k s ch sh cm"
  by (rule core_id) (simp_all add: assembled_def)

lemma analyze_session_Inr:
  assumes "analyze_session k s = Inr sa" and "s_tls s \<noteq> []"
  obtains ch sh cm where "sa = run_rules (k_now k) (assembled k s ch sh cm)"
  using assms
  by (auto simp: analyze_session_def start_analysis_def assembled_def Let_def bindR_eq_Inr)

lemma tls_version_run: "sa_tls_version (run_rules now sa) = sa_tls_version sa"
  using engine.run_facts [of now sa] core_sel(3) by (metis run_rules_engine)

lemma certs_run: "sa_certs (run_rules now sa) = sa_certs sa"
  using engine.run_facts [of now sa] core_sel(9) by (metis run_rules_engine)

lemma visibility_run: "sa_visibility (run_rules now sa) = sa_visibility sa"
  using engine.run_facts [of now sa] core_sel(18) by (metis run_rules_engine)

lemma skip_certs_visible:
  "skip_certs (note_visibility sa) \<longleftrightarrow>
     sa_tls_version (note_visibility sa) = Some 0x0304 \<and> \<not> certs_usable (note_visibility sa)"
  by (auto simp: skip_certs_def note_visibility_def Let_def certs_usable_def)

section \<open>Properties\<close>

text \<open>Analysing a session fails on exactly one shape of input, and then with an exception nobody
  catches: TLS bytes whose first ClientHello body has 34 bytes. Every other byte string on either side of
  the connection yields an analysis.\<close>
theorem analyze_session_fails_iff:
  "analyze_session k s = Inl e \<longleftrightarrow>
     e = IndexError \<and> s_tls s \<noteq> [] \<and>
     (\<exists>d. dget (handshake_body (records_or_none (s_tls s))) 1 = Some d \<and> length d = 34)"
  using read_server_ok read_certificate_ok
  by (auto simp: analyze_session_def start_analysis_def Let_def bindR_eq_Inl read_client_Inl)

lemma one_bad_session_loses_capture:
  "(\<exists>e. analyze_all k ss = Inl e) \<longleftrightarrow> (\<exists>s\<in>set ss. \<exists>e. analyze_session k s = Inl e)"
proof -
  have "(\<exists>e. map_res f xs = Inl e) \<longleftrightarrow> (\<exists>x\<in>set xs. \<exists>e. f x = Inl e)" for f :: "session \<Rightarrow> 'b res" and xs
  proof (induction xs)
    case (Cons x xs)
    then show ?case by (cases "f x"; cases "map_res f xs") auto
  qed simp
  then show ?thesis by (simp add: analyze_all_def)
qed

lemma no_certs_loop [simp]: "sa_certs sa = [] \<Longrightarrow> for_certs body sa = sa"
  by (simp add: for_certs_def)

lemma no_visibility [simp]: "sa_visibility sa = None \<Longrightarrow> \<not> skip_certs sa"
  by (simp add: skip_certs_def)

text \<open>On a session without TLS bytes the verdict is exactly the plaintext verdict: the plaintext
  finding if the client sent anything, the stripping finding if STARTTLS was announced or requested, and
  the implicit-port finding if the port promises TLS and the client sent plaintext; nothing else.\<close>
theorem plaintext_session_verdict:
  assumes "s_tls s = []"
  shows "\<exists>sa. analyze_session k s = Inr sa \<and>
    map f_rule_id (sa_findings sa) =
      (if s_plaintext s \<noteq> [] then [''plaintext-mail-protocol''] else []) @
      (if contains (ascii ''STARTTLS'') (s_plaintext s) \<or>
          contains (ascii ''STARTTLS'') (s_plaintext_server s) \<or> contains (ascii ''STLS'') (s_plaintext s)
       then [''starttls-strip-attempt''] else []) @
      (if s_server_port s \<in> set implicit_tls_ports \<and> s_plaintext s \<noteq> []
       then [''no-tls-on-implicit-port''] else [])"
proof -
  let ?sa = "start_analysis s"
  have c: "core ?sa = ?sa" by (rule core_id) simp_all
  have f: "sa_tls_version ?sa = None" "sa_cipher_meta ?sa = None" "sa_cipher_iana ?sa = None"
    "sa_client_hello ?sa = None" "sa_server_hello ?sa = None" "sa_certs ?sa = []"
    "sa_visibility ?sa = None" "sa_chain_result ?sa = ''no-cert''" "\<not> sa_started_tls ?sa"
    "sa_tls_bytes ?sa = 0" "sa_plaintext_bytes ?sa = length (s_plaintext s)"
    "sa_implicit_port ?sa \<longleftrightarrow> s_server_port s \<in> set implicit_tls_ports"
    "sa_saw_starttls ?sa \<longleftrightarrow> contains (ascii ''STARTTLS'') (s_plaintext s) \<or>
       contains (ascii ''STARTTLS'') (s_plaintext_server s) \<or> contains (ascii ''STLS'') (s_plaintext s)"
    using assms by (simp_all add: start_analysis_def new_analysis_def)
  have silent: "sa_findings (r ?sa) = []"
    if "r \<in> set [rule_deprecated_version, rule_non_aead_cipher, rule_weak_cipher, rule_export_cipher,
      rule_non_pfs, rule_rc4, rule_3des, rule_cert_expired now, rule_cert_not_yet_valid now,
      rule_cert_self_signed, rule_chain_untrusted, rule_weak_signature, rule_short_key,
      rule_no_client_hello_pfs_capability, rule_handshake_incomplete, rule_unknown_cipher,
      rule_legacy_groups, rule_no_modern_pfs_group, rule_downgrade_sentinel, rule_hrr_anomaly,
      rule_tls_version_downgrade, rule_ech_present, rule_legacy_compression, rule_outdated_client_stack]"
    for r now
    using that unfolding list.set
    by (elim insertE emptyE; hypsubst)
      (simp_all add: rule_deprecated_version_def rule_non_aead_cipher_def rule_weak_cipher_def
        rule_export_cipher_def rule_non_pfs_def rule_rc4_def rule_3des_def cipher_mentions_def
        rule_cert_expired_def rule_cert_not_yet_valid_def rule_cert_self_signed_def
        rule_chain_untrusted_def rule_weak_signature_def rule_short_key_def require_usable_certs_eq
        rule_no_client_hello_pfs_capability_def rule_handshake_incomplete_def rule_unknown_cipher_def
        rule_legacy_groups_def rule_no_modern_pfs_group_def rule_downgrade_sentinel_def
        rule_hrr_anomaly_def rule_tls_version_downgrade_def rule_ech_present_def
        rule_legacy_compression_def rule_outdated_client_stack_def best_offer_def f)
  have "sa_findings (run_rules now ?sa) = sa_findings (rule_ssl_in_plaintext ?sa) @
      sa_findings (rule_starttls_strip ?sa) @ sa_findings (rule_no_tls_on_tls_port ?sa)" for now
    unfolding run_rules_log c by (simp add: all_rules_def silent [of _ now])
  then show ?thesis
    using assms f
    by (auto simp: analyze_session_def rule_ssl_in_plaintext_def rule_starttls_strip_def
        rule_no_tls_on_tls_port_def)
qed

theorem plaintext_session_verdict_witness:
  "\<exists>sa. analyze_session \<lparr>k_load = (\<lambda>_. Inl []), k_verify = (\<lambda>_. Verified), k_openssl = True,
       k_anchors = None, k_now = 0\<rparr>
     ((new_session (''a'', 1) (''b'', 465) 0)\<lparr>s_plaintext := ascii ''EHLO''\<rparr>) = Inr sa \<and>
   map f_rule_id (sa_findings sa) = [''plaintext-mail-protocol'', ''no-tls-on-implicit-port'']"
  using plaintext_session_verdict [of "(new_session (''a'', 1) (''b'', 465) 0)\<lparr>s_plaintext := ascii ''EHLO''\<rparr>"
      "\<lparr>k_load = (\<lambda>_. Inl []), k_verify = (\<lambda>_. Verified), k_openssl = True,
       k_anchors = None, k_now = 0\<rparr>"]
  by (simp add: new_session_def contains_def ascii_def implicit_tls_ports_def)

lemma client_hello_on_the_wire:
  assumes "hello_ok h" and "length (enc_hello h) + 4 < 65536" and "v < 65536"
  shows "read_client (records_or_none (enc_record
     \<lparr>content_type = 22, rec_version = v, rec_payload = enc_msg (1, enc_hello h)\<rparr>)) =
     Inr (Some (hello_view h))"
proof -
  let ?r = "\<lparr>content_type = 22, rec_version = v, rec_payload = enc_msg (1, enc_hello h)\<rparr>"
  have "rec_ok ?r"
    using assms by (simp add: rec_ok_def tls_content_types_def enc_msg_def)
  then have "records_or_none (enc_record ?r) = [?r]"
    using parse_tls_records_enc [of "[?r]" default_max_records]
    by (simp add: records_or_none_def default_max_records_def)
  moreover have "carries ?r [(1, enc_hello h)]"
    using assms by (simp add: carries_def msg_ok_def hs_step_def)
  then have "dget (handshake_body [?r]) 1 = body_of 1 [(1, enc_hello h)]"
    using handshake_body_messages [of "[?r]" "[[(1, enc_hello h)]]"] by simp
  moreover have "enc_hello h \<noteq> []" by (simp add: enc_hello_def enc16_def)
  ultimately show ?thesis
    by (simp add: read_client_def body_of_def parse_client_hello_enc [OF assms(1)] catch_parse_def)
qed

text \<open>End to end, a TLS 1.3 connection whose certificates could not be observed is never judged on
  them: the analysis reports no certificate finding, names all six certificate rules as not observable and
  says so in its visibility record.\<close>
theorem tls13_certificates_not_judged:
  assumes "analyze_session k s = Inr sa" and "s_tls s \<noteq> []"
    and "sa_tls_version sa = Some 0x0304" and "\<not> certs_usable sa"
  shows "reports_only (- set cert_rule_ids) sa \<and>
    set cert_rule_ids \<subseteq> set (sa_not_observable sa) \<and>
    map_option v_cert_chain (sa_visibility sa) = Some ''not_observable_tls13''"
proof -
  obtain ch sh cm where sa: "sa = run_rules (k_now k) (assembled k s ch sh cm)"
    using analyze_session_Inr [OF assms(1, 2)] .
  let ?b = "assembled k s ch sh cm"
  have b: "sa_tls_version ?b = Some 0x0304" "\<not> certs_usable ?b"
    using assms(3, 4) by (simp_all add: sa tls_version_run certs_usable_def certs_run)
  then have skip: "skip_certs ?b"
    unfolding assembled_def by (simp only: skip_certs_visible simp_thms)
  have "map_option v_cert_chain (sa_visibility ?b) = Some ''not_observable_tls13''"
    using b unfolding assembled_def by (simp add: note_visibility_def Let_def certs_usable_def)
  then show ?thesis
    using unseen_certificates_not_judged [OF skip, of "k_now k"] by (simp add: sa visibility_run)
qed

definition probe_hello :: hello where
  "probe_hello = \<lparr>h_version = 0x0303, h_random = replicate 32 7, h_session = [], h_suites = [0x1301],
     h_compression = [0], h_exts = [Versions [0x0304]]\<rparr>"

definition probe_session :: session where
  "probe_session = (new_session (''a'', 1) (''b'', 993) 0)\<lparr>s_tls := enc_record
     \<lparr>content_type = 22, rec_version = 0x0301, rec_payload = enc_msg (1, enc_hello probe_hello)\<rparr>\<rparr>"

lemma probe_reads:
  "read_client (records_or_none (s_tls probe_session)) = Inr (Some (hello_view probe_hello))"
  "read_server (records_or_none (s_tls_server probe_session)) = Inr None"
  "read_certificate (records_or_none (s_tls_server probe_session)) None = Inr None"
proof -
  have "hello_ok probe_hello" "length (enc_hello probe_hello) + 4 < 65536"
    by (simp_all add: probe_hello_def hello_ok_def max_ext_def ext_ok_def enc_hello_def enc_u16s_def)
  then show "read_client (records_or_none (s_tls probe_session)) = Inr (Some (hello_view probe_hello))"
    using client_hello_on_the_wire [of probe_hello 769] by (simp add: probe_session_def)
  have "handshake_body (records_or_none (s_tls_server probe_session)) = []"
    by (simp add: probe_session_def new_session_def records_or_none_def parse_tls_records_def
        parse_records_loop.simps handshake_body_def)
  then show "read_server (records_or_none (s_tls_server probe_session)) = Inr None"
    "read_certificate (records_or_none (s_tls_server probe_session)) None = Inr None"
    by (simp_all add: read_server_def read_certificate_def)
qed

theorem tls13_certificates_not_judged_witness:
  "\<exists>sa. analyze_session \<lparr>k_load = (\<lambda>_. Inl []), k_verify = (\<lambda>_. Verified), k_openssl = True,
       k_anchors = None, k_now = 0\<rparr> probe_session = Inr sa \<and>
     reports_only (- set cert_rule_ids) sa \<and>
     set cert_rule_ids \<subseteq> set (sa_not_observable sa) \<and>
     map_option v_cert_chain (sa_visibility sa) = Some ''not_observable_tls13''"
proof -
  let ?k = "\<lparr>k_load = (\<lambda>_. Inl []), k_verify = (\<lambda>_. Verified), k_openssl = True,
       k_anchors = None, k_now = 0\<rparr>"
  let ?b = "assembled ?k probe_session (Some (hello_view probe_hello)) None None"
  have t: "s_tls probe_session \<noteq> []"
    by (simp add: probe_session_def enc_record_def)
  then have a: "analyze_session ?k probe_session = Inr (run_rules 0 ?b)"
    by (simp add: analyze_session_def start_analysis_def probe_reads assembled_def)
  have "ch_offered_versions (hello_view probe_hello) = [0x0304]"
    by (simp add: hello_view_def probe_hello_def note_item_def Let_def)
  then have "sa_tls_version ?b = Some 0x0304" "sa_certs ?b = []"
    by (simp_all add: assembled_def note_visibility_def note_certificates_def note_negotiated_def
        start_analysis_def new_analysis_def list_max_def Let_def)
  then have "sa_tls_version (run_rules 0 ?b) = Some 0x0304" "\<not> certs_usable (run_rules 0 ?b)"
    by (simp_all add: tls_version_run certs_usable_def certs_run)
  from tls13_certificates_not_judged [OF a t this] a show ?thesis by blast
qed

end
