(* ===== verification/Flows.thy ===== *)
theory Flows
  imports Sessions Handshake Digest Rules
begin

text \<open>
  Aggregation of mail flows and the detection of regressions (src/backend/app/live/flows.py). A
  flow is keyed by organisation, hosts, protocol and server port; each analysed session updates
  its row and is compared with the best state that was seen before. The table of flows is a
  dictionary from the flow id. Errors of the database, which \<open>update_flow\<close> swallows, are not
  modelled; the deny list is read through its 60-second cache.
\<close>

record flow =
  fl_client_host :: string
  fl_server_host :: string
  fl_protocol :: string
  fl_port :: int
  fl_total :: nat
  fl_encrypted :: nat
  fl_plaintext :: nat
  fl_versions :: "(string, nat) dict"
  fl_ciphers :: "(string, nat) dict"
  fl_best_version :: "string option"
  fl_first_seen :: time
  fl_last_seen :: time
  fl_fingerprints :: "(string, nat) dict"

definition version_ranks :: "(string, int) dict" where
  "version_ranks = [(''SSLv3'', 0), (''TLS 1.0'', 1), (''TLS 1.1'', 2), (''TLS 1.2'', 3), (''TLS 1.3'', 4)]"

definition version_rank :: "string option \<Rightarrow> int" where
  "version_rank v = dget_or version_ranks (str_strip (case v of None \<Rightarrow> '''' | Some s \<Rightarrow> s)) (- 1)"

definition flow_id :: "string option \<Rightarrow> string \<Rightarrow> string \<Rightarrow> string \<Rightarrow> int \<Rightarrow> string" where
  "flow_id org_id client server protocol port =
     (let key = join ''|'' [(case org_id of None \<Rightarrow> '''' | Some x \<Rightarrow> x), client, server, protocol, dec_int port]
      in ''flow-'' @ take 32 (sha256_hex (ascii key)))"

definition flow_endpoints :: "string \<Rightarrow> string \<times> string \<times> int" where
  \<comment> \<open>\<open>parse_five_tuple\<close>\<close>
  "flow_endpoints five_tuple =
     (let (client, cport, server, sport) = split_five_tuple five_tuple in (client, server, sport))"

datatype regression =
    Sent_Plaintext string
  | Downgraded string string string

definition regression_severity :: "regression \<Rightarrow> severity" where
  "regression_severity r = (case r of Sent_Plaintext t \<Rightarrow> HIGH | Downgraded t a b \<Rightarrow> MEDIUM)"

definition flow_text :: "flow \<Rightarrow> string" where
  "flow_text f = ''Flow '' @ fl_client_host f @ '' -> '' @ fl_server_host f @ '':'' @ dec_int (fl_port f)
     @ '' ('' @ fl_protocol f @ '')''"

definition regression_title :: "regression \<Rightarrow> string" where
  "regression_title r = (case r of Sent_Plaintext t \<Rightarrow> t
     | Downgraded t a b \<Rightarrow> t @ '' downgraded from '' @ a @ '' to '' @ b)"

definition detect_regression :: "flow \<Rightarrow> string option \<Rightarrow> bool \<Rightarrow> regression option" where
  "detect_regression f tls_version encrypted =
     (if fl_total f < 3 then None
      else if \<not> encrypted \<and> fl_plaintext f = 0
      then Some (Sent_Plaintext (flow_text f @ '' sent plaintext after '' @ dec_of (fl_total f) @ '' encrypted sessions''))
      else (case (tls_version, fl_best_version f) of
              (Some v, Some best) \<Rightarrow>
                if v \<noteq> '''' \<and> best \<noteq> '''' \<and> version_rank (Some v) < version_rank (Some best)
                then Some (Downgraded (flow_text f) best v) else None
            | _ \<Rightarrow> None))"

definition bump :: "string \<Rightarrow> (string, nat) dict \<Rightarrow> (string, nat) dict" where
  \<comment> \<open>\<open>d[k] = d.get(k, 0) + 1\<close>\<close>
  "bump k d = dset k (dget_or d k 0 + 1) d"

fun count_fingerprints ::
  "nat \<Rightarrow> string list \<Rightarrow> (string, nat) dict \<times> string list \<Rightarrow> (string, nat) dict \<times> string list" where
  "count_fingerprints n_total [] st = st"
| "count_fingerprints n_total (fp # fps) (seen, fresh) =
     (if fp = '''' then count_fingerprints n_total fps (seen, fresh)
      else (case dget seen fp of
              Some n \<Rightarrow> count_fingerprints n_total fps (dset fp (n + 1) seen, fresh)
            | None \<Rightarrow> count_fingerprints n_total fps
                (dset fp 1 seen, if 3 < n_total then fresh @ [fp] else fresh)))"

definition new_flow :: "string \<Rightarrow> string \<Rightarrow> string \<Rightarrow> int \<Rightarrow> string option \<Rightarrow> time \<Rightarrow> flow" where
  "new_flow client server protocol port tls_version now =
     \<lparr>fl_client_host = client, fl_server_host = server, fl_protocol = protocol, fl_port = port,
      fl_total = 0, fl_encrypted = 0, fl_plaintext = 0, fl_versions = [], fl_ciphers = [],
      fl_best_version = tls_version, fl_first_seen = now, fl_last_seen = now, fl_fingerprints = []\<rparr>"

definition note_version :: "string option \<Rightarrow> flow \<Rightarrow> flow" where
  "note_version tls_version f =
     (case tls_version of
        None \<Rightarrow> f
      | Some v \<Rightarrow>
          if v = '''' then f
          else (let f = f\<lparr>fl_versions := bump v (fl_versions f)\<rparr>
                in if version_rank (fl_best_version f) < version_rank (Some v)
                   then f\<lparr>fl_best_version := Some v\<rparr> else f))"

definition note_cipher :: "string option \<Rightarrow> flow \<Rightarrow> flow" where
  "note_cipher suite f =
     (case suite of
        None \<Rightarrow> f | Some c \<Rightarrow> if c = '''' then f else f\<lparr>fl_ciphers := bump c (fl_ciphers f)\<rparr>)"

definition touch_flow ::
  "string option \<Rightarrow> string option \<Rightarrow> bool \<Rightarrow> time \<Rightarrow> string list \<Rightarrow> flow \<Rightarrow> flow \<times> string list" where
  \<comment> \<open>the updates of an existing row; the second component is \<open>new_fingerprints\<close>\<close>
  "touch_flow tls_version suite encrypted now fingerprints f =
     (let f = f\<lparr>fl_total := fl_total f + 1\<rparr>;
          f = (if encrypted then f\<lparr>fl_encrypted := fl_encrypted f + 1\<rparr>
               else f\<lparr>fl_plaintext := fl_plaintext f + 1\<rparr>);
          f = note_cipher suite (note_version tls_version f);
          f = (if now < fl_first_seen f then f\<lparr>fl_first_seen := now\<rparr> else f);
          f = f\<lparr>fl_last_seen := now\<rparr>;
          (seen, fresh) = count_fingerprints (fl_total f) fingerprints (fl_fingerprints f, [])
      in (f\<lparr>fl_fingerprints := seen\<rparr>, fresh))"

definition update_flow ::
  "string option \<Rightarrow> string \<Rightarrow> string \<Rightarrow> string option \<Rightarrow> string option \<Rightarrow> bool \<Rightarrow> time \<Rightarrow> string list \<Rightarrow>
   (string, flow) dict \<Rightarrow> (string, flow) dict \<times> string list \<times> regression option" where
  "update_flow org_id five_tuple protocol tls_version suite encrypted now fingerprints flows =
     (let (client, server, port) = flow_endpoints five_tuple;
          fid = flow_id org_id client server protocol port;
          (f, regression) = (case dget flows fid of
             None \<Rightarrow> (new_flow client server protocol port tls_version now, None)
           | Some f \<Rightarrow> (f, detect_regression f tls_version encrypted));
          (f, fresh) = touch_flow tls_version suite encrypted now fingerprints f
      in (dset fid f flows, fresh, regression))"

section \<open>The deny list\<close>

type_synonym deny_cache = "(string, time \<times> (string \<times> string) list) dict"

definition deny_list_hit ::
  "time \<Rightarrow> (string \<Rightarrow> (string \<times> string) list) \<Rightarrow> string option \<Rightarrow> (string \<times> string option) list \<Rightarrow>
   deny_cache \<Rightarrow> string option \<times> deny_cache" where
  \<comment> \<open>\<open>rows\<close> is the query for the organisation's entries of kind deny\<close>
  "deny_list_hit now rows org_id fps cache =
     (let wanted = List.map_filter (\<lambda>(k, v). case v of
            None \<Rightarrow> None | Some x \<Rightarrow> if x = '''' then None else Some (k, x)) fps;
          org = (case org_id of None \<Rightarrow> '''' | Some x \<Rightarrow> x)
      in if wanted = [] \<or> org = '''' then (None, cache)
         else (let stale = (case dget cache org of None \<Rightarrow> True | Some (at_time, _) \<Rightarrow> 60 < now - at_time);
                   cache = (if stale then dset org (now, rows org) cache else cache);
                   denied = (case dget cache org of None \<Rightarrow> [] | Some (_, d) \<Rightarrow> d)
               in (map_option (\<lambda>(t, v). t @ '':'' @ v) (find (\<lambda>p. p \<in> set denied) wanted), cache)))"

section \<open>What the detector can and cannot see\<close>

lemma strip_Cons: "\<not> is_space c \<Longrightarrow> \<exists>u. str_strip (c # t) = c # u"
proof -
  assume c: "\<not> is_space c"
  then have "dropWhile is_space (rev t @ [c]) = dropWhile is_space (rev t) @ [c]"
    by (auto simp: dropWhile_append)
  with c have "str_strip (c # t) = c # rev (dropWhile is_space (rev t))" by (simp add: str_strip_def)
  then show ?thesis by blast
qed

lemma no_rank: "str_strip s \<notin> fst ` set version_ranks \<Longrightarrow> version_rank (Some s) = - 1"
  by (force simp: version_rank_def dget_or_def split: option.splits dest: map_of_SomeD)

lemma no_rank_hex: "version_rank (Some (CHR ''0'' # t)) = - 1"
proof (rule no_rank)
  obtain u where "str_strip (CHR ''0'' # t) = CHR ''0'' # u"
    using strip_Cons [of "CHR ''0''" t] by (auto simp: is_space_def)
  then show "str_strip (CHR ''0'' # t) \<notin> fst ` set version_ranks"
    by (simp add: version_ranks_def)
qed

lemma no_rank_name: "version_rank (version_name v) = - 1"
proof -
  have "list_all (\<lambda>s. version_rank s = - 1)
      [None, Some ''SSLv3.0'', Some ''TLS1.0'', Some ''TLS1.1'', Some ''TLS1.2'', Some ''TLS1.3'']"
    by code_simp
  then show ?thesis
    by (auto simp: version_name_def tls_version_names_def no_rank_hex split: option.splits)
qed

text \<open>The versions that reach the detector are the names of theory \<open>Handshake\<close>. None of them is in
  the table of ranks, so no two of them compare.\<close>

record observation =
  ob_five_tuple :: string
  ob_protocol :: string
  ob_version :: "nat option"
  ob_cipher :: "string option"
  ob_time :: time
  ob_fps :: "string list"

definition observe :: "string option \<Rightarrow> observation \<Rightarrow> (string, flow) dict \<Rightarrow> (string, flow) dict \<times> string list \<times> regression option" where
  \<comment> \<open>how \<open>AnalysisWorker._persist\<close> calls \<open>update_flow\<close>: encrypted means that a version is known\<close>
  "observe org o' =
     update_flow org (ob_five_tuple o') (ob_protocol o') (version_name (ob_version o')) (ob_cipher o')
       (version_name (ob_version o') \<noteq> None) (ob_time o') (ob_fps o')"

fun observe_all :: "string option \<Rightarrow> observation list \<Rightarrow> (string, flow) dict \<Rightarrow> regression option list" where
  "observe_all org [] flows = []"
| "observe_all org (o' # os) flows =
     (let (flows, fresh, r) = observe org o' flows in r # observe_all org os flows)"

definition named_best :: "(string, flow) dict \<Rightarrow> bool" where
  "named_best flows \<longleftrightarrow> (\<forall>fid f. dget flows fid = Some f \<longrightarrow> version_rank (fl_best_version f) = - 1)"

lemma new_flow_best [simp]: "fl_best_version (new_flow c s p n v now) = v"
  by (simp add: new_flow_def)

lemma touch_best: "version_rank v = - 1 \<Longrightarrow> version_rank (fl_best_version f) = - 1 \<Longrightarrow>
    version_rank (fl_best_version (fst (touch_flow v c e now fps f))) = - 1"
  by (auto simp: touch_flow_def note_version_def note_cipher_def Let_def split_beta split: option.splits)

lemma named_dset: "named_best flows \<Longrightarrow> version_rank (fl_best_version f) = - 1 \<Longrightarrow> named_best (dset fid f flows)"
  by (simp add: named_best_def)

lemma observe_named:
  assumes "named_best flows" "observe org o' flows = (flows', fresh, r)"
  shows "named_best flows' \<and> (\<forall>t a b. r \<noteq> Some (Downgraded t a b))"
proof -
  obtain client server port where ep: "flow_endpoints (ob_five_tuple o') = (client, server, port)"
    by (cases "flow_endpoints (ob_five_tuple o')")
  let ?fid = "flow_id org client server (ob_protocol o') port"
  let ?v = "version_name (ob_version o')"
  show ?thesis
  proof (cases "dget flows ?fid")
    case None
    with assms(2) have "r = None" "\<exists>e t fps. flows' = dset ?fid (fst (touch_flow ?v (ob_cipher o') e t fps
        (new_flow client server (ob_protocol o') port ?v (ob_time o')))) flows"
      by (auto simp: observe_def update_flow_def ep Let_def split_beta)
    then show ?thesis
      using assms(1) by (auto intro!: named_dset touch_best simp: no_rank_name)
  next
    case (Some f)
    then have f: "version_rank (fl_best_version f) = - 1" using assms(1) by (simp add: named_best_def)
    from Some assms(2) have "\<exists>e. r = detect_regression f ?v e"
      "\<exists>e t fps. flows' = dset ?fid (fst (touch_flow ?v (ob_cipher o') e t fps f)) flows"
      by (auto simp: observe_def update_flow_def ep Let_def split_beta)
    moreover have "detect_regression f ?v e \<noteq> Some (Downgraded t a b)" for e t a b
      using f no_rank_name [of "ob_version o'"] by (auto simp: detect_regression_def split: option.splits)
    ultimately show ?thesis
      using assms(1) f by (auto intro!: named_dset touch_best simp: no_rank_name)
  qed
qed

text \<open>C39: No sequence of sessions is ever reported as a version downgrade, whatever versions were
  negotiated before and after: the names that the handshake parser gives to the TLS versions are
  not the ones that the detector ranks.\<close>

theorem downgrade_never_reported:
  "Some (Downgraded t a b) \<notin> set (observe_all org os [])"
proof -
  have "named_best flows \<Longrightarrow> Some (Downgraded t a b) \<notin> set (observe_all org os flows)" for flows
  proof (induction os arbitrary: flows)
    case Nil
    then show ?case by simp
  next
    case (Cons o' os)
    obtain flows' fresh r where o': "observe org o' flows = (flows', fresh, r)"
      by (cases "observe org o' flows")
    with observe_named [OF Cons.prems this] Cons.IH [of flows'] show ?case
      by (auto simp: Let_def)
  qed
  then show ?thesis by (simp add: named_best_def)
qed

lemma real_downgrade_ranked:
  \<comment> \<open>with the names of the table the same drop is ranked as a regression\<close>
  "version_rank (Some ''TLS 1.0'') < version_rank (Some ''TLS 1.3'')"
  by code_simp

end
