(* ===== verification/Streams.thy ===== *)
theory Streams
  imports Interfaces
begin

text \<open>
  The stream bus (src/backend/app/live/streams.py): the bounded publisher of the capture path, the
  consumer's reading, acknowledging and dead-lettering, and the retry accounting around them. What the
  Redis server answers is an input (\<open>ok\<close> flags, lists of entries); what the code asks of it is recorded in
  \<open>broker\<close>.
\<close>

section \<open>The resilient publisher\<close>

record 'a publisher =
  pb_buf :: "'a list"
  pb_max :: nat
  pb_dropped :: nat
  pb_counters :: "(string, nat) dict"

definition new_publisher :: "nat \<Rightarrow> 'a publisher" where
  "new_publisher m = \<lparr>pb_buf = [], pb_max = m, pb_dropped = 0, pb_counters = []\<rparr>"

definition pb_count :: "string \<Rightarrow> 'a publisher \<Rightarrow> 'a publisher" where
  "pb_count reason pb =
     (let name = ''sessions_dropped_total{reason='' @ [CHR 0x22] @ reason @ [CHR 0x22] @ ''}''
      in pb\<lparr>pb_dropped := pb_dropped pb + (if reason = ''buffer-full'' then 1 else 0),
            pb_counters := dset name (dget_or (pb_counters pb) name 0 + 1) (pb_counters pb)\<rparr>)"

definition buffer_item :: "'a \<Rightarrow> 'a publisher \<Rightarrow> 'a publisher res" where
  \<comment> \<open>the \<open>except\<close> branch of \<open>publish\<close>; \<open>popleft\<close> of an empty deque raises\<close>
  "buffer_item x pb =
     bindR (if pb_max pb \<le> length (pb_buf pb)
            then (if pb_buf pb = [] then Inl IndexError
                  else Inr (pb_count ''buffer-full'' (pb\<lparr>pb_buf := tl (pb_buf pb)\<rparr>)))
            else Inr pb)
       (\<lambda>pb. Inr (pb_count ''buffered'' (pb\<lparr>pb_buf := pb_buf pb @ [x]\<rparr>)))"

definition publish_item :: "bool \<Rightarrow> 'a \<Rightarrow> 'a publisher \<Rightarrow> ('a list \<times> 'a publisher) res" where
  \<comment> \<open>what reached the stream, and the publisher\<close>
  "publish_item ok x pb = (if ok then Inr ([x], pb) else bindR (buffer_item x pb) (\<lambda>pb. Inr ([], pb)))"

fun attempt :: "nat \<Rightarrow> bool list \<Rightarrow> bool \<times> bool list" where
  \<comment> \<open>up to \<open>n\<close> attempts; the list says which of the coming attempts succeed, and none do beyond it\<close>
  "attempt 0 outs = (False, outs)"
| "attempt (Suc n) [] = (False, [])"
| "attempt (Suc n) (ok # outs) = (if ok then (True, outs) else attempt n outs)"

fun flush_items :: "nat \<Rightarrow> bool list \<Rightarrow> 'a list \<Rightarrow> 'a list \<times> 'a list" where
  \<comment> \<open>what was sent, and what stays in the buffer\<close>
  "flush_items retries outs [] = ([], [])"
| "flush_items retries outs (x # buf) =
     (let (ok, outs) = attempt (max 1 retries) outs
      in if ok then (let (sent, rest) = flush_items retries outs buf in (x # sent, rest))
         else ([], x # buf))"

definition flush_publisher :: "nat \<Rightarrow> bool list \<Rightarrow> 'a publisher \<Rightarrow> 'a list \<times> 'a publisher" where
  "flush_publisher retries outs pb =
     (let (sent, rest) = flush_items retries outs (pb_buf pb) in (sent, pb\<lparr>pb_buf := rest\<rparr>))"

definition pub_depth :: "'a publisher \<Rightarrow> nat" where
  "pub_depth pb = length (pb_buf pb)"

lemma pb_count_simps [simp]:
  "pb_buf (pb_count r pb) = pb_buf pb" "pb_max (pb_count r pb) = pb_max pb"
  "pb_dropped (pb_count r pb) = pb_dropped pb + (if r = ''buffer-full'' then 1 else 0)"
  by (simp_all add: pb_count_def Let_def)

lemma flush_items_split: "flush_items retries outs buf = (sent, rest) \<Longrightarrow> buf = sent @ rest"
  by (induction retries outs buf arbitrary: sent rest rule: flush_items.induct)
    (auto simp: Let_def split: prod.splits if_splits)

section \<open>The publisher as a buffer\<close>

definition push_failed :: "'a \<Rightarrow> 'a publisher \<Rightarrow> 'a publisher" where
  "push_failed x pb = (case buffer_item x pb of Inl _ \<Rightarrow> pb | Inr pb \<Rightarrow> pb)"

definition pop_sent :: "nat \<Rightarrow> 'a publisher \<Rightarrow> 'a publisher" where
  \<comment> \<open>what a flush that sent \<open>n\<close> items leaves\<close>
  "pop_sent n pb = pb\<lparr>pb_buf := drop n (pb_buf pb)\<rparr>"

definition pub_ok :: "'a publisher \<Rightarrow> bool" where
  "pub_ok pb \<longleftrightarrow> 0 < pb_max pb \<and> length (pb_buf pb) \<le> pb_max pb"

lemma buffer_item_Inr:
  assumes "pub_ok pb"
  obtains pb' where "buffer_item x pb = Inr pb'" "pub_ok pb'"
    "pb_buf pb' = (if length (pb_buf pb) < pb_max pb then pb_buf pb else tl (pb_buf pb)) @ [x]"
    "pb_dropped pb' = pb_dropped pb + (if length (pb_buf pb) < pb_max pb then 0 else 1)"
    "pb_max pb' = pb_max pb"
proof (cases "length (pb_buf pb) < pb_max pb")
  case True
  then show ?thesis using assms that by (simp add: buffer_item_def pub_ok_def)
next
  case False
  with assms have "pb_buf pb \<noteq> []" "length (pb_buf pb) = pb_max pb" by (auto simp: pub_ok_def)
  then show ?thesis using False assms that by (simp add: buffer_item_def pub_ok_def)
qed

interpretation pub: fifo pb_buf push_failed "\<lambda>n pb. take n (pb_buf pb)" pop_sent pub_ok
  "\<lambda>x pb. length (pb_buf pb) < pb_max pb"
proof (unfold_locales, goal_cases)
  case (1 q x)
  then show ?case by (auto simp: push_failed_def elim!: buffer_item_Inr [of q x])
next
  case (2 q x)
  then show ?case by (auto simp: push_failed_def elim!: buffer_item_Inr [of q x])
qed (auto simp: pop_sent_def pub_ok_def)

section \<open>Runs of the publisher\<close>

datatype 'a pub_op = Publish bool 'a | Flush "bool list"

fun pub_run :: "nat \<Rightarrow> 'a pub_op list \<Rightarrow> 'a publisher \<Rightarrow> ('a list \<times> 'a publisher) res" where
  \<comment> \<open>everything that reached the stream, in order, and the publisher\<close>
  "pub_run retries [] pb = Inr ([], pb)"
| "pub_run retries (Publish ok x # ops) pb =
     bindR (publish_item ok x pb) (\<lambda>(s, pb). bindR (pub_run retries ops pb) (\<lambda>(t, pb). Inr (s @ t, pb)))"
| "pub_run retries (Flush outs # ops) pb =
     (let (s, pb) = flush_publisher retries outs pb
      in bindR (pub_run retries ops pb) (\<lambda>(t, pb). Inr (s @ t, pb)))"

fun published :: "'a pub_op list \<Rightarrow> 'a list" where
  "published [] = []"
| "published (Publish ok x # ops) = x # published ops"
| "published (Flush outs # ops) = published ops"

lemma flush_ok:
  assumes "pub_ok pb" and "flush_publisher retries outs pb = (s, pb')"
  shows "pub_ok pb'" "pb_buf pb = s @ pb_buf pb'" "pb_dropped pb' = pb_dropped pb" "pb_max pb' = pb_max pb"
  using assms flush_items_split [of retries outs "pb_buf pb"]
  by (auto simp: flush_publisher_def pub_ok_def Let_def split: prod.splits)

lemma pub_run_accounts:
  "pub_ok pb \<Longrightarrow> \<exists>s pb'. pub_run retries ops pb = Inr (s, pb') \<and> pub_ok pb' \<and> pb_max pb' = pb_max pb \<and>
     length (published ops) + length (pb_buf pb) + pb_dropped pb =
       length s + length (pb_buf pb') + pb_dropped pb' \<and>
     mset s + mset (pb_buf pb') \<subseteq># mset (published ops) + mset (pb_buf pb)"
proof (induction ops arbitrary: pb)
  case Nil
  then show ?case by simp
next
  case (Cons op ops)
  show ?case
  proof (cases op)
    case (Flush outs)
    obtain s pb1 where f: "flush_publisher retries outs pb = (s, pb1)" by fastforce
    note fk = flush_ok [OF Cons.prems f]
    from Cons.IH [OF fk(1)] fk show ?thesis by (auto simp: Flush f add_ac)
  next
    case (Publish ok x)
    show ?thesis
    proof (cases ok)
      case True
      with Cons.IH [OF Cons.prems] show ?thesis by (auto simp: Publish publish_item_def add_ac)
    next
      case False
      obtain pb1 where b: "buffer_item x pb = Inr pb1" "pub_ok pb1"
        "pb_buf pb1 = (if length (pb_buf pb) < pb_max pb then pb_buf pb else tl (pb_buf pb)) @ [x]"
        "pb_dropped pb1 = pb_dropped pb + (if length (pb_buf pb) < pb_max pb then 0 else 1)"
        "pb_max pb1 = pb_max pb"
        using Cons.prems by (rule buffer_item_Inr)
      have len: "length (pb_buf pb1) + pb_dropped pb1 = Suc (length (pb_buf pb) + pb_dropped pb)"
        using b(3, 4) Cons.prems by (auto simp: pub_ok_def)
      have "mset (tl (pb_buf pb)) \<subseteq># mset (pb_buf pb)"
        by (cases "pb_buf pb") auto
      then have ms: "mset (pb_buf pb1) \<subseteq># add_mset x (mset (pb_buf pb))"
        using b(3) by auto
      from Cons.IH [OF b(2)] obtain s pb' where r: "pub_run retries ops pb1 = Inr (s, pb')" "pub_ok pb'"
        "pb_max pb' = pb_max pb1" "length (published ops) + length (pb_buf pb1) + pb_dropped pb1 =
          length s + length (pb_buf pb') + pb_dropped pb'"
        "mset s + mset (pb_buf pb') \<subseteq># mset (published ops) + mset (pb_buf pb1)" by blast
      have "mset s + mset (pb_buf pb') \<subseteq># mset (published ops) + add_mset x (mset (pb_buf pb))"
        using r(5) ms by (meson mset_subset_eq_mono_add_right_cancel subset_mset.add_left_mono
            subset_mset.order_trans)
      with r len b show ?thesis by (auto simp: Publish False publish_item_def)
    qed
  qed
qed

text \<open>C38: The capture path never blocks, never grows and never loses count: from any publisher within its
  bound, every sequence of publishes and flushes, with any pattern of Redis failures, runs without an
  exception and stays within the bound; every session offered is either on the stream, in the buffer or
  counted as dropped, and none is sent twice.\<close>
theorem publisher_accounts:
  assumes "pub_ok pb"
  shows "\<exists>s pb'. pub_run retries ops pb = Inr (s, pb') \<and> length (pb_buf pb') \<le> pb_max pb \<and>
     length (published ops) + length (pb_buf pb) + pb_dropped pb =
       length s + length (pb_buf pb') + pb_dropped pb' \<and>
     mset s + mset (pb_buf pb') \<subseteq># mset (published ops) + mset (pb_buf pb)"
  using pub_run_accounts [OF assms, of retries ops] unfolding pub_ok_def by fastforce

theorem publisher_accounts_witness:
  "\<exists>s pb'. pub_run 3 [Publish False 1, Publish False (2 :: nat), Publish False 3, Flush [True, False, True]]
       (new_publisher 2) = Inr (s, pb') \<and> length (pb_buf pb') \<le> 2 \<and>
     3 = length s + length (pb_buf pb') + pb_dropped pb'"
  using publisher_accounts [of "new_publisher 2" 3
      "[Publish False 1, Publish False (2 :: nat), Publish False 3, Flush [True, False, True]]"]
  by (force simp: new_publisher_def pub_ok_def)

text \<open>While the broker is down and the buffer has room, order is kept: the queue laws give it.\<close>

lemma outage_keeps_order:
  assumes "pub_ok pb" and "fifo.admitted push_failed (\<lambda>n pb. take n (pb_buf pb)) pop_sent
      (\<lambda>x pb. length (pb_buf pb) < pb_max pb) ops pb"
    and "fifo.run push_failed (\<lambda>n pb. take n (pb_buf pb)) pop_sent ops (pb, pb_buf pb, []) = (pb', pushed, sent)"
  shows "sent @ pb_buf pb' = pushed"
  using pub.run_delivers [OF assms(1, 2) _ assms(3)] by simp

lemma zero_buffer_raises:
  "publish_item False x (new_publisher 0) = Inl IndexError"
  by (simp add: publish_item_def buffer_item_def new_publisher_def)

section \<open>Consuming\<close>

record 'a broker =
  br_attempts :: "(string, nat) dict"
  br_acked :: "string list"
  br_dlq :: "(string \<times> 'a \<times> nat) list"

definition note_attempt :: "string \<Rightarrow> 'a broker \<Rightarrow> nat \<times> 'a broker" where
  "note_attempt eid br =
     (let n = dget_or (br_attempts br) eid 0 + 1 in (n, br\<lparr>br_attempts := dset eid n (br_attempts br)\<rparr>))"

definition clear_attempts :: "string \<Rightarrow> 'a broker \<Rightarrow> 'a broker" where
  "clear_attempts eid br = br\<lparr>br_attempts := ddel eid (br_attempts br)\<rparr>"

definition ack_entry :: "string \<Rightarrow> 'a broker \<Rightarrow> 'a broker" where
  "ack_entry eid br = br\<lparr>br_acked := br_acked br @ [eid]\<rparr>"

definition dead_letter :: "string \<Rightarrow> 'a \<Rightarrow> nat \<Rightarrow> 'a broker \<Rightarrow> 'a broker" where
  "dead_letter eid payload attempts br = ack_entry eid (br\<lparr>br_dlq := br_dlq br @ [(eid, payload, attempts)]\<rparr>)"

definition decode_entries :: "(string \<times> 'a option) list \<Rightarrow> (string \<times> 'a) list" where
  \<comment> \<open>the loop of \<open>poll_raw\<close> and of \<open>reclaim\<close>: an entry whose fields do not decode is skipped\<close>
  "decode_entries entries = List.map_filter (\<lambda>(eid, p). map_option (Pair eid) p) entries"

definition poll_entries :: "(string \<times> 'a option) list \<Rightarrow> 'a broker \<Rightarrow> 'a list \<times> 'a broker" where
  \<comment> \<open>the legacy \<open>poll\<close>: acknowledges on read\<close>
  "poll_entries entries br =
     (let items = decode_entries entries
      in (map snd items, foldl (\<lambda>br eid. ack_entry eid br) br (map fst items)))"

definition handle_entry :: "nat \<Rightarrow> ('a \<Rightarrow> 's \<Rightarrow> 's res) \<Rightarrow> string \<Rightarrow> 'a \<Rightarrow> 's \<times> 'a broker \<Rightarrow> 's \<times> 'a broker" where
  \<comment> \<open>\<open>AnalysisWorker._handle_entry\<close> of src/backend/app/live/analyze.py; a failing \<open>process\<close> leaves the
     store as it was\<close>
  "handle_entry max_attempts process eid payload w =
     (case w of (s, br) \<Rightarrow>
        (case process payload s of
           Inl e \<Rightarrow>
             (let (n, br) = note_attempt eid br
              in if max_attempts \<le> n then (s, dead_letter eid payload n br) else (s, br))
         | Inr s' \<Rightarrow> (s', ack_entry eid (clear_attempts eid br))))"

fun redeliver :: "nat \<Rightarrow> nat \<Rightarrow> ('a \<Rightarrow> 's \<Rightarrow> 's res) \<Rightarrow> string \<Rightarrow> 'a \<Rightarrow> 's \<times> 'a broker \<Rightarrow> 's \<times> 'a broker" where
  \<comment> \<open>the same entry is delivered \<open>k\<close> times\<close>
  "redeliver 0 m process eid payload w = w"
| "redeliver (Suc k) m process eid payload w =
     redeliver k m process eid payload (handle_entry m process eid payload w)"

lemma redeliver_failing:
  assumes "\<And>s. \<exists>e. process payload s = Inl e"
  shows "dget_or (br_attempts br) eid 0 + k < m \<Longrightarrow>
    redeliver k m process eid payload (s, br) =
      (s, if k = 0 then br
          else br\<lparr>br_attempts := dset eid (dget_or (br_attempts br) eid 0 + k) (br_attempts br)\<rparr>)"
proof (induction k arbitrary: br)
  case 0
  then show ?case by simp
next
  case (Suc k)
  obtain e where e: "process payload s = Inl e" using assms by blast
  let ?n = "dget_or (br_attempts br) eid 0"
  let ?br = "br\<lparr>br_attempts := dset eid (Suc ?n) (br_attempts br)\<rparr>"
  have h: "handle_entry m process eid payload (s, br) = (s, ?br)"
    using Suc.prems by (simp add: handle_entry_def e note_attempt_def Let_def)
  have n: "dget_or (br_attempts ?br) eid 0 = Suc ?n" by (simp add: dget_or_def)
  have "redeliver k m process eid payload (s, ?br) =
      (s, if k = 0 then ?br else ?br\<lparr>br_attempts := dset eid (Suc ?n + k) (br_attempts ?br)\<rparr>)"
    using Suc.IH [of ?br] Suc.prems n by simp
  then show ?case
    by (simp add: h)
qed

lemma redeliver_last:
  "redeliver (Suc k) m process eid payload w =
     handle_entry m process eid payload (redeliver k m process eid payload w)"
  by (induction k arbitrary: w) simp_all

text \<open>A poison message is bounded: an entry whose processing always fails is left unacknowledged and
  out of the dead-letter stream for the first attempts, and the attempt that reaches the limit dead-letters
  it, acknowledges it once and changes nothing in the store.\<close>
theorem poison_dead_lettered_at_limit:
  assumes "\<And>s. \<exists>e. process payload s = Inl e" and "dget (br_attempts br) eid = None" and "0 < m"
  shows "(\<forall>k<m. br_acked (snd (redeliver k m process eid payload (s, br))) = br_acked br \<and>
              br_dlq (snd (redeliver k m process eid payload (s, br))) = br_dlq br) \<and>
    fst (redeliver m m process eid payload (s, br)) = s \<and>
    br_acked (snd (redeliver m m process eid payload (s, br))) = br_acked br @ [eid] \<and>
    br_dlq (snd (redeliver m m process eid payload (s, br))) = br_dlq br @ [(eid, payload, m)]"
proof -
  note r = redeliver_failing [where process = process and payload = payload and s = s, OF assms(1)]
  have n: "dget_or (br_attempts br) eid 0 = 0" using assms(2) by (simp add: dget_or_def)
  obtain k where k: "m = Suc k" using assms(3) by (cases m) auto
  obtain e where e: "process payload s = Inl e" using assms(1) by blast
  have "redeliver k m process eid payload (s, br) =
      (s, if k = 0 then br else br\<lparr>br_attempts := dset eid k (br_attempts br)\<rparr>)"
    using r [of br eid k m] n k by simp
  then have last: "redeliver m m process eid payload (s, br) =
      handle_entry m process eid payload (s, if k = 0 then br else br\<lparr>br_attempts := dset eid k (br_attempts br)\<rparr>)"
    unfolding k redeliver_last by simp
  have "(\<forall>j<m. br_acked (snd (redeliver j m process eid payload (s, br))) = br_acked br \<and>
              br_dlq (snd (redeliver j m process eid payload (s, br))) = br_dlq br)"
    using r [of br eid _ m] n by simp
  moreover have "fst (redeliver m m process eid payload (s, br)) = s \<and>
    br_acked (snd (redeliver m m process eid payload (s, br))) = br_acked br @ [eid] \<and>
    br_dlq (snd (redeliver m m process eid payload (s, br))) = br_dlq br @ [(eid, payload, m)]"
    using n k unfolding last
    by (simp add: handle_entry_def e note_attempt_def dead_letter_def ack_entry_def dget_or_def)
  ultimately show ?thesis by simp
qed

theorem poison_dead_lettered_at_limit_witness:
  "br_dlq (snd (redeliver 3 3 (\<lambda>p s. Inl KeyError) ''7-0'' True
     (0 :: nat, \<lparr>br_attempts = [], br_acked = [], br_dlq = []\<rparr>))) = [(''7-0'', True, 3)]"
  using poison_dead_lettered_at_limit [of "\<lambda>p s. Inl KeyError" True
      "\<lparr>br_attempts = [], br_acked = [], br_dlq = []\<rparr>" "''7-0''" 3 "0 :: nat"] by simp

lemma undecodable_entries_vanish:
  "decode_entries [(eid, None)] = [] \<and> br_acked (snd (poll_entries [(eid, None)] br)) = br_acked br"
  by (simp add: decode_entries_def poll_entries_def map_filter_simps)

end
