(* ===== verification/Worker.thy ===== *)
theory Worker
  imports Analysis Flows Streams
begin

text \<open>
  The analysis worker (src/backend/app/live/analyze.py): one session payload is decoded, analysed by
  the engine of theory \<open>Analysis\<close>, scored, persisted under a deterministic id, and its findings are
  published. The tables it writes are the record \<open>store\<close>, what it sends to the bus and the counters
  it raises are lists of the record \<open>worker\<close>. The scorer (a trained model) and the decoding of the
  payload's JSON are inputs; so are the outcome of the final commit and how many of the three bus
  calls succeed. The attributes of a row that only copy the analysis are left out.
\<close>

record scoring =
  sc_posture :: "real option"
  sc_anomaly :: bool
  sc_model_version :: "string option"
  sc_shap :: "(string \<times> real \<times> real) list"

record payload =
  p_fields :: "string list"
  p_org_id :: "string option"
  p_session :: "pyerr + session"

record session_row =
  r_job_id :: string
  r_org_id :: "string option"
  r_five_tuple :: string
  r_tls_version :: "string option"
  r_chain_valid :: bool
  r_is_anomaly :: bool
  r_risk_score :: "real option"
  r_finding_count :: nat
  r_max_severity :: "severity option"

record store =
  st_sessions :: "(string, session_row) dict"
  st_findings :: "(string \<times> finding) list"
  st_shap :: "(string \<times> string \<times> real \<times> real) list"
  st_jobs :: "(string, string option) dict"
  st_flows :: "(string, flow) dict"
  st_denied :: "string \<Rightarrow> (string \<times> string) list"

record message =
  m_session_id :: string
  m_org_id :: "string option"
  m_five_tuple :: string
  m_protocol :: string
  m_findings :: "(string \<times> string \<times> string) list"
  m_risk_score :: "real option"
  m_is_anomaly :: bool
  m_max_severity :: string
  m_ts :: time

record worker =
  w_store :: store
  w_cache :: deny_cache
  w_published :: "message list"
  w_notified :: "(string \<times> message) list"
  w_counters :: "string list"

record worker_cfg =
  wc_pki :: pki
  wc_score :: "string option \<Rightarrow> session_analysis \<Rightarrow> scoring option"
  wc_single_tenant :: bool
  wc_default_org :: "string option"
  wc_live_tag :: string

record delivery =
  d_now :: time
  d_uuid :: bytes
  d_commit_ok :: bool
  d_bus_ok :: nat
  d_md5 :: "string \<Rightarrow> string"

section \<open>Persisting\<close>

definition deterministic_session_id :: "string list \<Rightarrow> bytes \<Rightarrow> string" where
  \<comment> \<open>the texts of the seven identifying fields; a random id only when all of them are empty\<close>
  "deterministic_session_id texts uuid =
     (let key = join ''|'' texts
      in if list_ex (\<lambda>c. c \<noteq> CHR ''|'') key then ''sess-'' @ take 32 (sha256_hex (ascii key))
         else ''sess-'' @ take 32 (hexdigest uuid))"

definition extra_finding :: "string \<Rightarrow> string \<Rightarrow> severity \<Rightarrow> string \<Rightarrow> session_analysis \<Rightarrow> session_analysis" where
  "extra_finding rule_id rule_name sev title sa = sa_add sa rule_id rule_name sev title []"

definition truthy_opt :: "string option \<Rightarrow> bool" where
  "truthy_opt x \<longleftrightarrow> x \<noteq> None \<and> x \<noteq> Some ''''"

definition some_texts :: "string option list \<Rightarrow> string list" where
  \<comment> \<open>\<open>[f for f in xs if f]\<close>\<close>
  "some_texts xs = map the (filter truthy_opt xs)"

definition ja4_of :: "session_analysis \<Rightarrow> string option" where
  "ja4_of sa = Option.bind (sa_visibility sa) v_ja4"

definition ja4s_of :: "session_analysis \<Rightarrow> string option" where
  "ja4s_of sa = Option.bind (sa_visibility sa) v_ja4s"

definition apply_flow ::
  "delivery \<Rightarrow> string option \<Rightarrow> session_analysis \<Rightarrow> worker \<Rightarrow> session_analysis \<times> (string, flow) dict \<times> deny_cache \<times> string list" where
  \<comment> \<open>flow aggregation, the deny list and the findings they add; the counters raised\<close>
  "apply_flow d org sa w =
     (let (flows, fresh, reg) = update_flow org (sa_five_tuple sa) (sa_protocol sa) (sa_version_name sa)
            (sa_cipher sa) (sa_version_name sa \<noteq> None) (d_now d) (some_texts [ja4_of sa, ja4s_of sa])
            (st_flows (w_store w));
          (denied, cache) = deny_list_hit (d_now d) (st_denied (w_store w)) org
            [(''ja4'', ja4_of sa), (''ja4s'', ja4s_of sa), (''ja3'', map_option (d_md5 d) (sa_ja3 sa)),
             (''ja3s'', map_option (d_md5 d) (sa_ja3s sa))] (w_cache w);
          sa = (case denied of
                  None \<Rightarrow> sa
                | Some hit \<Rightarrow> extra_finding ''denied-fingerprint-match'' ''denied fingerprint match'' HIGH
                    (''TLS stack matches org deny list ('' @ hit @ '')'') sa);
          sa = (case reg of
                  None \<Rightarrow> sa
                | Some r \<Rightarrow> extra_finding ''transport-regression'' ''transport-regression''
                    (regression_severity r) (regression_title r) sa)
      in (sa, flows, cache,
          replicate (length fresh) ''flow_new_fingerprints'' @ (if reg = None then [] else [''flow_regressions''])))"

definition job_of :: "worker_cfg \<Rightarrow> string option \<Rightarrow> string" where
  "job_of cfg org =
     (if org = wc_default_org cfg then wc_live_tag cfg
      else wc_live_tag cfg @ ''-'' @ (case org of None \<Rightarrow> ''None'' | Some x \<Rightarrow> x))"

definition session_row_of :: "string \<Rightarrow> string option \<Rightarrow> session_analysis \<Rightarrow> scoring option \<Rightarrow> session_row" where
  "session_row_of job org sa scoring =
     \<lparr>r_job_id = job, r_org_id = org, r_five_tuple = sa_five_tuple sa, r_tls_version = sa_version_name sa,
      r_chain_valid = (sa_chain_result sa = ''ok''),
      r_is_anomaly = (case scoring of None \<Rightarrow> False | Some s \<Rightarrow> sc_anomaly s),
      r_risk_score = Option.bind scoring sc_posture,
      r_finding_count = length (sa_findings sa), r_max_severity = max_severity (sa_findings sa)\<rparr>"

definition persist ::
  "worker_cfg \<Rightarrow> delivery \<Rightarrow> session_analysis \<Rightarrow> scoring option \<Rightarrow> string \<Rightarrow> string option \<Rightarrow> worker \<Rightarrow>
   (bool \<times> string option \<times> session_analysis) res \<times> worker" where
  \<comment> \<open>whether the row was created, its organisation, and the analysis with the findings that were added\<close>
  "persist cfg d sa scoring sess_id payload_org w =
     (if \<not> truthy_opt payload_org \<and> \<not> wc_single_tenant cfg
      then (Inl (ValueError ''unstamped session in multi-tenant mode''), w)
      else (case dget (st_sessions (w_store w)) sess_id of
              Some row \<Rightarrow> (Inr (False, r_org_id row, sa), w)
            | None \<Rightarrow>
                (let org = (if truthy_opt payload_org then payload_org else wc_default_org cfg);
                     job = job_of cfg org;
                     st = w_store w;
                     st0 = (if dget (st_jobs st) job = None then st\<lparr>st_jobs := dset job org (st_jobs st)\<rparr> else st);
                     jobs = (if dget (st_jobs st0) job = Some None \<and> truthy_opt org
                             then dset job org (st_jobs st0) else st_jobs st0);
                     (sa, flows, cache, counters) = apply_flow d org sa w;
                     w = w\<lparr>w_cache := cache, w_counters := w_counters w @ counters\<rparr>;
                     st' = st0\<lparr>st_jobs := jobs, st_flows := flows,
                       st_sessions := dset sess_id (session_row_of job org sa scoring) (st_sessions st0),
                       st_findings := st_findings st0 @ map (Pair sess_id) (sa_findings sa),
                       st_shap := st_shap st0 @ (case scoring of None \<Rightarrow> []
                         | Some s \<Rightarrow> map (Pair sess_id) (sc_shap s))\<rparr>
                 in if d_commit_ok d then (Inr (True, org, sa), w\<lparr>w_store := st'\<rparr>)
                    else (Inl (RuntimeError [''commit'']), w\<lparr>w_store := st0\<rparr>))))"

section \<open>Publishing\<close>

definition max_text :: "string list \<Rightarrow> string \<Rightarrow> string" where
  \<comment> \<open>\<open>max(xs, default=d)\<close>\<close>
  "max_text xs d = (case xs of [] \<Rightarrow> d | x # r \<Rightarrow> foldl (\<lambda>m y. if text_less m y then y else m) x r)"

definition message_of :: "time \<Rightarrow> scoring option \<Rightarrow> string \<Rightarrow> string option \<Rightarrow> session_analysis \<Rightarrow> message" where
  "message_of now scoring sess_id org sa =
     \<lparr>m_session_id = sess_id, m_org_id = org, m_five_tuple = sa_five_tuple sa, m_protocol = sa_protocol sa,
      m_findings = map (\<lambda>f. (f_rule_id f, sev_str (f_severity f), f_title f)) (sa_findings sa),
      m_risk_score = (case scoring of None \<Rightarrow> None | Some s \<Rightarrow> sc_posture s),
      m_is_anomaly = (case scoring of None \<Rightarrow> False | Some s \<Rightarrow> sc_anomaly s),
      m_max_severity = max_text (map (sev_str \<circ> f_severity) (sa_findings sa)) ''none'',
      m_ts = now\<rparr>"

definition publish_result :: "nat \<Rightarrow> message \<Rightarrow> worker \<Rightarrow> worker" where
  \<comment> \<open>three calls in one \<open>try\<close>: the first failure skips the rest\<close>
  "publish_result bus_ok msg w =
     w\<lparr>w_published := w_published w @ (if 1 \<le> bus_ok then [msg] else []),
       w_notified := w_notified w @ (if 2 \<le> bus_ok then [(''findings'', msg)] else [])
         @ (if 3 \<le> bus_ok then [(''sessions'', msg)] else [])\<rparr>"

definition process_one ::
  "worker_cfg \<Rightarrow> delivery \<Rightarrow> payload \<Rightarrow> worker \<Rightarrow> (string \<times> bool) res \<times> worker" where
  "process_one cfg d p w =
     (case p_session p of
        Inl e \<Rightarrow> (Inl e, w)
      | Inr sess \<Rightarrow>
          (case analyze_session (wc_pki cfg) sess of
             Inl e \<Rightarrow> (Inl e, w)
           | Inr sa \<Rightarrow>
               (let scoring = wc_score cfg (p_org_id p) sa;
                    sess_id = deterministic_session_id (p_fields p) (d_uuid d)
                in case persist cfg d sa scoring sess_id (p_org_id p) w of
                     (Inl e, w) \<Rightarrow> (Inl e, w)
                   | (Inr (False, org, sa), w) \<Rightarrow>
                       (Inr (sess_id, False), w\<lparr>w_counters := w_counters w @ [''sessions_duplicate_skipped'']\<rparr>)
                   | (Inr (True, org, sa), w) \<Rightarrow>
                       (let w = publish_result (d_bus_ok d) (message_of (d_now d) scoring sess_id org sa) w
                        in (Inr (sess_id, True),
                            w\<lparr>w_counters := w_counters w @ [''sessions_analyzed'']
                              @ (case scoring of None \<Rightarrow> [] | Some s \<Rightarrow> if sc_anomaly s then [''anomalies''] else [])\<rparr>)))))"

section \<open>Exactly one row per session\<close>

definition findings_of :: "string \<Rightarrow> store \<Rightarrow> finding list" where
  "findings_of i st = map snd (filter (\<lambda>p. fst p = i) (st_findings st))"

definition store_ok :: "store \<Rightarrow> bool" where
  \<comment> \<open>every finding belongs to a stored session, and a session counts its findings right\<close>
  "store_ok st \<longleftrightarrow>
     (\<forall>i. dget (st_sessions st) i = None \<longrightarrow> findings_of i st = []) \<and>
     (\<forall>i row. dget (st_sessions st) i = Some row \<longrightarrow>
        r_finding_count row = length (findings_of i st) \<and>
        r_max_severity row = max_severity (findings_of i st))"

definition extends :: "store \<Rightarrow> store \<Rightarrow> bool" where
  \<comment> \<open>the sessions of the first store and their findings are in the second, unchanged\<close>
  "extends st st' \<longleftrightarrow>
     (\<forall>i row. dget (st_sessions st) i = Some row \<longrightarrow>
        dget (st_sessions st') i = Some row \<and> findings_of i st' = findings_of i st)"

lemma extends_refl [simp]: "extends st st"
  by (simp add: extends_def)

lemma extends_trans: "extends a b \<Longrightarrow> extends b c \<Longrightarrow> extends a c"
  by (simp add: extends_def)

lemma findings_app:
  "findings_of i (st\<lparr>st_findings := st_findings st @ map (Pair k) fs\<rparr>)
     = findings_of i st @ (if i = k then fs else [])"
  by (auto simp: findings_of_def filter_map o_def)

lemma findings_cong: "st_findings a = st_findings b \<Longrightarrow> findings_of i a = findings_of i b"
  by (simp add: findings_of_def)

lemma store_ok_cong: "st_findings a = st_findings b \<Longrightarrow> st_sessions a = st_sessions b \<Longrightarrow> store_ok a = store_ok b"
  by (simp add: store_ok_def findings_of_def)

lemma store_add:
  assumes ok: "store_ok st" and new: "dget (st_sessions st) k = None"
    and s': "st_sessions st' = dset k row (st_sessions st)"
      "st_findings st' = st_findings st @ map (Pair k) fs"
    and row: "r_finding_count row = length fs" "r_max_severity row = max_severity fs"
  shows "store_ok st'" "extends st st'"
proof -
  have f: "findings_of i st' = findings_of i st @ (if i = k then fs else [])" for i
    using s'(2) by (auto simp: findings_of_def filter_map o_def)
  have k: "findings_of k st = []" using ok new by (simp add: store_ok_def)
  show "store_ok st'" using ok k row unfolding store_ok_def f s'(1) by auto
  show "extends st st'" using new unfolding extends_def f s'(1) by auto
qed

lemma if_jobs [simp]:
  "st_sessions (if c then st\<lparr>st_jobs := j\<rparr> else st) = st_sessions st"
  "st_findings (if c then st\<lparr>st_jobs := j\<rparr> else st) = st_findings st"
  by simp_all

lemma persist_new:
  fixes cfg porg
  defines "org \<equiv> (if truthy_opt porg then porg else wc_default_org cfg)"
  assumes "truthy_opt porg \<or> wc_single_tenant cfg" "dget (st_sessions (w_store w)) k = None"
  shows "\<exists>st' sa' w1. w_published w1 = w_published w \<and>
    (persist cfg d sa scoring k porg w = (Inr (True, org, sa'), w1\<lparr>w_store := st'\<rparr>) \<and>
      st_sessions st' = dset k (session_row_of (job_of cfg org) org sa' scoring) (st_sessions (w_store w)) \<and>
      st_findings st' = st_findings (w_store w) @ map (Pair k) (sa_findings sa')
     \<or> persist cfg d sa scoring k porg w = (Inl (RuntimeError [''commit'']), w1\<lparr>w_store := st'\<rparr>) \<and>
      st_sessions st' = st_sessions (w_store w) \<and> st_findings st' = st_findings (w_store w))"
proof -
  obtain sa' flows cache cs where af: "apply_flow d org sa w = (sa', flows, cache, cs)"
    by (cases "apply_flow d org sa w")
  let ?w1 = "w\<lparr>w_cache := cache, w_counters := w_counters w @ cs\<rparr>"
  have refuse: "(\<not> truthy_opt porg \<and> \<not> wc_single_tenant cfg) = False" using assms(2) by simp
  show ?thesis
  proof (cases "d_commit_ok d")
    case True
    show ?thesis
      by (rule exI, rule exI [of _ sa'], rule exI [of _ ?w1], rule conjI, simp, rule disjI1, rule conjI,
          simp only: persist_def refuse if_False assms(3) option.case org_def [symmetric] Let_def af
            prod.case True if_True, simp)
  next
    case False
    show ?thesis
      by (rule exI, rule exI [of _ sa'], rule exI [of _ ?w1], rule conjI, simp, rule disjI2, rule conjI,
          simp only: persist_def refuse if_False assms(3) option.case org_def [symmetric] Let_def af
            prod.case False, simp)
  qed
qed

lemma persist_cases:
  assumes "persist cfg d sa scoring k porg w = (r, w')"
  obtains (refused) "\<not> truthy_opt porg" "\<not> wc_single_tenant cfg" "w' = w" "\<exists>e. r = Inl e"
  | (known) row where "dget (st_sessions (w_store w)) k = Some row" "r = Inr (False, r_org_id row, sa)" "w' = w"
  | (failed) "dget (st_sessions (w_store w)) k = None" "\<exists>e. r = Inl e"
      "st_sessions (w_store w') = st_sessions (w_store w)" "st_findings (w_store w') = st_findings (w_store w)"
      "w_published w' = w_published w"
  | (created) org sa' job where "dget (st_sessions (w_store w)) k = None" "r = Inr (True, org, sa')"
      "truthy_opt porg \<or> wc_single_tenant cfg"
      "org = (if truthy_opt porg then porg else wc_default_org cfg)"
      "st_sessions (w_store w') = dset k (session_row_of job org sa' scoring) (st_sessions (w_store w))"
      "st_findings (w_store w') = st_findings (w_store w) @ map (Pair k) (sa_findings sa')"
      "w_published w' = w_published w"
proof (cases "\<not> truthy_opt porg \<and> \<not> wc_single_tenant cfg")
  case True
  with assms show ?thesis by (intro refused) (auto simp: persist_def)
next
  case auth: False
  show ?thesis
  proof (cases "dget (st_sessions (w_store w)) k")
    case (Some row)
    with auth assms show ?thesis by (intro known [of row]) (auto simp: persist_def)
  next
    case None
    define org where "org = (if truthy_opt porg then porg else wc_default_org cfg)"
    have "truthy_opt porg \<or> wc_single_tenant cfg" using auth by blast
    from persist_new [OF this None, of d sa scoring, folded org_def] obtain st' sa' w1
      where w1: "w_published w1 = w_published w" and
      "persist cfg d sa scoring k porg w = (Inr (True, org, sa'), w1\<lparr>w_store := st'\<rparr>) \<and>
         st_sessions st' = dset k (session_row_of (job_of cfg org) org sa' scoring) (st_sessions (w_store w)) \<and>
         st_findings st' = st_findings (w_store w) @ map (Pair k) (sa_findings sa')
       \<or> persist cfg d sa scoring k porg w = (Inl (RuntimeError [''commit'']), w1\<lparr>w_store := st'\<rparr>) \<and>
         st_sessions st' = st_sessions (w_store w) \<and> st_findings st' = st_findings (w_store w)"
      by blast
    then show ?thesis
    proof (elim disjE conjE)
      assume "persist cfg d sa scoring k porg w = (Inr (True, org, sa'), w1\<lparr>w_store := st'\<rparr>)"
        "st_sessions st' = dset k (session_row_of (job_of cfg org) org sa' scoring) (st_sessions (w_store w))"
        "st_findings st' = st_findings (w_store w) @ map (Pair k) (sa_findings sa')"
      with auth None assms w1 show ?thesis by (intro created [of org sa' "job_of cfg org"]) (auto simp: org_def)
    next
      assume "persist cfg d sa scoring k porg w = (Inl (RuntimeError [''commit'']), w1\<lparr>w_store := st'\<rparr>)"
        "st_sessions st' = st_sessions (w_store w)" "st_findings st' = st_findings (w_store w)"
      with None assms w1 show ?thesis by (intro failed) auto
    qed
  qed
qed

lemma publish_store [simp]: "w_store (publish_result n msg w) = w_store w"
  by (simp add: publish_result_def)

lemma process_store:
  assumes "process_one cfg d p w = (r, w')" "store_ok (w_store w)"
  shows "store_ok (w_store w') \<and> extends (w_store w) (w_store w')"
proof (cases "\<exists>sess sa. p_session p = Inr sess \<and> analyze_session (wc_pki cfg) sess = Inr sa")
  case False
  then have "w' = w" using assms(1) by (auto simp: process_one_def split: sum.splits)
  with assms(2) show ?thesis by simp
next
  case True
  then obtain sess sa where sa: "p_session p = Inr sess" "analyze_session (wc_pki cfg) sess = Inr sa" by blast
  let ?k = "deterministic_session_id (p_fields p) (d_uuid d)"
  let ?sc = "wc_score cfg (p_org_id p) sa"
  obtain q w1 where pe: "persist cfg d sa ?sc ?k (p_org_id p) w = (q, w1)" by fastforce
  have w': "w_store w' = w_store w1"
    using assms(1) by (auto simp: process_one_def sa pe Let_def split: sum.splits prod.splits bool.splits)
  from pe show ?thesis
  proof (cases rule: persist_cases)
    case refused
    with w' assms(2) show ?thesis by simp
  next
    case (known row)
    with w' assms(2) show ?thesis by simp
  next
    case failed
    then have "findings_of i (w_store w1) = findings_of i (w_store w)" for i by (intro findings_cong)
    with failed w' assms(2) store_ok_cong [of "w_store w1" "w_store w"] show ?thesis
      by (simp add: extends_def)
  next
    case (created org sa' job)
    have "r_finding_count (session_row_of job org sa' ?sc) = length (sa_findings sa')"
      "r_max_severity (session_row_of job org sa' ?sc) = max_severity (sa_findings sa')"
      by (simp_all add: session_row_of_def)
    from store_add [OF assms(2) created(1,5,6) this] w' show ?thesis by simp
  qed
qed

fun deliver_all :: "worker_cfg \<Rightarrow> (delivery \<times> payload) list \<Rightarrow> worker \<Rightarrow> worker" where
  \<comment> \<open>any sequence of deliveries and redeliveries, failing ones included\<close>
  "deliver_all cfg [] w = w"
| "deliver_all cfg ((d, p) # ds) w = deliver_all cfg ds (snd (process_one cfg d p w))"

text \<open>C4: Under any sequence of deliveries, redeliveries and failures the store holds every session
  once, with exactly the findings it counts and their true maximum severity, and what is stored
  is never changed again.\<close>

theorem deliveries_keep_store:
  assumes "store_ok (w_store w)"
  shows "store_ok (w_store (deliver_all cfg ds w)) \<and> extends (w_store w) (w_store (deliver_all cfg ds w))"
  using assms
proof (induction ds arbitrary: w)
  case Nil
  then show ?case by simp
next
  case (Cons dp ds)
  obtain d p where dp: "dp = (d, p)" by (cases dp)
  have "store_ok (w_store (snd (process_one cfg d p w))) \<and>
      extends (w_store w) (w_store (snd (process_one cfg d p w)))"
    using Cons.prems by (intro process_store [of cfg d p w "fst (process_one cfg d p w)"]) simp_all
  with Cons.IH [of "snd (process_one cfg d p w)"] show ?case
    by (auto simp: dp intro: extends_trans)
qed

section \<open>Tenants\<close>

lemma created_row_org:
  assumes "process_one cfg d p w = (Inr (k, True), w')" "\<not> wc_single_tenant cfg"
  shows "truthy_opt (p_org_id p) \<and>
    (\<exists>row. dget (st_sessions (w_store w')) k = Some row \<and> r_org_id row = p_org_id p)"
proof -
  obtain sess sa where sa: "p_session p = Inr sess" "analyze_session (wc_pki cfg) sess = Inr sa"
    using assms(1) by (auto simp: process_one_def split: sum.splits)
  let ?sc = "wc_score cfg (p_org_id p) sa"
  let ?k = "deterministic_session_id (p_fields p) (d_uuid d)"
  obtain q w1 where pe: "persist cfg d sa ?sc ?k (p_org_id p) w = (q, w1)" by fastforce
  have k: "k = ?k" "w_store w' = w_store w1" "\<exists>org sa'. q = Inr (True, org, sa')"
    using assms(1) by (auto simp: process_one_def sa pe Let_def split: sum.splits prod.splits bool.splits)
  from pe show ?thesis
  proof (cases rule: persist_cases)
    case (created org sa' job)
    with k assms(2) show ?thesis by (auto simp: session_row_of_def)
  qed (use k in auto)
qed

section \<open>Where deliveries go wrong\<close>

lemma redelivery_does_not_publish:
  assumes "process_one cfg d p w = (r, w')" "dget (st_sessions (w_store w)) (deterministic_session_id (p_fields p) (d_uuid d)) = Some row"
  shows "w_published w' = w_published w \<and> w_notified w' = w_notified w \<and> (\<forall>k. r \<noteq> Inr (k, True))"
  using assms by (auto simp: process_one_def persist_def Let_def split: sum.splits if_splits)

text \<open>A session whose findings could not be published after it was stored is never published:
  every later delivery is taken for a duplicate and acknowledged without publishing.\<close>

theorem findings_lost_after_bus_failure:
  assumes "process_one cfg d p w = (Inr (k, True), w1)" "d_bus_ok d = 0" "store_ok (w_store w)"
    and "\<forall>(d', p') \<in> set ds. p' = p \<and> d_uuid d' = d_uuid d"
  shows "w_published (deliver_all cfg ds w1) = w_published w"
proof -
  let ?k = "deterministic_session_id (p_fields p) (d_uuid d)"
  obtain sess sa where sa: "p_session p = Inr sess" "analyze_session (wc_pki cfg) sess = Inr sa"
    using assms(1) by (auto simp: process_one_def split: sum.splits)
  obtain q w0 where pe: "persist cfg d sa (wc_score cfg (p_org_id p) sa) ?k (p_org_id p) w = (q, w0)" by fastforce
  have q: "\<exists>org sa'. q = Inr (True, org, sa')" "w_store w1 = w_store w0" "w_published w1 = w_published w0"
    using assms(1,2) by (auto simp: process_one_def sa pe Let_def publish_result_def
        split: sum.splits prod.splits bool.splits)
  from pe have "\<exists>row. dget (st_sessions (w_store w1)) ?k = Some row" "w_published w1 = w_published w"
    using q by (cases rule: persist_cases; auto)+
  moreover have "\<exists>row. dget (st_sessions (w_store v)) ?k = Some row \<Longrightarrow>
      w_published (deliver_all cfg ds v) = w_published v" for v
    using assms(4)
  proof (induction ds arbitrary: v)
    case Nil
    then show ?case by simp
  next
    case (Cons dp ds)
    then obtain d' where dp: "dp = (d', p)" "d_uuid d' = d_uuid d" by (cases dp) auto
    obtain r v' where pv: "process_one cfg d' p v = (r, v')" by fastforce
    obtain row where row: "dget (st_sessions (w_store v)) ?k = Some row" using Cons.prems(1) by blast
    have "w_published v' = w_published v"
      using redelivery_does_not_publish [OF pv] row dp(2) by simp
    moreover have "dget (st_sessions (w_store v')) ?k = Some row"
      using pv row dp(2) by (auto simp: process_one_def persist_def Let_def split: sum.splits if_splits)
    ultimately show ?case
      using Cons dp pv by auto
  qed
  ultimately show ?thesis by simp
qed

lemma process_creates:
  assumes "p_session p = Inr sess" "analyze_session (wc_pki cfg) sess = Inr sa" "truthy_opt (p_org_id p)"
    and "dget (st_sessions (w_store w)) (deterministic_session_id (p_fields p) (d_uuid d)) = None" "d_commit_ok d"
  shows "\<exists>w'. process_one cfg d p w = (Inr (deterministic_session_id (p_fields p) (d_uuid d), True), w')"
  using assms by (simp add: process_one_def persist_def Let_def split_beta)

lemma same_key_other_tenant_is_skipped:
  \<comment> \<open>the id of a session does not depend on its organisation: what one tenant stored under the seven
     fields makes the other tenant's session a duplicate, which is acknowledged and dropped\<close>
  assumes "dget (st_sessions (w_store w)) (deterministic_session_id (p_fields p) (d_uuid d)) = Some row"
    and "p_session p = Inr sess" "analyze_session (wc_pki cfg) sess = Inr sa" "truthy_opt (p_org_id p)"
    and "r_org_id row \<noteq> p_org_id p"
  shows "fst (process_one cfg d p w) = Inr (deterministic_session_id (p_fields p) (d_uuid d), False) \<and>
    w_store (snd (process_one cfg d p w)) = w_store w"
  using assms by (simp add: process_one_def persist_def Let_def)

lemma published_max_medium:
  assumes "set (map f_severity (sa_findings sa)) = {CRITICAL, MEDIUM}"
  shows "m_max_severity (message_of now sc k org sa) = ''medium''"
proof -
  have tl: "text_less ''critical'' ''medium''" "\<not> text_less ''medium'' ''critical''"
    "\<not> text_less ''critical'' ''critical''" "\<not> text_less ''medium'' ''medium''"
    by simp_all
  have fold: "set xs \<subseteq> {''critical'', ''medium''} \<Longrightarrow> m \<in> {''critical'', ''medium''} \<Longrightarrow>
      foldl (\<lambda>m y. if text_less m y then y else m) m xs
        = (if ''medium'' \<in> set (m # xs) then ''medium'' else ''critical'')" for m xs
  proof (induction xs arbitrary: m)
    case Nil
    then show ?case by auto
  next
    case (Cons y ys)
    have ys: "set ys \<subseteq> {''critical'', ''medium''}" using Cons.prems(1) by simp
    have "y = ''critical'' \<or> y = ''medium''" "m = ''critical'' \<or> m = ''medium''" using Cons.prems by auto
    then show ?case
      using Cons.IH [OF ys, of "''critical''"] Cons.IH [OF ys, of "''medium''"]
      by (elim disjE) (simp_all add: tl del: text_less.simps)
  qed
  obtain f fs where fs: "sa_findings sa = f # fs" using assms by (cases "sa_findings sa") auto
  let ?t = "map (sev_str \<circ> f_severity) (sa_findings sa)"
  have t: "set ?t = {''critical'', ''medium''}"
  proof -
    have "set ?t = sev_str ` set (map f_severity (sa_findings sa))" by auto
    then show ?thesis by (simp only: assms) (simp add: sev_str_def)
  qed
  have "m_max_severity (message_of now sc k org sa) = max_text ?t ''none''" by (simp add: message_of_def)
  also have "\<dots> = (if ''medium'' \<in> set ?t then ''medium'' else ''critical'')"
  proof -
    have "set (map (sev_str \<circ> f_severity) fs) \<subseteq> {''critical'', ''medium''}"
      "sev_str (f_severity f) \<in> {''critical'', ''medium''}"
      using t unfolding fs by auto
    from fold [OF this] show ?thesis by (simp add: fs max_text_def)
  qed
  finally show ?thesis using t by simp
qed

text \<open>The severity published for a session is the alphabetically last one of its findings, not the
  highest: a session with a critical and a medium finding is stored as critical and announced as
  medium.\<close>

theorem published_severity_is_alphabetical:
  assumes "set (map f_severity (sa_findings sa)) = {CRITICAL, MEDIUM}"
  shows "m_max_severity (message_of now sc k org sa) = ''medium'' \<and>
    r_max_severity (session_row_of job org sa scoring) = Some CRITICAL"
proof -
  obtain f fs where fs: "sa_findings sa = f # fs" using assms by (cases "sa_findings sa") auto
  have "max_severity (sa_findings sa) = Some CRITICAL"
  proof -
    have best: "foldl (\<lambda>m g. if sev_rank m < sev_rank (f_severity g) then f_severity g else m) m gs = CRITICAL"
      if "CRITICAL \<in> insert m (f_severity ` set gs)" "m \<in> {CRITICAL, MEDIUM}"
        "f_severity ` set gs \<subseteq> {CRITICAL, MEDIUM}" for m gs
      using that by (induction gs arbitrary: m) (auto simp: sev_rank_def)
    have "insert (f_severity f) (f_severity ` set fs) = {CRITICAL, MEDIUM}" using assms by (simp add: fs)
    then have "CRITICAL \<in> insert (f_severity f) (f_severity ` set fs)" "f_severity f \<in> {CRITICAL, MEDIUM}"
      "f_severity ` set fs \<subseteq> {CRITICAL, MEDIUM}"
      by auto
    from best [OF this] show ?thesis by (simp add: fs max_severity_def)
  qed
  with published_max_medium [OF assms, of now sc k org] show ?thesis by (simp add: session_row_of_def)
qed

definition demo_worker :: worker where
  "demo_worker = \<lparr>w_store = \<lparr>st_sessions = [], st_findings = [], st_shap = [], st_jobs = [], st_flows = [],
     st_denied = \<lambda>o'. []\<rparr>, w_cache = [], w_published = [], w_notified = [], w_counters = []\<rparr>"

definition demo_worker_cfg :: worker_cfg where
  "demo_worker_cfg = \<lparr>wc_pki = \<lparr>k_load = (\<lambda>_. Inl []), k_verify = (\<lambda>_. Verified), k_openssl = True,
     k_anchors = None, k_now = 0\<rparr>, wc_score = (\<lambda>o' sa. None), wc_single_tenant = False,
     wc_default_org = Some ''default'', wc_live_tag = ''live''\<rparr>"

definition demo_delivery :: delivery where
  "demo_delivery = \<lparr>d_now = 0, d_uuid = [], d_commit_ok = True, d_bus_ok = 0, d_md5 = \<lambda>s. s\<rparr>"

definition demo_payload :: payload where
  "demo_payload = \<lparr>p_fields = [''f''], p_org_id = Some ''o1'',
     p_session = Inr ((new_session (''a'', 1) (''b'', 25) 0)\<lparr>s_plaintext := ascii ''EHLO''\<rparr>)\<rparr>"

lemma demo_processed:
  "\<exists>w'. process_one demo_worker_cfg demo_delivery demo_payload demo_worker
     = (Inr (deterministic_session_id (p_fields demo_payload) (d_uuid demo_delivery), True), w')"
proof -
  have "\<exists>sa. analyze_session (wc_pki demo_worker_cfg)
      ((new_session (''a'', 1) (''b'', 25) 0)\<lparr>s_plaintext := ascii ''EHLO''\<rparr>) = Inr sa"
    by (simp add: analyze_session_def start_analysis_def new_session_def new_analysis_def Let_def)
  then obtain sa where "analyze_session (wc_pki demo_worker_cfg)
      ((new_session (''a'', 1) (''b'', 25) 0)\<lparr>s_plaintext := ascii ''EHLO''\<rparr>) = Inr sa" ..
  then show ?thesis
    by (intro process_creates) (auto simp: demo_payload_def truthy_opt_def demo_worker_def demo_delivery_def)
qed

lemma demo_store_ok: "store_ok (w_store demo_worker)"
  by (simp add: store_ok_def findings_of_def demo_worker_def)

lemma deliveries_keep_store_witness:
  "store_ok (w_store (deliver_all demo_worker_cfg [(demo_delivery, demo_payload)] demo_worker))"
  using deliveries_keep_store [OF demo_store_ok] by blast

lemma findings_lost_after_bus_failure_witness:
  "\<exists>k w1. process_one demo_worker_cfg demo_delivery demo_payload demo_worker = (Inr (k, True), w1) \<and>
     w_published (deliver_all demo_worker_cfg [(demo_delivery\<lparr>d_bus_ok := 3\<rparr>, demo_payload)] w1) = []"
proof -
  obtain k w1 where p: "process_one demo_worker_cfg demo_delivery demo_payload demo_worker = (Inr (k, True), w1)"
    using demo_processed by blast
  have "w_published (deliver_all demo_worker_cfg [(demo_delivery\<lparr>d_bus_ok := 3\<rparr>, demo_payload)] w1)
      = w_published demo_worker"
    by (rule findings_lost_after_bus_failure [OF p _ demo_store_ok]) (simp_all add: demo_delivery_def)
  with p show ?thesis by (auto simp: demo_worker_def)
qed

lemma published_severity_is_alphabetical_witness:
  "m_max_severity (message_of 0 None ''k'' None (extra_finding ''a'' ''a'' CRITICAL ''''
     (extra_finding ''b'' ''b'' MEDIUM '''' (new_analysis '''' '''' '''' False)))) = ''medium''"
  using published_severity_is_alphabetical [of "extra_finding ''a'' ''a'' CRITICAL ''''
     (extra_finding ''b'' ''b'' MEDIUM '''' (new_analysis '''' '''' '''' False))"]
  by (simp add: extra_finding_def sa_add_def new_analysis_def insert_commute)

end
