(* ===== verification/Ingest.thy ===== *)
theory Ingest
  imports Login Worker
begin

text \<open>
  Sensor credentials and the ingest endpoint of src/backend/app/api/main.py
  (\<open>create_agent_token\<close>, \<open>revoke_agent_token\<close>, \<open>ingest_sessions\<close>), and its composition with the
  analysis worker: from the credential of a sensor to the organisation of the stored session.
  Unpacking the request body is a library call whose outcome is an input.
\<close>

section \<open>Agent tokens\<close>

definition put_agent_token :: "api_key \<Rightarrow> db \<Rightarrow> db" where
  "put_agent_token k d = d\<lparr>db_agent_tokens := dset (k_id k) k (db_agent_tokens d)\<rparr>"

definition create_agent_token :: "env \<Rightarrow> string \<Rightarrow> int option \<Rightarrow> auth_ctx \<Rightarrow> server \<Rightarrow> outcome" where
  "create_agent_token e name expires_days ctx s =
     (case require_roles [ADMIN] ctx of
        Inl err \<Rightarrow> (Inl err, s)
      | Inr _ \<Rightarrow>
          (let name = (if str_strip name = '''' then ''sensor'' else str_strip name);
               raw = ''cpat_'' @ drop 3 (fst (generate_api_key (e_random e)));
               i = new_id ''at-'' e;
               k = \<lparr>k_id = i, k_org_id = c_org_id ctx, k_user_id = c_email ctx, k_name = name,
                    k_key_hash = hash_api_key raw, k_prefix = take 11 raw, k_revoked = False,
                    k_expires_at = key_expiry e expires_days\<rparr>
           in if dget (db_agent_tokens (sv_db s)) i \<noteq> None \<or>
                 find_key (k_key_hash k) (db_agent_tokens (sv_db s)) \<noteq> None
              then (Inl integrity_error, s)
              else (Inr (Raw_Key raw (take 11 raw)),
                    audit e (c_org_id ctx) (c_email ctx) ''agenttoken.create'' name
                      (s\<lparr>sv_db := put_agent_token k (sv_db s)\<rparr>))))"

definition revoke_agent_token :: "env \<Rightarrow> string \<Rightarrow> auth_ctx \<Rightarrow> server \<Rightarrow> outcome" where
  "revoke_agent_token e token_id ctx s =
     (case require_roles [ADMIN] ctx of
        Inl err \<Rightarrow> (Inl err, s)
      | Inr _ \<Rightarrow>
          (case dget (db_agent_tokens (sv_db s)) token_id of
             None \<Rightarrow> (Inl (HTTPException 404 ''Agent token not found''), s)
           | Some k \<Rightarrow>
               if k_org_id k \<noteq> c_org_id ctx then (Inl (HTTPException 404 ''Agent token not found''), s)
               else (Inr (Done ''revoked''),
                     audit e (c_org_id ctx) (c_email ctx) ''agenttoken.revoke'' (k_name k)
                       (s\<lparr>sv_db := put_agent_token (k\<lparr>k_revoked := True\<rparr>) (sv_db s)\<rparr>))))"

section \<open>The ingest endpoint\<close>

datatype ingest_body =
    Unreadable
  | Not_An_Object
  | No_List
  | Entries "claims option list"

definition agent_org :: "time \<Rightarrow> string \<Rightarrow> db \<Rightarrow> http_error + api_key" where
  \<comment> \<open>the credential check: known, not revoked, not expired\<close>
  "agent_org now raw d =
     (if raw = '''' then Inl (HTTPException 401 ''Agent token required'')
      else (case find_key (hash_api_key raw) (db_agent_tokens d) of
              None \<Rightarrow> Inl (HTTPException 401 ''Invalid agent token'')
            | Some row \<Rightarrow>
                if k_revoked row then Inl (HTTPException 401 ''Invalid agent token'')
                else (case k_expires_at row of
                        None \<Rightarrow> Inr row
                      | Some t \<Rightarrow> if t \<le> now then Inl (HTTPException 401 ''Agent token expired'')
                                  else Inr row)))"

definition entry_truthy :: "claims \<Rightarrow> string \<Rightarrow> bool" where
  "entry_truthy c k = (case dget c k of None \<Rightarrow> False | Some v \<Rightarrow> truthy v)"

definition stamp_entry :: "api_key \<Rightarrow> claims \<Rightarrow> claims" where
  \<comment> \<open>\<open>stamped["org_id"] = row.org_id\<close>; the time of ingest is left out\<close>
  "stamp_entry row c = dset ''agent'' (JStr (k_name row)) (dset ''org_id'' (JStr (k_org_id row)) c)"

fun ingest_entries :: "api_key \<Rightarrow> (claims \<Rightarrow> bool) \<Rightarrow> claims option list \<Rightarrow> claims list \<times> nat \<times> nat" where
  \<comment> \<open>what was published, and the counts accepted and rejected; \<open>publish\<close> says whether the bus took it\<close>
  "ingest_entries row publish [] = ([], 0, 0)"
| "ingest_entries row publish (x # xs) =
     (let (out, acc, rej) = ingest_entries row publish xs
      in case x of
           None \<Rightarrow> (out, acc, rej + 1)
         | Some c \<Rightarrow>
             if \<not> entry_truthy c ''five_tuple'' \<or> \<not> entry_truthy c ''protocol'' then (out, acc, rej + 1)
             else if publish (stamp_entry row c) then (stamp_entry row c # out, acc + 1, rej)
             else (out, acc, rej + 1))"

definition ingest_sessions ::
  "nat \<Rightarrow> nat \<Rightarrow> time \<Rightarrow> int option \<Rightarrow> (claims \<Rightarrow> bool) \<Rightarrow> string \<Rightarrow> ingest_body \<Rightarrow> db \<Rightarrow>
   http_error + (claims list \<times> nat \<times> nat)" where
  \<comment> \<open>\<open>xlen\<close> is the length of the stream, \<open>None\<close> when Redis does not answer\<close>
  "ingest_sessions max_batch max_queue now xlen publish raw body d =
     bindR (agent_org now raw d) (\<lambda>row.
       case body of
         Unreadable \<Rightarrow> Inl (HTTPException 400 ''Invalid JSON body (or bad gzip)'')
       | Not_An_Object \<Rightarrow> Inl (Uncaught (RuntimeError [''AttributeError'']))
       | No_List \<Rightarrow> Inl (HTTPException 400 ''sessions must be a non-empty list'')
       | Entries xs \<Rightarrow>
           if xs = [] then Inl (HTTPException 400 ''sessions must be a non-empty list'')
           else if max_batch < length xs then Inl (HTTPException 413 ''Batch over limit'')
           else if (case xlen of None \<Rightarrow> False | Some n \<Rightarrow> int max_queue < n)
           then Inl (HTTPException 429 ''pipeline backed up, retry later'')
           else Inr (ingest_entries row publish xs))"

lemma ingest_entries_spec:
  assumes "ingest_entries row publish xs = (out, acc, rej)"
  shows "acc + rej = length xs \<and> length out = acc \<and>
    (\<forall>c\<in>set out. dget c ''org_id'' = Some (JStr (k_org_id row)))"
  using assms
proof (induction xs arbitrary: out acc rej)
  case Nil
  then show ?case by simp
next
  case (Cons x xs)
  obtain o' a r where "ingest_entries row publish xs = (o', a, r)" by (cases "ingest_entries row publish xs")
  with Cons.IH [OF this] Cons.prems show ?case
    by (auto simp: Let_def stamp_entry_def split: option.splits if_splits)
qed

section \<open>From the sensor to the stored row\<close>

definition payload_of :: "(claims \<Rightarrow> string list) \<Rightarrow> (claims \<Rightarrow> pyerr + session) \<Rightarrow> claims \<Rightarrow> payload" where
  \<comment> \<open>what the worker reads of a stream entry\<close>
  "payload_of texts decode c =
     \<lparr>p_fields = texts c, p_org_id = (case dget c ''org_id'' of Some (JStr s) \<Rightarrow> Some s | _ \<Rightarrow> None),
      p_session = decode c\<rparr>"


definition demo_agent :: api_key where
  "demo_agent = \<lparr>k_id = ''at-1'', k_org_id = ''o1'', k_user_id = '''', k_name = ''s'',
     k_key_hash = hash_api_key ''cpat_1'', k_prefix = '''', k_revoked = False, k_expires_at = Some 9\<rparr>"

definition demo_agent_db :: db where
  "demo_agent_db = one_user_db\<lparr>db_agent_tokens := [(''at-1'', demo_agent)]\<rparr>"

definition demo_entry :: claims where
  "demo_entry = [(''five_tuple'', JStr ''f''), (''protocol'', JStr ''SMTP''), (''org_id'', JStr ''other'')]"


end
