(* ===== verification/OIDC.thy ===== *)
theory OIDC
  imports Login
begin

text \<open>
  Single sign-on (src/backend/app/core/oidc.py and the callback in src/backend/app/api/main.py): the
  store of login states, the key cache with its single refresh, the checks on an ID token, the
  mapping of claims to role and organisation, and the callback that finds or creates the user.
  HTTP answers, the decoding of a token with a key and random text are inputs; the shell patterns of
  \<open>fnmatch\<close> are modelled. Any failure of the provider is an error value.
\<close>

section \<open>Shell patterns\<close>

fun class_has :: "string \<Rightarrow> nat \<Rightarrow> bool" where
  \<comment> \<open>membership of a character in the text between brackets, ranges included\<close>
  "class_has (a # m # b # r) n =
     (if m = CHR ''-'' then of_char a \<le> n \<and> n \<le> of_char b \<or> class_has r n
      else of_char a = n \<or> class_has (m # b # r) n)"
| "class_has [a, b] n = (of_char a = n \<or> of_char b = n)"
| "class_has [a] n = (of_char a = n)"
| "class_has [] n = False"

definition class_skip :: "string \<Rightarrow> nat" where
  \<comment> \<open>how much of the text cannot close the bracket: a \<open>!\<close>, and a closing bracket right after it or first\<close>
  "class_skip p =
     (let n = (if take 1 p = ''!'' then 1 else 0) in if take 1 (drop n p) = '']'' then n + 1 else n)"

definition class_end :: "string \<Rightarrow> (string \<times> string) option" where
  \<comment> \<open>the text of a bracket and the pattern after it\<close>
  "class_end p =
     (case dropWhile (\<lambda>c. c \<noteq> CHR '']'') (drop (class_skip p) p) of
        [] \<Rightarrow> None
      | c # r \<Rightarrow> Some (take (class_skip p) p @ takeWhile (\<lambda>c. c \<noteq> CHR '']'') (drop (class_skip p) p), r))"

definition class_match :: "string \<Rightarrow> char \<Rightarrow> bool" where
  "class_match body c =
     (case body of
        x # r \<Rightarrow> if x = CHR ''!'' then \<not> class_has r (of_char c) else class_has body (of_char c)
      | [] \<Rightarrow> False)"

lemma class_end_shorter: "class_end p = Some (b, r) \<Longrightarrow> length r < length p"
proof -
  assume "class_end p = Some (b, r)"
  then obtain c where "dropWhile (\<lambda>c. c \<noteq> CHR '']'') (drop (class_skip p) p) = c # r"
    by (auto simp: class_end_def split: list.splits)
  then have "length (c # r) \<le> length (drop (class_skip p) p)" by (metis length_dropWhile_le)
  then show ?thesis by simp
qed

function glob :: "string \<Rightarrow> string \<Rightarrow> bool" where
  \<comment> \<open>\<open>fnmatch.fnmatchcase(s, pattern)\<close>\<close>
  "glob [] s = (s = [])"
| "glob (p # ps) s =
     (if p = CHR ''*'' then glob ps s \<or> (case s of [] \<Rightarrow> False | c # cs \<Rightarrow> glob (p # ps) cs)
      else (case s of
              [] \<Rightarrow> False
            | c # cs \<Rightarrow>
                if p = CHR ''?'' then glob ps cs
                else if p = CHR ''['' then
                  (case class_end ps of
                     None \<Rightarrow> c = p \<and> glob ps cs
                   | Some (body, r) \<Rightarrow> class_match body c \<and> glob r cs)
                else c = p \<and> glob ps cs))"
  by pat_completeness auto

termination glob
  by (relation "measure (\<lambda>(p, s). length p + length s)") (auto dest: class_end_shorter)

section \<open>Claims to role and organisation\<close>

datatype claim_value = One string | Many "string list" | Opaque

type_synonym id_claims = "(string, claim_value) dict"

record claim_rule =
  cr_claim :: string
  cr_match :: string
  cr_role :: string
  cr_org :: string

definition rule_values :: "id_claims \<Rightarrow> claim_rule \<Rightarrow> string list option" where
  \<comment> \<open>\<open>None\<close> when iterating over the claim raises, which skips the rule\<close>
  "rule_values claims r =
     (case dget claims (cr_claim r) of
        None \<Rightarrow> Some [] | Some (One s) \<Rightarrow> Some [s] | Some (Many xs) \<Rightarrow> Some xs | Some Opaque \<Rightarrow> None)"

definition rule_hits :: "id_claims \<Rightarrow> claim_rule \<Rightarrow> bool" where
  "rule_hits claims r = (case rule_values claims r of None \<Rightarrow> False | Some vs \<Rightarrow> list_ex (glob (cr_match r)) vs)"

fun map_role_org :: "string \<times> string \<Rightarrow> claim_rule list \<Rightarrow> id_claims \<Rightarrow> string \<times> string" where
  \<comment> \<open>\<open>defaults\<close> are \<open>OIDC_DEFAULT_ROLE\<close> and \<open>OIDC_DEFAULT_ORG\<close>; unreadable rules are the empty list\<close>
  "map_role_org defaults [] claims = defaults"
| "map_role_org defaults (r # rs) claims =
     (if rule_hits claims r
      then (if role_of (cr_role r) = None then map_role_org defaults rs claims
            else (cr_role r, if cr_org r = '''' then snd defaults else cr_org r))
      else map_role_org defaults rs claims)"

lemma map_role_org_first:
  \<comment> \<open>the first rule that matches and names a known role decides, and nothing else grants a role\<close>
  "map_role_org defaults rs claims =
     (case find (\<lambda>r. rule_hits claims r \<and> role_of (cr_role r) \<noteq> None) rs of
        None \<Rightarrow> defaults
      | Some r \<Rightarrow> (cr_role r, if cr_org r = '''' then snd defaults else cr_org r))"
  by (induction rs) auto

section \<open>Keys and ID tokens\<close>

record 'k jwks =
  jk_keys :: "(string, 'k) dict"
  jk_at :: time
  jk_have_doc :: bool

definition discovery :: "time \<Rightarrow> time \<Rightarrow> bool \<Rightarrow> bool option \<Rightarrow> 'k jwks \<Rightarrow> unit res \<times> 'k jwks" where
  \<comment> \<open>\<open>doc\<close> tells whether the fetched document names a key URI, \<open>None\<close> when the fetch raises\<close>
  "discovery ttl now refresh doc c =
     (if jk_have_doc c \<and> \<not> refresh \<and> now - jk_at c < ttl then (Inr (), c)
      else (case doc of
              Some True \<Rightarrow> (Inr (), c\<lparr>jk_have_doc := True, jk_at := now\<rparr>)
            | _ \<Rightarrow> (Inl (ValueError ''oidc-error: bad discovery document''), c)))"

definition jwks_keys ::
  "time \<Rightarrow> time \<Rightarrow> bool \<Rightarrow> bool option \<Rightarrow> (string, 'k) dict option \<Rightarrow> 'k jwks \<Rightarrow> (string, 'k) dict res \<times> 'k jwks" where
  \<comment> \<open>\<open>fetched\<close> are the RSA keys of the answer by key id\<close>
  "jwks_keys ttl now refresh doc fetched c =
     (if jk_keys c \<noteq> [] \<and> \<not> refresh \<and> now - jk_at c < ttl then (Inr (jk_keys c), c)
      else (case discovery ttl now refresh doc c of
              (Inl e, c) \<Rightarrow> (Inl e, c)
            | (Inr u, c) \<Rightarrow>
                (case fetched of
                   Some (k # ks) \<Rightarrow> (Inr (k # ks), c\<lparr>jk_keys := k # ks\<rparr>)
                 | _ \<Rightarrow> (Inl (ValueError ''oidc-error: JWKS has no RSA keys''), c))))"

definition rsa_key_for ::
  "time \<Rightarrow> time \<Rightarrow> bool option \<Rightarrow> (bool \<Rightarrow> (string, 'k) dict option) \<Rightarrow> string \<Rightarrow> 'k jwks \<Rightarrow> 'k res \<times> 'k jwks" where
  \<comment> \<open>an unknown key id causes exactly one refresh\<close>
  "rsa_key_for ttl now doc fetch kid c =
     (case jwks_keys ttl now False doc (fetch False) c of
        (Inl e, c) \<Rightarrow> (Inl e, c)
      | (Inr keys, c) \<Rightarrow>
          (case dget keys kid of
             Some k \<Rightarrow> (Inr k, c)
           | None \<Rightarrow>
               (case jwks_keys ttl now True doc (fetch True) c of
                  (Inl e, c) \<Rightarrow> (Inl e, c)
                | (Inr keys, c) \<Rightarrow>
                    (case dget keys kid of
                       Some k \<Rightarrow> (Inr k, c)
                     | None \<Rightarrow> (Inl (ValueError ''oidc-error: unknown key id''), c)))))"

definition verify_id_token ::
  "('k \<Rightarrow> 'tok \<Rightarrow> id_claims option) \<Rightarrow> ('tok \<Rightarrow> (string \<times> string) option) \<Rightarrow>
   (string \<Rightarrow> 'k jwks \<Rightarrow> 'k res \<times> 'k jwks) \<Rightarrow> bool \<Rightarrow> 'tok \<Rightarrow> string option \<Rightarrow> 'k jwks \<Rightarrow> id_claims res \<times> 'k jwks" where
  \<comment> \<open>\<open>header\<close> yields algorithm and key id; \<open>decode\<close> is PyJWT with RS256, issuer, audience and the required
     claims; \<open>key_for\<close> is \<open>rsa_key_for\<close>\<close>
  "verify_id_token decode header key_for enabled token nonce c =
     (if \<not> enabled then (Inl (ValueError ''oidc-error: SSO is not configured''), c)
      else (case header token of
              None \<Rightarrow> (Inl (ValueError ''oidc-error: unreadable token''), c)
            | Some (alg, kid) \<Rightarrow>
                if alg \<noteq> ''RS256'' then (Inl (ValueError ''oidc-error: rejected algorithm''), c)
                else if kid = '''' then (Inl (ValueError ''oidc-error: missing key id''), c)
                else (case key_for kid c of
                        (Inl e, c) \<Rightarrow> (Inl e, c)
                      | (Inr key, c) \<Rightarrow>
                          (case decode key token of
                             None \<Rightarrow> (Inl (ValueError ''oidc-error: invalid token''), c)
                           | Some claims \<Rightarrow>
                               (case nonce of
                                  None \<Rightarrow> (Inr claims, c)
                                | Some n \<Rightarrow>
                                    if dget claims ''nonce'' = Some (One n) then (Inr claims, c)
                                    else (Inl (ValueError ''oidc-error: nonce mismatch (possible replay)''), c))))))"

lemma id_token_checked:
  "verify_id_token decode header key_for enabled token (Some n) c = (Inr claims, c') \<Longrightarrow>
     enabled \<and> (\<exists>kid key. header token = Some (''RS256'', kid) \<and> kid \<noteq> '''' \<and> fst (key_for kid c) = Inr key \<and>
       decode key token = Some claims \<and> dget claims ''nonce'' = Some (One n))"
  by (auto simp: verify_id_token_def split: if_splits option.splits prod.splits sum.splits)

section \<open>Login states\<close>

record login_state =
  ls_verifier :: string
  ls_nonce :: string

type_synonym states = "(string, time \<times> login_state) dict"

definition state_ttl :: time where "state_ttl = 600"

definition trim_states :: "states \<Rightarrow> states" where
  \<comment> \<open>above 1000 states the 100 that expire first go\<close>
  "trim_states d =
     (if 1000 < length d then fold (\<lambda>(k, v) d. ddel k d) (take 100 (sort_key (\<lambda>(k, v). fst v) d)) d else d)"

definition store_state :: "bool \<Rightarrow> time \<Rightarrow> string \<Rightarrow> login_state \<Rightarrow> states \<Rightarrow> states" where
  \<comment> \<open>the storing part of \<open>new_authorize_url\<close>; \<open>redis\<close> tells whether \<open>SETEX\<close> succeeded\<close>
  "store_state redis now state data d =
     (if redis then d else trim_states (dset state (now + state_ttl, data) d))"

definition consume_state :: "(login_state \<times> time) option option \<Rightarrow> time \<Rightarrow> string \<Rightarrow> states \<Rightarrow> login_state res \<times> states" where
  \<comment> \<open>\<open>redis\<close> is the answer to \<open>GET\<close> with the time of storing, \<open>None\<close> when Redis fails\<close>
  "consume_state redis now state d =
     (let unknown = Inl (ValueError ''oidc-error: unknown or expired state (possible replay)'');
          expired = Inl (ValueError ''oidc-error: state expired'')
      in case redis of
           Some None \<Rightarrow> (unknown, d)
         | Some (Some (data, at_time)) \<Rightarrow> (if state_ttl < now - at_time then expired else Inr data, d)
         | None \<Rightarrow>
             (case dget d state of
                None \<Rightarrow> (unknown, d)
              | Some (until, data) \<Rightarrow> (if until < now then expired else Inr data, ddel state d)))"

definition take_state :: "time \<times> string \<Rightarrow> states \<Rightarrow> states option" where
  \<comment> \<open>one callback to a process without Redis\<close>
  "take_state k d = (case consume_state None (fst k) (snd k) d of (Inl e, d) \<Rightarrow> None | (Inr x, d) \<Rightarrow> Some d)"

lemma take_state_Some:
  "take_state k d = Some d' \<longleftrightarrow>
     (\<exists>until data. dget d (snd k) = Some (until, data) \<and> \<not> until < fst k \<and> d' = ddel (snd k) d)"
  by (auto simp: take_state_def consume_state_def Let_def split: option.splits if_splits)

interpretation states: single_use "\<lambda>d k. take_state k d = None" take_state "\<lambda>d. True" "\<lambda>k j. snd k = snd j"
proof unfold_locales
  fix k j :: "time \<times> string" and d d' :: states
  show "(take_state k d = None) = (take_state k d = None)" ..
  assume k: "take_state k d = Some d'"
  then have d': "d' = ddel (snd k) d" by (auto simp: take_state_Some)
  show "take_state j d' = None" if "snd k = snd j"
    using that d' take_state_Some [of j d'] by (cases "take_state j d'") auto
  show "take_state j d' = None" if "take_state j d = None"
    using that d' take_state_Some [of j d] take_state_Some [of j d'] 
    by (cases "take_state j d'") (auto split: if_splits)
qed

text \<open>The state of a login is good for one callback: whatever other callbacks arrive in between,
  a second one with the same state is refused.\<close>

theorem state_single_use:
  assumes "i < j" "j < length ks" "snd (ks ! i) = snd (ks ! j)" "fst (states.burn_all ks d) ! i"
  shows "\<not> fst (states.burn_all ks d) ! j"
proof -
  have "states.roomy ks d"
    by (induction ks arbitrary: d) (auto split: option.splits)
  from states.accepted_at_most_once [OF this assms(1,2,3,4)] show ?thesis .
qed

section \<open>The callback\<close>

record sso_cfg =
  so_enabled :: bool
  so_defaults :: "string \<times> string"
  so_rules :: "claim_rule list"
  so_jit :: bool
  so_default_org_name :: string

definition user_by_sub :: "string \<Rightarrow> db \<Rightarrow> user option" where
  "user_by_sub sub d = find (\<lambda>u. u_oidc_sub u = Some sub) (map snd (db_users d))"

definition claim_text :: "id_claims \<Rightarrow> string \<Rightarrow> string" where
  "claim_text c k = (case dget c k of Some (One s) \<Rightarrow> s | _ \<Rightarrow> '''')"

definition org_by_name :: "string \<Rightarrow> db \<Rightarrow> string option" where
  "org_by_name name d = map_option fst (find (\<lambda>p. snd p = name) (db_orgs d))"

definition sso_fail :: "env \<Rightarrow> string \<Rightarrow> string \<Rightarrow> http_error \<Rightarrow> server \<Rightarrow> (http_error + user) \<times> server" where
  "sso_fail e org who err s = (Inl err, audit e org who ''auth.sso.failed'' ''callback'' s)"

definition find_or_provision ::
  "sso_cfg \<Rightarrow> env \<Rightarrow> string \<Rightarrow> string \<Rightarrow> string \<times> string \<Rightarrow> server \<Rightarrow> (http_error + user) \<times> server" where
  \<comment> \<open>by subject, then by mail address, then a new user\<close>
  "find_or_provision so e email sub role_org s =
     (case user_by_sub sub (sv_db s) of
        Some u \<Rightarrow> (Inr u, s)
      | None \<Rightarrow>
          (case user_by_email email (sv_db s) of
             Some u \<Rightarrow>
               if u_oidc_sub u \<noteq> None \<and> u_oidc_sub u \<noteq> Some sub
               then sso_fail e (u_org_id u) email (HTTPException 403 ''SSO account conflict'') s
               else (Inr u, s)
           | None \<Rightarrow>
               if \<not> so_jit so then sso_fail e ''unknown'' email (HTTPException 403 ''SSO account not provisioned'') s
               else (case (case org_by_name (snd role_org) (sv_db s) of
                             Some i \<Rightarrow> Some i | None \<Rightarrow> org_by_name (so_default_org_name so) (sv_db s)) of
                       None \<Rightarrow> (Inl (Uncaught (RuntimeError [''AttributeError''])), s)
                     | Some org \<Rightarrow>
                         (case role_of (fst role_org) of
                            None \<Rightarrow> (Inl (Uncaught (ValueError ''UserRole'')), s)
                          | Some r \<Rightarrow>
                              (let i = new_id ''user-'' e;
                                   u = \<lparr>u_id = i, u_org_id = org, u_email = email,
                                        u_password_hash = hash_password (ascii (hexdigest (e_random e))) (e_random e),
                                        u_role = r, u_is_active = True, u_last_login = None,
                                        u_mfa_secret_enc = None, u_mfa_enabled = False, u_mfa_recovery = [],
                                        u_oidc_sub = Some sub, u_session_version = Some 1,
                                        u_is_platform_admin = False\<rparr>
                               in if dget (db_users (sv_db s)) i \<noteq> None then (Inl integrity_error, s)
                                  else (Inr u, audit e org email ''auth.sso.provisioned'' ''user'' (save_user u s)))))))"

definition oidc_callback ::
  "settings \<Rightarrow> sso_cfg \<Rightarrow> env \<Rightarrow> (login_state res \<times> states) \<Rightarrow> (login_state \<Rightarrow> id_claims res) \<Rightarrow> server \<Rightarrow> outcome" where
  \<comment> \<open>\<open>taken\<close> is the result of \<open>consume_state\<close>; \<open>exchange\<close> is the exchange of the code with the state's
     verifier, followed by \<open>verify_id_token\<close> with its nonce\<close>
  "oidc_callback cfg so e taken exchange s =
     (if \<not> so_enabled so then (Inl (HTTPException 404 ''SSO is not configured''), s)
      else (case fst taken of
              Inl err \<Rightarrow> (Inl (HTTPException 401 ''Invalid SSO state (possible replay)''),
                 audit e ''unknown'' ''sso'' ''auth.sso.failed'' ''callback'' s)
            | Inr st \<Rightarrow>
                (case exchange st of
                   Inl err \<Rightarrow> (Inl (HTTPException 401 ''SSO verification failed''),
                      audit e ''unknown'' ''sso'' ''auth.sso.failed'' ''callback'' s)
                 | Inr claims \<Rightarrow>
                     (let role_org = map_role_org (so_defaults so) (so_rules so) claims;
                          email = str_lower (str_strip (claim_text claims ''email''));
                          sub = claim_text claims ''sub''
                      in if email = '''' \<or> CHR ''@'' \<notin> set email \<or> sub = ''''
                         then (Inl (HTTPException 401 ''SSO verification failed''),
                               audit e ''unknown'' (if email = '''' then ''sso'' else email) ''auth.sso.failed'' ''callback'' s)
                         else (case find_or_provision so e email sub role_org s of
                                 (Inl err, s) \<Rightarrow> (Inl err, s)
                               | (Inr u, s) \<Rightarrow>
                                   if \<not> u_is_active u then (Inl (HTTPException 401 ''User inactive or deleted''), s)
                                   else (let u = u\<lparr>u_oidc_sub := (if u_oidc_sub u = None then Some sub else u_oidc_sub u),
                                                   u_last_login := Some (e_now e)\<rparr>;
                                             s = save_user u s
                                         in if mfa_required cfg u (sv_db s)
                                            then (Inr (Mfa_Ticket (create_mfa_ticket (e_now e) (e_jti e) (u_id u) (u_org_id u))),
                                                  audit e (u_org_id u) (u_email u) ''auth.mfa.challenged'' ''session'' s)
                                            else (Inr (Session_Token (session_token cfg e u)),
                                                  audit e (u_org_id u) (u_email u) ''auth.login.sso'' ''session'' s)))))))"

lemma unverified_mail_takes_over_account:
  \<comment> \<open>a local account without a subject is handed to whoever the provider lets claim its mail address: the
     claim \<open>email_verified\<close> is not looked at\<close>
  assumes "user_by_sub sub (sv_db s) = None" "user_by_email email (sv_db s) = Some u" "u_oidc_sub u = None"
    and "u_is_active u" "\<not> mfa_required cfg u (sv_db s)" "so_enabled so"
    and "exchange st = Inr claims" "claim_text claims ''sub'' = sub" "sub \<noteq> ''''"
    and "str_lower (str_strip (claim_text claims ''email'')) = email" "email \<noteq> ''''" "CHR ''@'' \<in> set email"
  shows "\<exists>v s'. oidc_callback cfg so e (Inr st, d) exchange s = (Inr (Session_Token (session_token cfg e v)), s') \<and>
    u_id v = u_id u \<and> u_role v = u_role u \<and> u_oidc_sub v = Some sub"
proof -
  let ?v = "u\<lparr>u_oidc_sub := Some sub, u_last_login := Some (e_now e)\<rparr>"
  have "\<not> mfa_required cfg ?v (put_user ?v (sv_db s))"
    using assms(5) mfa_required_cong [of ?v u] by simp
  then have "fst (oidc_callback cfg so e (Inr st, d) exchange s) = Inr (Session_Token (session_token cfg e ?v))"
    using assms by (simp add: oidc_callback_def find_or_provision_def Let_def)
  then have "oidc_callback cfg so e (Inr st, d) exchange s = (Inr (Session_Token (session_token cfg e ?v)),
      snd (oidc_callback cfg so e (Inr st, d) exchange s))"
    by (metis prod.collapse)
  moreover have "u_id ?v = u_id u" "u_role ?v = u_role u" "u_oidc_sub ?v = Some sub" by simp_all
  ultimately show ?thesis by blast
qed

end
