(* ===== verification/Retention.thy ===== *)
theory Retention
  imports Prelude
begin

text \<open>
  Data retention (src/backend/app/live/retention.py): the raw-capture store with its disk guard and
  its time-chunked segment files, and the batch-wise purge of database rows. Segment files are a
  dictionary from the start of the segment (the number in the file name) to their bytes. What
  \<open>statvfs\<close> reports is an input; the eight bytes of a packed double are a parameter. Deleting a
  session deletes its findings, as the relationship in src/backend/app/models/entities.py says
  (\<open>cascade="all, delete-orphan"\<close>).
\<close>

section \<open>The raw-capture store\<close>

type_synonym seg_ref = "int \<times> nat \<times> nat"

record raw_store =
  rw_files :: "(int, bytes) dict"
  rw_current :: "int option"
  rw_retention :: int
  rw_segment_seconds :: int
  rw_min_free :: nat
  rw_guard :: bool
  rw_dropped :: nat
  rw_since_check :: nat
  rw_frames :: nat
  rw_bytes :: nat

definition disk_check_every :: nat where "disk_check_every = 128"

definition le_bytes :: "nat \<Rightarrow> nat \<Rightarrow> bytes" where
  \<comment> \<open>\<open>n\<close> as \<open>k\<close> little-endian bytes\<close>
  "le_bytes k n = map (\<lambda>i. of_nat (n div 256 ^ i)) [0..<k]"

definition frame_header :: "(int \<Rightarrow> bytes) \<Rightarrow> time \<Rightarrow> bytes \<Rightarrow> bytes" where
  \<comment> \<open>\<open>struct "<QdI"\<close> and the magic\<close>
  "frame_header f64 ts frame =
     le_bytes 8 0 @ f64 \<lfloor>ts * 1000000\<rfloor> @ le_bytes 4 (length frame) @ le_bytes 4 0x43505720"

definition segment_of :: "raw_store \<Rightarrow> time \<Rightarrow> int" where
  "segment_of s ts = \<lfloor>ts\<rfloor> div rw_segment_seconds s * rw_segment_seconds s"

definition open_segment :: "time \<Rightarrow> raw_store \<Rightarrow> raw_store" where
  \<comment> \<open>opening for append creates the file\<close>
  "open_segment ts s =
     (let seg = segment_of s ts
      in if rw_current s = Some seg then s
         else s\<lparr>rw_current := Some seg, rw_files := dset seg (dget_or (rw_files s) seg []) (rw_files s)\<rparr>)"

definition disk_guard :: "nat option \<Rightarrow> raw_store \<Rightarrow> raw_store" where
  \<comment> \<open>\<open>free\<close> is the free space, \<open>None\<close> when it cannot be measured; the answer is \<open>rw_guard\<close>\<close>
  "disk_guard free s =
     (let s = s\<lparr>rw_since_check := rw_since_check s + 1\<rparr>
      in if rw_guard s \<or> disk_check_every \<le> rw_since_check s
         then (let s = s\<lparr>rw_since_check := 0\<rparr>
               in case free of None \<Rightarrow> s | Some n \<Rightarrow> s\<lparr>rw_guard := n < rw_min_free s\<rparr>)
         else s)"

definition write_frame ::
  "(int \<Rightarrow> bytes) \<Rightarrow> nat option \<Rightarrow> time \<Rightarrow> bytes \<Rightarrow> raw_store \<Rightarrow> seg_ref option res \<times> raw_store" where
  "write_frame f64 free ts frame s =
     (let s = disk_guard free s
      in if rw_guard s then (Inr None, s\<lparr>rw_dropped := rw_dropped s + 1\<rparr>)
         else (let s = open_segment ts s; seg = segment_of s ts;
                   old = dget_or (rw_files s) seg [];
                   data = frame_header f64 ts frame @ frame
               in if 2 ^ 32 \<le> length frame then (Inl (RuntimeError [''struct.error'']), s)
                  else (Inr (Some (seg, length old, 24 + length frame)),
                        s\<lparr>rw_files := dset seg (old @ data) (rw_files s),
                          rw_frames := rw_frames s + 1, rw_bytes := rw_bytes s + 24 + length frame\<rparr>)))"

definition read_frames :: "seg_ref list \<Rightarrow> raw_store \<Rightarrow> bytes list" where
  \<comment> \<open>segments that were purged are skipped\<close>
  "read_frames refs s =
     List.map_filter (\<lambda>(seg, off, len). map_option (\<lambda>d. py_slice d off (off + len)) (dget (rw_files s) seg)) refs"

definition purge :: "time \<Rightarrow> raw_store \<Rightarrow> nat \<times> raw_store" where
  "purge now s =
     (let cutoff = \<lfloor>now\<rfloor> - rw_retention s;
          old = (\<lambda>seg. seg + rw_segment_seconds s < cutoff \<and> rw_current s \<noteq> Some seg);
          files = filter (\<lambda>(seg, d). \<not> old seg) (rw_files s)
      in (length (rw_files s) - length files, s\<lparr>rw_files := files\<rparr>))"

lemma disk_guard_files [simp]:
  "rw_files (disk_guard f s) = rw_files s" "rw_segment_seconds (disk_guard f s) = rw_segment_seconds s"
  by (simp_all add: disk_guard_def Let_def split: option.split)

lemma open_segment_get:
  "dget (rw_files s) seg = Some d \<Longrightarrow> dget (rw_files (open_segment ts s)) seg = Some d"
  by (auto simp: open_segment_def Let_def dget_or_def)

lemma dget_filter_key: "dget (filter (\<lambda>(k, v). P k) xs) k = (if P k then dget xs k else None)"
  by (induction xs) auto

lemma open_segment_seconds [simp]: "rw_segment_seconds (open_segment ts s) = rw_segment_seconds s"
  by (simp add: open_segment_def Let_def)

lemma write_appends:
  assumes "dget (rw_files s) seg = Some d"
  shows "\<exists>d'. dget (rw_files (snd (write_frame f64 free ts frame s))) seg = Some (d @ d')"
  using open_segment_get [of "disk_guard free s" seg d ts] assms
  by (auto simp: write_frame_def Let_def dget_or_def segment_of_def)

lemma writes_append:
  "dget (rw_files s) seg = Some d \<Longrightarrow>
   \<exists>d'. dget (rw_files (fold (\<lambda>(free, ts, frame) s. snd (write_frame f64 free ts frame s)) ws s)) seg = Some (d @ d')"
proof (induction ws arbitrary: s d)
  case Nil
  then show ?case by simp
next
  case (Cons w ws)
  obtain free ts frame where w: "w = (free, ts, frame)" by (cases w)
  obtain d' where "dget (rw_files (snd (write_frame f64 free ts frame s))) seg = Some (d @ d')"
    using write_appends [OF Cons.prems] by blast
  from Cons.IH [OF this] show ?case by (auto simp: w)
qed

text \<open>A frame that was stored reads back through its reference, header and payload, after any
  number of further writes.\<close>

theorem stored_frame_reads_back:
  assumes "write_frame f64 free ts frame s = (Inr (Some r), s')" "\<And>t. length (f64 t) = 8"
  shows "read_frames [r] (fold (\<lambda>(free, ts, frame) s. snd (write_frame f64 free ts frame s)) ws s')
           = [frame_header f64 ts frame @ frame]"
proof -
  obtain seg old where r: "r = (seg, length old, 24 + length frame)"
    "dget (rw_files s') seg = Some (old @ frame_header f64 ts frame @ frame)"
    using assms(1) by (auto simp: write_frame_def Let_def split: if_splits)
  obtain d' where "dget (rw_files (fold (\<lambda>(free, ts, frame) s. snd (write_frame f64 free ts frame s)) ws s')) seg
      = Some ((old @ frame_header f64 ts frame @ frame) @ d')"
    using writes_append [OF r(2)] by blast
  moreover have "length (frame_header f64 ts frame) = 24"
    using assms(2) by (simp add: frame_header_def le_bytes_def)
  ultimately show ?thesis by (simp add: read_frames_def r(1) py_slice_def List.map_filter_simps)
qed

text \<open>A purge never removes a segment that holds a frame younger than the retention period, nor
  the one that is being written.\<close>

theorem purge_keeps_recent:
  assumes "dget (rw_files s) (segment_of s ts) = Some d" "0 < rw_segment_seconds s"
    and "now - ts \<le> real_of_int (rw_retention s)"
  shows "dget (rw_files (snd (purge now s))) (segment_of s ts) = Some d"
proof -
  let ?seg = "segment_of s ts"
  have "\<lfloor>ts\<rfloor> mod rw_segment_seconds s < rw_segment_seconds s" using assms(2) by simp
  then have "\<lfloor>ts\<rfloor> < ?seg + rw_segment_seconds s"
    using div_mult_mod_eq [of "\<lfloor>ts\<rfloor>" "rw_segment_seconds s"] unfolding segment_of_def by linarith
  moreover have "\<lfloor>now\<rfloor> - rw_retention s \<le> \<lfloor>ts\<rfloor>"
    using assms(3) by linarith
  ultimately have "\<not> ?seg + rw_segment_seconds s < \<lfloor>now\<rfloor> - rw_retention s" by linarith
  then show ?thesis using assms(1) by (simp add: purge_def Let_def dget_filter_key)
qed

lemma stored_frame_reads_back_witness:
  "read_frames [(0, 0, 25)]
     (fold (\<lambda>(free, ts, frame) s. snd (write_frame (\<lambda>t. replicate 8 0) free ts frame s)) [(None, 2, [8, 9])]
       (snd (write_frame (\<lambda>t. replicate 8 0) (Some 5) 1 [7]
         \<lparr>rw_files = [], rw_current = None, rw_retention = 60, rw_segment_seconds = 300, rw_min_free = 1,
          rw_guard = False, rw_dropped = 0, rw_since_check = 128, rw_frames = 0, rw_bytes = 0\<rparr>)))
   = [frame_header (\<lambda>t. replicate 8 0) 1 [7] @ [7]]"
proof -
  let ?s = "\<lparr>rw_files = [], rw_current = None, rw_retention = 60, rw_segment_seconds = 300, rw_min_free = 1,
      rw_guard = False, rw_dropped = 0, rw_since_check = 128, rw_frames = 0, rw_bytes = 0\<rparr>"
  have "write_frame (\<lambda>t. replicate 8 0) (Some 5) 1 [7] ?s
      = (Inr (Some (0, 0, 25)), snd (write_frame (\<lambda>t. replicate 8 0) (Some 5) 1 [7] ?s))"
    by (simp add: write_frame_def disk_guard_def disk_check_every_def open_segment_def segment_of_def
        dget_or_def Let_def)
  from stored_frame_reads_back [OF this, of "[(None, 2, [8, 9])]"] show ?thesis by simp
qed

lemma purge_keeps_recent_witness:
  "dget (rw_files (snd (purge 500
     \<lparr>rw_files = [(300, [1])], rw_current = None, rw_retention = 60, rw_segment_seconds = 300, rw_min_free = 1,
      rw_guard = False, rw_dropped = 0, rw_since_check = 0, rw_frames = 1, rw_bytes = 1\<rparr>))) 300 = Some [1]"
  using purge_keeps_recent [of "\<lparr>rw_files = [(300, [1])], rw_current = None, rw_retention = 60,
      rw_segment_seconds = 300, rw_min_free = 1, rw_guard = False, rw_dropped = 0, rw_since_check = 0,
      rw_frames = 1, rw_bytes = 1\<rparr>" 450 "[1]" 500]
  by (simp add: segment_of_def)

section \<open>Purging rows in batches\<close>

function purge_rows :: "nat \<Rightarrow> ('r \<Rightarrow> bool) \<Rightarrow> 'r list \<Rightarrow> 'r list list \<times> 'r list" where
  \<comment> \<open>the committed batches, until one is empty, and the rows that are left\<close>
  "purge_rows batch eligible rows =
     (let b = take batch (filter eligible rows)
      in if b = [] then ([], rows)
         else (let (bs, left) = purge_rows batch eligible (filter (\<lambda>r. r \<notin> set b) rows) in (b # bs, left)))"
  by pat_completeness auto

lemma batch_shrinks:
  assumes "take n (filter P rows) \<noteq> []"
  shows "length (filter (\<lambda>r. r \<notin> set (take n (filter P rows))) rows) < length rows"
proof -
  obtain r where "r \<in> set (take n (filter P rows))" using assms by (metis list.set_intros(1) neq_Nil_conv)
  moreover from this have "r \<in> set rows" by (metis filter_is_subset in_set_takeD subsetD)
  ultimately show ?thesis by (intro length_filter_less [of r]) auto
qed

termination purge_rows
  by (relation "measure (\<lambda>(n, P, rows). length rows)") (auto simp: batch_shrinks)

declare purge_rows.simps [simp del]

lemma filter_not_taken:
  assumes "distinct rows"
  shows "filter P (filter (\<lambda>r. r \<notin> set (take n (filter P rows))) rows) = drop n (filter P rows)"
proof -
  let ?f = "filter P rows"
  have "filter (\<lambda>r. r \<notin> set (take n ?f)) ?f = filter (\<lambda>r. r \<notin> set (take n ?f)) (take n ?f @ drop n ?f)"
    by (simp only: append_take_drop_id)
  also have "\<dots> = filter (\<lambda>r. r \<notin> set (take n ?f)) (drop n ?f)"
  proof -
    have "filter (\<lambda>r. r \<notin> set ts) ts = []" for ts :: "'a list"
      by (simp add: filter_empty_conv)
    then show ?thesis by (simp only: filter_append append_Nil)
  qed
  also have "\<dots> = drop n ?f"
    using assms set_take_disj_set_drop_if_distinct [of ?f n n]
    by (intro filter_True) auto
  finally have cut: "filter (\<lambda>r. r \<notin> set (take n ?f)) ?f = drop n ?f" .
  have "filter P (filter Q xs) = filter Q (filter P xs)" for Q xs
    by (induction xs) auto
  then show ?thesis by (rule trans) (rule cut)
qed

lemma purge_rows_spec:
  assumes "distinct rows" "0 < batch"
  shows "concat (fst (purge_rows batch eligible rows)) = filter eligible rows \<and>
    snd (purge_rows batch eligible rows) = filter (\<lambda>r. \<not> eligible r) rows \<and>
    list_all (\<lambda>b. 0 < length b \<and> length b \<le> batch) (fst (purge_rows batch eligible rows))"
  using assms
proof (induction batch eligible rows rule: purge_rows.induct)
  case (1 n P rows)
  let ?b = "take n (filter P rows)"
  let ?rest = "filter (\<lambda>r. r \<notin> set ?b) rows"
  show ?case
  proof (cases "?b = []")
    case True
    then have "filter P rows = []" using 1(3) by simp
    then show ?thesis by (simp add: purge_rows.simps filter_id_conv filter_empty_conv)
  next
    case False
    note ih = 1(1) [OF refl False distinct_filter [OF 1(2)] 1(3)]
    have kept: "filter (\<lambda>r. \<not> P r) ?rest = filter (\<lambda>r. \<not> P r) rows"
      by (auto simp: filter_filter intro!: filter_cong dest: in_set_takeD)
    have u: "purge_rows n P rows = (?b # fst (purge_rows n P ?rest), snd (purge_rows n P ?rest))"
      using False by (subst purge_rows.simps) (simp add: Let_def split_beta)
    have "concat (fst (purge_rows n P ?rest)) = drop n (filter P rows)"
      "snd (purge_rows n P ?rest) = filter (\<lambda>r. \<not> P r) rows"
      "list_all (\<lambda>b. 0 < length b \<and> length b \<le> n) (fst (purge_rows n P ?rest))"
      using ih kept filter_not_taken [OF 1(2), of P n] by simp_all
    then show ?thesis
      using False by (simp only: u fst_conv snd_conv concat.simps append_take_drop_id list.pred_inject) auto
  qed
qed

text \<open>C40: The purge loop terminates and its batches together remove exactly the eligible rows, each
  batch within the batch size: it does what one large delete would do.\<close>

theorem purge_in_batches:
  assumes "distinct rows" "0 < batch"
  shows "concat (fst (purge_rows batch eligible rows)) = filter eligible rows \<and>
    snd (purge_rows batch eligible rows) = filter (\<lambda>r. \<not> eligible r) rows \<and>
    list_all (\<lambda>b. 0 < length b \<and> length b \<le> batch) (fst (purge_rows batch eligible rows))"
  using assms by (rule purge_rows_spec)

lemma purge_in_batches_witness:
  "snd (purge_rows 2 (\<lambda>n. n < 4) [1, 5, 2, 3, 7 :: nat]) = [5, 7]"
  using purge_in_batches [of "[1, 5, 2, 3, 7 :: nat]" 2 "\<lambda>n. n < 4"] by simp

section \<open>Purging the database\<close>

record held_session =
  hs_id :: string
  hs_job_id :: string
  hs_created_at :: "time option"

record held_finding =
  hf_id :: nat
  hf_session_id :: string
  hf_created_at :: "time option"
  hf_legal_hold :: "bool option"

record plain_row =
  pr_id :: nat
  pr_created_at :: "time option"

record tables =
  tb_held_jobs :: "string list"
  tb_sessions :: "held_session list"
  tb_findings :: "held_finding list"
  tb_alerts :: "plain_row list"
  tb_audit :: "plain_row list"

record retention_days =
  rd_sessions :: int
  rd_findings :: int
  rd_alerts :: int
  rd_audit :: int

definition older :: "time \<Rightarrow> int \<Rightarrow> time option \<Rightarrow> bool" where
  \<comment> \<open>\<open>ts_col.is_not(None), ts_col < cutoff\<close>; no days, no purge\<close>
  "older now days created =
     (if days \<le> 0 then False
      else (case created of None \<Rightarrow> False | Some t \<Rightarrow> t < now - 86400 * real_of_int days))"

definition session_eligible :: "time \<Rightarrow> retention_days \<Rightarrow> tables \<Rightarrow> held_session \<Rightarrow> bool" where
  "session_eligible now cfg t r \<longleftrightarrow>
     older now (rd_sessions cfg) (hs_created_at r) \<and> hs_job_id r \<notin> set (tb_held_jobs t)"

definition finding_eligible :: "time \<Rightarrow> retention_days \<Rightarrow> held_finding \<Rightarrow> bool" where
  "finding_eligible now cfg r \<longleftrightarrow>
     older now (rd_findings cfg) (hf_created_at r) \<and> hf_legal_hold r \<noteq> Some True"

definition cascade :: "held_session list \<Rightarrow> tables \<Rightarrow> tables" where
  \<comment> \<open>deleting sessions takes their findings along\<close>
  "cascade gone t = t\<lparr>tb_findings := filter (\<lambda>f. hf_session_id f \<notin> hs_id ` set gone) (tb_findings t)\<rparr>"

definition purge_all :: "nat \<Rightarrow> retention_days \<Rightarrow> time \<Rightarrow> tables \<Rightarrow> nat list \<times> tables" where
  \<comment> \<open>the totals of the four tables, in the order of the plan\<close>
  "purge_all batch cfg now t =
     (let (sb, ss) = purge_rows batch (session_eligible now cfg t) (tb_sessions t);
          t = cascade (concat sb) (t\<lparr>tb_sessions := ss\<rparr>);
          (fb, fs) = purge_rows batch (finding_eligible now cfg) (tb_findings t);
          (ab, as) = purge_rows batch (\<lambda>r. older now (rd_alerts cfg) (pr_created_at r)) (tb_alerts t);
          (ub, us) = purge_rows batch (\<lambda>r. older now (rd_audit cfg) (pr_created_at r)) (tb_audit t)
      in ([length (concat sb), length (concat fb), length (concat ab), length (concat ub)],
          t\<lparr>tb_findings := fs, tb_alerts := as, tb_audit := us\<rparr>))"

definition tables_ok :: "tables \<Rightarrow> bool" where
  \<comment> \<open>primary keys\<close>
  "tables_ok t \<longleftrightarrow> distinct (map hs_id (tb_sessions t)) \<and> distinct (map hf_id (tb_findings t)) \<and>
     distinct (map pr_id (tb_alerts t)) \<and> distinct (map pr_id (tb_audit t))"

lemma tables_okD:
  assumes "tables_ok t"
  shows "distinct (tb_sessions t)" "distinct (tb_findings t)" "distinct (tb_alerts t)" "distinct (tb_audit t)"
  using assms by (auto simp: tables_ok_def distinct_map)

lemma purge_all_tables:
  assumes "tables_ok t" "0 < batch"
  shows "snd (purge_all batch cfg now t) = t
    \<lparr>tb_sessions := filter (\<lambda>r. \<not> session_eligible now cfg t r) (tb_sessions t),
     tb_findings := filter (\<lambda>f. \<not> finding_eligible now cfg f)
       (filter (\<lambda>f. hf_session_id f \<notin> hs_id ` set (filter (session_eligible now cfg t) (tb_sessions t))) (tb_findings t)),
     tb_alerts := filter (\<lambda>r. \<not> older now (rd_alerts cfg) (pr_created_at r)) (tb_alerts t),
     tb_audit := filter (\<lambda>r. \<not> older now (rd_audit cfg) (pr_created_at r)) (tb_audit t)\<rparr>"
proof -
  note d = tables_okD [OF assms(1)]
  note p = purge_rows_spec [OF _ assms(2)]
  show ?thesis
    using p [OF d(1)] p [OF d(3)] p [OF d(4)] p [OF distinct_filter [OF d(2)]]
    by (simp add: purge_all_def cascade_def Let_def split_beta del: set_concat set_filter)
qed


lemma only_missing: "x \<notin> set xs \<Longrightarrow> set xs \<subseteq> {x} \<Longrightarrow> xs = []"
  by (cases xs) auto


end
