(* ===== verification/Live_Reassembly.thy ===== *)
theory Live_Reassembly
  imports Sessions
begin

text \<open>
  The streaming reassembler of the capture worker (src/backend/app/live/reassembly.py): packets are
  fed into the assembler of \<open>TCP_Reassembly\<close>, a sweep closes finished, idle and oversized streams and
  evicts the oldest ones over the session cap. A swept stream whose protocol is unknown yields \<open>None\<close>,
  as in the source.
\<close>

section \<open>State\<close>

record reasm_stats =
  n_packets :: nat
  n_evicted :: nat
  n_closed_fin :: nat
  n_closed_rst :: nat
  n_closed_idle :: nat
  n_closed_cap :: nat
  n_truncated :: nat
  n_completed :: nat
  n_active :: nat

record live =
  l_streams :: streams
  l_refs :: "(skey, raw_ref list) dict"
  l_idle_timeout :: time
  l_max_sessions :: nat
  l_max_buffer :: nat
  l_stats :: reasm_stats

definition new_live :: "time \<Rightarrow> nat \<Rightarrow> nat \<Rightarrow> live" where
  "new_live idle maxs maxb = \<lparr>l_streams = [], l_refs = [], l_idle_timeout = idle,
     l_max_sessions = maxs, l_max_buffer = maxb,
     l_stats = \<lparr>n_packets = 0, n_evicted = 0, n_closed_fin = 0, n_closed_rst = 0, n_closed_idle = 0,
       n_closed_cap = 0, n_truncated = 0, n_completed = 0, n_active = 0\<rparr>\<rparr>"

section \<open>Feeding\<close>

definition feed_packet :: "packet \<Rightarrow> raw_ref option \<Rightarrow> live \<Rightarrow> live" where
  "feed_packet p ref l =
     (let l = l\<lparr>l_stats := (l_stats l)\<lparr>n_packets := n_packets (l_stats l) + 1\<rparr>,
                l_streams := feed p (l_streams l)\<rparr>
      in (case ref of
            None \<Rightarrow> l
          | Some r \<Rightarrow>
              (let key = packet_key p
               in l\<lparr>l_refs := dset key (dget_or (l_refs l) key [] @ [r]) (l_refs l)\<rparr>)))"

section \<open>Closing one stream\<close>

definition last_activity :: "stream \<Rightarrow> time" where
  "last_activity st = max (hs_last_ts (ha st)) (hs_last_ts (hb st))"

definition buffered :: "stream \<Rightarrow> nat" where
  "buffered st = length (hs_buf (ha st)) + length (hs_buf (hb st))"

definition live_session :: "stream \<Rightarrow> string \<Rightarrow> raw_ref list \<Rightarrow> session option" where
  "live_session st reason refs =
     map_option (\<lambda>s. s\<lparr>s_end_ts := last_activity st, s_closed_by := reason, s_raw_refs := refs,
                       s_tracked_bytes := buffered st\<rparr>)
       (session_of_stream st)"

definition count_close :: "string \<Rightarrow> reasm_stats \<Rightarrow> reasm_stats" where
  "count_close reason n =
     (let n = (if reason = ''idle'' then n\<lparr>n_closed_idle := n_closed_idle n + 1\<rparr>
               else if reason = ''cap''
               then n\<lparr>n_closed_cap := n_closed_cap n + 1, n_truncated := n_truncated n + 1\<rparr>
               else if reason = ''evicted'' then n\<lparr>n_closed_cap := n_closed_cap n + 1\<rparr>
               else if reason = ''rst'' then n\<lparr>n_closed_rst := n_closed_rst n + 1\<rparr>
               else if reason = ''fin'' then n\<lparr>n_closed_fin := n_closed_fin n + 1\<rparr> else n)
      in n\<lparr>n_completed := n_completed n + 1\<rparr>)"

definition emit_one :: "skey \<Rightarrow> stream \<Rightarrow> string \<Rightarrow> live \<Rightarrow> session option \<times> live" where
  "emit_one key st reason l =
     (if dget (l_streams l) key = None then (None, l)
      else
        (let refs = dget_or (l_refs l) key [];
             l = l\<lparr>l_streams := ddel key (l_streams l), l_refs := ddel key (l_refs l)\<rparr>
         in (case live_session st reason refs of
               None \<Rightarrow> (None, l)
             | Some s \<Rightarrow> (Some s, l\<lparr>l_stats := count_close reason (l_stats l)\<rparr>))))"

fun emit_all :: "(skey \<times> stream \<times> string) list \<Rightarrow> live \<Rightarrow> session option list \<times> live" where
  "emit_all [] l = ([], l)"
| "emit_all ((key, st, reason) # r) l =
     (let (s, l) = emit_one key st reason l; (out, l) = emit_all r l in (s # out, l))"

section \<open>Sweep and drain\<close>

definition close_reason :: "stream \<Rightarrow> string" where
  "close_reason st = (if hs_rst (ha st) \<or> hs_rst (hb st) then ''rst'' else ''fin'')"

definition mark_rst :: "stream \<Rightarrow> stream" where
  "mark_rst st = st\<lparr>ha := (ha st)\<lparr>hs_rst := True\<rparr>, hb := (hb st)\<lparr>hs_rst := True\<rparr>\<rparr>"

definition verdict :: "time \<Rightarrow> live \<Rightarrow> stream \<Rightarrow> (stream \<times> string) option" where
  \<comment> \<open>the body of the first loop of \<open>sweep\<close>\<close>
  "verdict now l st =
     (if st_complete st then Some (st, close_reason st)
      else if last_activity st \<noteq> 0 \<and> l_idle_timeout l < now - last_activity st then Some (st, ''idle'')
      else if l_max_buffer l < buffered st then Some (mark_rst st, ''cap'')
      else None)"

definition to_close :: "time \<Rightarrow> live \<Rightarrow> (skey \<times> stream \<times> string) list" where
  "to_close now l = List.map_filter (\<lambda>(key, st). map_option (Pair key) (verdict now l st)) (l_streams l)"

fun evict_all :: "skey list \<Rightarrow> live \<Rightarrow> session option list \<times> live" where
  "evict_all [] l = ([], l)"
| "evict_all (k # ks) l =
     (let l = l\<lparr>l_stats := (l_stats l)\<lparr>n_evicted := n_evicted (l_stats l) + 1\<rparr>\<rparr>;
          (s, l) = (case dget (l_streams l) k of None \<Rightarrow> (None, l) | Some st \<Rightarrow> emit_one k st ''evicted'' l);
          (out, l) = evict_all ks l
      in (case s of None \<Rightarrow> (out, l) | Some _ \<Rightarrow> (s # out, l)))"

definition overflow :: "live \<Rightarrow> skey list" where
  \<comment> \<open>the oldest incomplete streams over the session cap\<close>
  "overflow l =
     (let active = filter (\<lambda>(k, st). \<not> st_complete st) (l_streams l)
      in if l_max_sessions l < length active
         then take (length active - l_max_sessions l) (map fst (sort_key (\<lambda>(k, st). st_first_ts st) active))
         else [])"

definition note_active :: "live \<Rightarrow> live" where
  "note_active l = l\<lparr>l_stats := (l_stats l)\<lparr>n_active := length (l_streams l)\<rparr>\<rparr>"

definition sweep :: "time \<Rightarrow> live \<Rightarrow> session option list \<times> live" where
  "sweep now l =
     (let (out, l) = emit_all (to_close now l) l;
          (evicted, l) = evict_all (overflow l) l
      in (out @ evicted, note_active l))"

definition drain :: "live \<Rightarrow> session list \<times> live" where
  "drain l =
     (let (out, l) = emit_all (map (\<lambda>(k, st). (k, st, close_reason st))
                        (filter (\<lambda>(k, st). st_complete st) (l_streams l))) l
      in (List.map_filter id out, note_active l))"

section \<open>Well-formedness\<close>

definition live_ok :: "live \<Rightarrow> bool" where
  \<comment> \<open>keys are unique and every raw reference belongs to a stream that is still open\<close>
  "live_ok l \<longleftrightarrow> dict_ok (l_streams l) \<and> dict_ok (l_refs l) \<and>
     (\<forall>k. dget (l_streams l) k = None \<longrightarrow> dget (l_refs l) k = None)"

lemma live_ok_new: "live_ok (new_live i m b)"
  by (simp add: live_ok_def new_live_def)

lemma feed_keeps_keys: "dget sts k \<noteq> None \<Longrightarrow> dget (feed p sts) k \<noteq> None"
  by (auto simp: feed_def Let_def)

lemma feed_has_key: "dget (feed p sts) (packet_key p) \<noteq> None"
  by (simp add: feed_def Let_def)

lemma live_ok_feed: "live_ok l \<Longrightarrow> live_ok (feed_packet p ref l)"
  using feed_keeps_keys [of "l_streams l" _ p] feed_has_key [of p "l_streams l"]
  by (cases ref) (auto simp: live_ok_def feed_packet_def feed_def Let_def)

lemma emit_one_streams:
  "l_streams (snd (emit_one k st r l)) = ddel k (l_streams l)"
  "l_refs (snd (emit_one k st r l)) = (if dget (l_streams l) k = None then l_refs l else ddel k (l_refs l))"
  "l_max_sessions (snd (emit_one k st r l)) = l_max_sessions l"
  "l_max_buffer (snd (emit_one k st r l)) = l_max_buffer l"
  "l_idle_timeout (snd (emit_one k st r l)) = l_idle_timeout l"
  by (auto simp: emit_one_def Let_def map_of_eq_None_iff delete_id split: option.split)

lemma live_ok_emit_one: "live_ok l \<Longrightarrow> live_ok (snd (emit_one k st r l))"
  by (auto simp: live_ok_def emit_one_streams)

lemma emit_all_Cons:
  "emit_all (x # r) l =
     (let (s, l) = emit_one (fst x) (fst (snd x)) (snd (snd x)) l; (out, l) = emit_all r l in (s # out, l))"
  by (cases x) simp

declare emit_all.simps(2) [simp del]

lemma emit_all_streams:
  "l_streams (snd (emit_all xs l)) = foldl (\<lambda>d k. ddel k d) (l_streams l) (map fst xs) \<and>
   l_max_sessions (snd (emit_all xs l)) = l_max_sessions l"
  by (induction xs arbitrary: l) (simp_all add: emit_all_Cons Let_def split_beta emit_one_streams)

lemma live_ok_emit_all: "live_ok l \<Longrightarrow> live_ok (snd (emit_all xs l))"
  by (induction xs arbitrary: l) (simp_all add: emit_all_Cons Let_def split_beta live_ok_emit_one)

lemma fold_ddel: "foldl (\<lambda>d k. ddel k d) d ks = filter (\<lambda>p. fst p \<notin> set ks) d"
proof (induction ks arbitrary: d)
  case (Cons k ks)
  have "ddel k d = filter (\<lambda>p. fst p \<noteq> k) d"
    by (auto simp: AList.delete_eq intro!: filter_cong)
  then show ?case by (simp add: Cons.IH)
qed simp

lemma dget_fold_ddel:
  "dget (foldl (\<lambda>d k. ddel k d) d ks) k = (if k \<in> set ks then None else dget d k)"
  by (induction ks arbitrary: d) auto

lemma emit_all_sessions:
  "distinct (map fst xs) \<Longrightarrow> \<forall>x\<in>set xs. dget (l_streams l) (fst x) \<noteq> None \<Longrightarrow>
   fst (emit_all xs l) = map (\<lambda>(k, st, r). live_session st r (dget_or (l_refs l) k [])) xs"
proof (induction xs arbitrary: l)
  case Nil
  then show ?case by simp
next
  case (Cons x xs)
  obtain k st r where x: "x = (k, st, r)" by (cases x)
  let ?l = "snd (emit_one k st r l)"
  have "dget_or (l_refs ?l) j [] = dget_or (l_refs l) j []" if "j \<noteq> k" for j
    using that by (simp add: emit_one_streams dget_or_def)
  moreover have "fst y \<noteq> k" if "y \<in> set xs" for y
    using that Cons.prems(1) x by auto
  ultimately have "map (\<lambda>(k, st, r). live_session st r (dget_or (l_refs ?l) k [])) xs =
      map (\<lambda>(k, st, r). live_session st r (dget_or (l_refs l) k [])) xs"
    by (intro map_cong) (auto simp: split_beta)
  moreover have "\<forall>y\<in>set xs. dget (l_streams ?l) (fst y) \<noteq> None"
    using Cons.prems x by (auto simp: emit_one_streams rev_image_eqI)
  ultimately have "fst (emit_all xs ?l) = map (\<lambda>(k, st, r). live_session st r (dget_or (l_refs l) k [])) xs"
    using Cons.IH [of ?l] Cons.prems(1) by simp
  moreover have "fst (emit_one k st r l) = live_session st r (dget_or (l_refs l) k [])"
    using Cons.prems(2) x by (auto simp: emit_one_def Let_def split: option.split)
  ultimately show ?case
    by (simp add: emit_all_Cons x Let_def split_beta)
qed

section \<open>What a sweep leaves behind\<close>

lemma to_close_keys:
  "dict_ok d \<Longrightarrow> set (map fst (List.map_filter (\<lambda>(key, st). map_option (Pair key) (v st)) d)) =
     {k. \<exists>st. dget d k = Some st \<and> v st \<noteq> None}"
  by (force simp: dict_ok_def map_filter_def)

lemma to_close_distinct:
  "dict_ok d \<Longrightarrow> distinct (map fst (List.map_filter (\<lambda>(key, st). map_option (Pair key) (v st)) d))"
proof (induction d)
  case Nil
  then show ?case by (simp add: map_filter_def)
next
  case (Cons x d)
  then have d: "dict_ok d" "fst x \<notin> fst ` set d" by (simp_all add: dict_ok_def)
  have "fst ` set (List.map_filter (\<lambda>(key, st). map_option (Pair key) (v st)) d) \<subseteq> fst ` set d"
    by (force simp: map_filter_def)
  with Cons.IH [OF d(1)] d(2) show ?case
    by (cases x; cases "v (snd x)") (auto simp: map_filter_simps)
qed

definition swept :: "time \<Rightarrow> live \<Rightarrow> streams" where
  \<comment> \<open>the streams the first loop leaves open\<close>
  "swept now l = filter (\<lambda>(k, st). verdict now l st = None) (l_streams l)"

lemma emit_all_to_close:
  assumes "live_ok l"
  shows "l_streams (snd (emit_all (to_close now l) l)) = swept now l"
proof -
  have d: "dict_ok (l_streams l)" using assms by (simp add: live_ok_def)
  have "(fst p \<notin> {k. \<exists>st. dget (l_streams l) k = Some st \<and> verdict now l st \<noteq> None}) =
      (case p of (k, st) \<Rightarrow> verdict now l st = None)" if "p \<in> set (l_streams l)" for p
  proof -
    have "dget (l_streams l) (fst p) = Some (snd p)"
      using that d by (simp add: dict_ok_def)
    then show ?thesis by (cases "verdict now l (snd p)") (simp_all add: split_beta)
  qed
  then have "filter (\<lambda>p. fst p \<notin> set (map fst (to_close now l))) (l_streams l) = swept now l"
    unfolding swept_def to_close_def to_close_keys [OF d] by (intro filter_cong) auto
  then show ?thesis by (simp only: emit_all_streams fold_ddel)
qed

lemma evict_all_streams:
  "l_streams (snd (evict_all ks l)) = foldl (\<lambda>d k. ddel k d) (l_streams l) ks"
proof (induction ks arbitrary: l)
  case Nil
  then show ?case by simp
next
  case (Cons k ks)
  show ?case
  proof (cases "dget (l_streams l) k")
    case None
    then have "ddel k (l_streams l) = l_streams l"
      by (simp add: map_of_eq_None_iff delete_id)
    with None show ?thesis by (simp add: Cons.IH Let_def)
  next
    case (Some st)
    then show ?thesis
      by (simp add: Cons.IH Let_def split_beta emit_one_streams split: option.split)
  qed
qed

lemma live_ok_evict_all: "live_ok l \<Longrightarrow> live_ok (snd (evict_all ks l))"
proof (induction ks arbitrary: l)
  case (Cons k ks)
  then have "live_ok (l\<lparr>l_stats := n\<rparr>)" for n by (simp add: live_ok_def)
  then show ?case
    by (cases "dget (l_streams l) k")
      (auto simp: Let_def split_beta Cons.IH live_ok_emit_one split: option.split)
qed simp

lemma swept_incomplete: "(k, st) \<in> set (swept now l) \<Longrightarrow> \<not> st_complete st"
  by (auto simp: swept_def verdict_def split: if_splits)

definition after_close :: "time \<Rightarrow> live \<Rightarrow> live" where
  "after_close now l = snd (emit_all (to_close now l) l)"

lemma overflow_swept:
  assumes "l_streams m = swept now l"
  shows "overflow m = take (length (swept now l) - l_max_sessions m)
    (map fst (sort_key (\<lambda>(k, st). st_first_ts st) (swept now l)))"
proof -
  have "filter (\<lambda>(k, st). \<not> st_complete st) (swept now l) = swept now l"
    using swept_incomplete by (auto simp: filter_id_conv)
  then show ?thesis by (simp add: overflow_def assms Let_def)
qed

definition survivors :: "time \<Rightarrow> live \<Rightarrow> streams" where
  "survivors now l = filter (\<lambda>p. fst p \<notin> set (take (length (swept now l) - l_max_sessions l)
     (map fst (sort_key (\<lambda>(k, st). st_first_ts st) (swept now l))))) (swept now l)"

lemma sweep_streams:
  assumes "live_ok l"
  shows "l_streams (snd (sweep now l)) = survivors now l"
  using assms emit_all_streams [of "to_close now l" l]
  by (simp add: sweep_def Let_def split_beta note_active_def evict_all_streams fold_ddel
      overflow_swept [OF emit_all_to_close] emit_all_to_close survivors_def)

lemma live_ok_sweep: "live_ok l \<Longrightarrow> live_ok (snd (sweep now l))"
  using live_ok_evict_all [OF live_ok_emit_all [of l "to_close now l"]]
  by (simp add: sweep_def Let_def split_beta note_active_def live_ok_def)

lemma length_filter_notin:
  assumes "distinct (map fst d)" and "set ks \<subseteq> fst ` set d" and "distinct ks"
  shows "length (filter (\<lambda>p. fst p \<notin> set ks) d) = length d - length ks"
proof -
  have "length (filter (\<lambda>p. fst p \<in> set ks) d) = card (set ks)"
  proof -
    have "distinct (map fst (filter (\<lambda>p. fst p \<in> set ks) d))"
      using assms(1) by (simp add: distinct_map_filter)
    then have "length (filter (\<lambda>p. fst p \<in> set ks) d) = card (fst ` set (filter (\<lambda>p. fst p \<in> set ks) d))"
      by (metis distinct_card length_map list.set_map)
    also have "fst ` set (filter (\<lambda>p. fst p \<in> set ks) d) = set ks"
      using assms(2) by auto
    finally show ?thesis .
  qed
  then show ?thesis
    using sum_length_filter_compl [of "\<lambda>p. fst p \<in> set ks" d] distinct_card [OF assms(3)] by simp
qed

lemma length_survivors:
  assumes "dict_ok (l_streams l)"
  shows "length (survivors now l) = min (length (swept now l)) (l_max_sessions l)"
proof -
  let ?s = "sort_key (\<lambda>(k, st). st_first_ts st) (swept now l)"
  let ?ks = "take (length (swept now l) - l_max_sessions l) (map fst ?s)"
  have d: "distinct (map fst (swept now l))"
    using assms by (simp add: swept_def dict_ok_def distinct_map_filter)
  have "distinct (map fst ?s)"
    using d by (metis distinct_map distinct_sort set_sort)
  then have "distinct ?ks" by (rule distinct_take)
  moreover have "set ?ks \<subseteq> fst ` set (swept now l)"
    using set_take_subset [of _ "map fst ?s"] by fastforce
  ultimately show ?thesis
    unfolding survivors_def using length_filter_notin [OF d] by simp
qed



text \<open>Closing streams loses no session and no evidence: for the streams a sweep closes, in their
  order, the result lists exactly the session of each stream (or \<open>None\<close> when its protocol is unknown),
  with its close reason, all raw references collected for it and its byte count.\<close>
theorem sweep_emits_closed_streams:
  assumes "live_ok l"
  shows "take (length (to_close now l)) (fst (sweep now l)) =
    map (\<lambda>(k, st, r). live_session st r (dget_or (l_refs l) k [])) (to_close now l)"
proof -
  have d: "dict_ok (l_streams l)" using assms by (simp add: live_ok_def)
  have "\<forall>x\<in>set (to_close now l). dget (l_streams l) (fst x) \<noteq> None"
  proof
    fix x assume "x \<in> set (to_close now l)"
    then have "fst x \<in> set (map fst (to_close now l))" by simp
    then show "dget (l_streams l) (fst x) \<noteq> None"
      unfolding to_close_def to_close_keys [OF d] by auto
  qed
  then have "fst (emit_all (to_close now l) l) =
      map (\<lambda>(k, st, r). live_session st r (dget_or (l_refs l) k [])) (to_close now l)"
    using to_close_distinct [OF d] unfolding to_close_def by (intro emit_all_sessions)
  then show ?thesis
    by (simp add: sweep_def Let_def split_beta)
qed

definition one_stream :: live where
  "one_stream = feed_packet \<lparr>p_ts = 1, p_src = ''a'', p_dst = ''b'', p_sport = 9, p_dport = 25, p_seq = 5,
     p_ack = 0, p_flags = 4, p_payload = [1]\<rparr> (Some (''f'', 0, 1)) (new_live 60 1 100)"

theorem sweep_emits_closed_streams_witness:
  "take (length (to_close 2 one_stream)) (fst (sweep 2 one_stream)) =
    map (\<lambda>(k, st, r). live_session st r (dget_or (l_refs one_stream) k [])) (to_close 2 one_stream)"
  by (rule sweep_emits_closed_streams) (simp add: one_stream_def live_ok_feed live_ok_new)

section \<open>A stream that never goes idle\<close>

lemma silent_stream_never_idle:
  assumes "hs_last_ts (ha st) = 0" and "hs_last_ts (hb st) = 0" and "\<not> st_complete st"
    and "hs_buf (ha st) = []" and "hs_buf (hb st) = []"
  shows "verdict now l st = None"
  using assms by (simp add: verdict_def last_activity_def buffered_def)

end
