(* ===== verification/Disk_Queue.thy ===== *)
theory Disk_Queue
  imports Interfaces
begin

text \<open>
  The sensor's on-disk queue (src/backend/app/agent/queue.py) and the loop that ships from it
  (src/backend/app/agent/agent.py, \<open>_ship_loop\<close>). The two files are part of the state: the entry file as
  bytes (\<open>None\<close> when it does not exist) and the number in the offset file; \<open>q_offset\<close> is the object's
  in-memory copy. Rendering and reading one JSON line are the parameters \<open>dumps\<close> and \<open>loads\<close>.
\<close>

section \<open>State\<close>

record dqueue =
  q_file :: "bytes option"
  q_off_file :: nat
  q_offset :: nat
  q_max_bytes :: nat
  q_dropped :: nat

definition reopen :: "bytes option \<Rightarrow> nat \<Rightarrow> nat \<Rightarrow> dqueue" where
  \<comment> \<open>a new \<open>DiskQueue\<close> object on the files a previous process left\<close>
  "reopen file off maxb = \<lparr>q_file = file, q_off_file = off, q_offset = off, q_max_bytes = maxb,
     q_dropped = 0\<rparr>"

definition newline :: byte where
  "newline = 10"

fun readlines :: "bytes \<Rightarrow> bytes list" where
  \<comment> \<open>\<open>f.readlines()\<close> keeps the line ends\<close>
  "readlines [] = []"
| "readlines (b # bs) =
     (if b = newline then [b] # readlines bs
      else (case readlines bs of [] \<Rightarrow> [[b]] | l # ls \<Rightarrow> (b # l) # ls))"

definition file_lines :: "dqueue \<Rightarrow> bytes list" where
  "file_lines q = (case q_file q of None \<Rightarrow> [] | Some bs \<Rightarrow> readlines bs)"

section \<open>Operations\<close>

definition write_offset :: "nat \<Rightarrow> dqueue \<Rightarrow> dqueue" where
  "write_offset n q = q\<lparr>q_off_file := n, q_offset := n\<rparr>"

definition drop_oldest :: "dqueue \<Rightarrow> dqueue" where
  "drop_oldest q =
     (case q_file q of
        None \<Rightarrow> q
      | Some bs \<Rightarrow>
          (let lines = readlines bs;
               drop_n = max 1 (length lines div 10);
               q = q\<lparr>q_dropped := q_dropped q + drop_n, q_file := Some (concat (drop drop_n lines))\<rparr>
           in write_offset 0 q))"

definition append_item :: "('a \<Rightarrow> bytes) \<Rightarrow> 'a \<Rightarrow> dqueue \<Rightarrow> dqueue" where
  "append_item dumps item q =
     (let bs = (case q_file q of None \<Rightarrow> [] | Some bs \<Rightarrow> bs) @ dumps item @ [newline];
          q = q\<lparr>q_file := Some bs\<rparr>
      in if q_max_bytes q < length bs then drop_oldest q else q)"

definition read_batch :: "(bytes \<Rightarrow> 'a option) \<Rightarrow> nat \<Rightarrow> dqueue \<Rightarrow> nat \<times> 'a list" where
  "read_batch loads limit q =
     (case q_file q of
        None \<Rightarrow> (0, [])
      | Some bs \<Rightarrow>
          (let lines = readlines bs; start = min (q_offset q) (length lines)
           in (start, List.map_filter loads (py_slice lines start (start + limit)))))"

definition compact_at :: nat where
  "compact_at = 5000"

definition compact :: "nat \<Rightarrow> dqueue \<Rightarrow> dqueue" where
  \<comment> \<open>the rewrite of the entry file, before the offset file is reset\<close>
  "compact through q =
     (case q_file q of None \<Rightarrow> q | Some bs \<Rightarrow> q\<lparr>q_file := Some (concat (drop through (readlines bs)))\<rparr>)"

definition ack :: "nat \<Rightarrow> dqueue \<Rightarrow> dqueue" where
  "ack through q =
     (let q = write_offset through q
      in if compact_at < through \<and> q_file q \<noteq> None then write_offset 0 (compact through q) else q)"

definition depth :: "dqueue \<Rightarrow> nat" where
  "depth q = length (file_lines q) - q_offset q"

definition ship_once :: "(bytes \<Rightarrow> 'a option) \<Rightarrow> ('a list \<Rightarrow> bool) \<Rightarrow> dqueue \<Rightarrow> 'a list \<times> dqueue" where
  \<comment> \<open>one round of \<open>_ship_loop\<close>: \<open>deliver\<close> tells whether \<open>send_batch\<close> returned\<close>
  "ship_once loads deliver q =
     (let (start, batch) = read_batch loads 100 q
      in if batch = [] then ([], q)
         else if deliver batch then (batch, ack (start + length batch) q) else ([], q))"

section \<open>Lines\<close>

definition is_line :: "bytes \<Rightarrow> bool" where
  "is_line l \<longleftrightarrow> l \<noteq> [] \<and> last l = newline \<and> newline \<notin> set (butlast l)"

lemma readlines_line:
  "newline \<notin> set l \<Longrightarrow> readlines (l @ newline # bs) = (l @ [newline]) # readlines bs"
  by (induction l) auto

lemma readlines_lines: "list_all is_line ls \<Longrightarrow> readlines (concat ls) = ls"
proof (induction ls)
  case Nil
  then show ?case by simp
next
  case (Cons l ls)
  then have "l = butlast l @ [newline]" "newline \<notin> set (butlast l)"
    by (simp_all add: is_line_def) (metis append_butlast_last_id)
  then have "readlines (concat (l # ls)) = (butlast l @ [newline]) # readlines (concat ls)"
    using readlines_line [of "butlast l" "concat ls"] by (metis append_Cons append_Nil append_assoc concat.simps(2))
  with Cons \<open>l = _\<close> show ?case by simp
qed

section \<open>The queue as a buffer\<close>

definition whole :: "(bytes \<Rightarrow> 'a option) \<Rightarrow> dqueue \<Rightarrow> bool" where
  \<comment> \<open>every line is complete and readable, and the offset lies in the file\<close>
  "whole loads q \<longleftrightarrow> q_off_file q = q_offset q \<and>
     (\<exists>ls. q_file q = Some (concat ls) \<and> list_all is_line ls \<and> list_all (\<lambda>l. loads l \<noteq> None) ls \<and>
           q_offset q \<le> length ls)"

definition waiting :: "(bytes \<Rightarrow> 'a option) \<Rightarrow> dqueue \<Rightarrow> 'a list" where
  "waiting loads q = map (the \<circ> loads) (drop (q_offset q) (file_lines q))"

definition fits :: "('a \<Rightarrow> bytes) \<Rightarrow> (bytes \<Rightarrow> 'a option) \<Rightarrow> 'a \<Rightarrow> dqueue \<Rightarrow> bool" where
  \<comment> \<open>the item is rendered on one line that reads back, and the file stays within its bound\<close>
  "fits dumps loads x q \<longleftrightarrow> newline \<notin> set (dumps x) \<and> loads (dumps x @ [newline]) = Some x \<and>
     length (the (q_file q)) + length (dumps x) < q_max_bytes q"

definition take_batch :: "(bytes \<Rightarrow> 'a option) \<Rightarrow> nat \<Rightarrow> dqueue \<Rightarrow> 'a list" where
  "take_batch loads n q = snd (read_batch loads n q)"

definition ack_batch :: "nat \<Rightarrow> dqueue \<Rightarrow> dqueue" where
  \<comment> \<open>\<open>ack(start + len(batch))\<close> with the start \<open>read_batch\<close> reports\<close>
  "ack_batch n q = ack (min (q_offset q) (length (file_lines q)) + n) q"

lemma wholeE:
  assumes "whole loads q"
  obtains ls where "q_file q = Some (concat ls)" "file_lines q = ls" "list_all is_line ls"
    "list_all (\<lambda>l. loads l \<noteq> None) ls" "q_offset q \<le> length ls" "q_off_file q = q_offset q"
  using assms by (auto simp: whole_def file_lines_def readlines_lines)

lemma wholeI:
  assumes "q_file q = Some (concat ls)" "list_all is_line ls" "list_all (\<lambda>l. loads l \<noteq> None) ls"
    "q_offset q \<le> length ls" "q_off_file q = q_offset q"
  shows "whole loads q \<and> file_lines q = ls"
  using assms by (auto simp: whole_def file_lines_def readlines_lines)

lemma map_filter_total: "list_all (\<lambda>l. f l \<noteq> None) ls \<Longrightarrow> List.map_filter f ls = map (the \<circ> f) ls"
  by (induction ls) (auto simp: map_filter_simps)

lemma append_whole:
  assumes "whole loads q" and "fits dumps loads x q"
  shows "whole loads (append_item dumps x q)"
    and "waiting loads (append_item dumps x q) = waiting loads q @ [x]"
proof -
  from assms(1) obtain ls where ls: "q_file q = Some (concat ls)" "file_lines q = ls"
    "list_all is_line ls" "list_all (\<lambda>l. loads l \<noteq> None) ls" "q_offset q \<le> length ls"
    "q_off_file q = q_offset q" by (rule wholeE)
  let ?l = "dumps x @ [newline]"
  let ?q = "append_item dumps x q"
  have q: "?q = q\<lparr>q_file := Some (concat (ls @ [?l]))\<rparr>"
    using assms(2) ls(1) by (simp add: append_item_def fits_def Let_def)
  have w: "whole loads ?q \<and> file_lines ?q = ls @ [?l]"
    using ls assms(2) by (intro wholeI) (auto simp: q is_line_def fits_def)
  then show "whole loads ?q" by simp
  show "waiting loads ?q = waiting loads q @ [x]"
    using w ls assms(2) by (simp add: waiting_def q fits_def)
qed

lemma read_whole:
  assumes "whole loads q"
  shows "take_batch loads n q = take n (waiting loads q)"
    and "fst (read_batch loads n q) = q_offset q"
proof -
  from assms obtain ls where ls: "q_file q = Some (concat ls)" "file_lines q = ls"
    "list_all is_line ls" "list_all (\<lambda>l. loads l \<noteq> None) ls" "q_offset q \<le> length ls"
    "q_off_file q = q_offset q" by (rule wholeE)
  have "list_all (\<lambda>l. loads l \<noteq> None) (take n (drop (q_offset q) ls))"
    using ls(4) by (auto simp: list_all_iff dest: in_set_takeD in_set_dropD)
  then show "take_batch loads n q = take n (waiting loads q)" "fst (read_batch loads n q) = q_offset q"
    using ls by (simp_all add: take_batch_def read_batch_def readlines_lines Let_def py_slice_def
        map_filter_total waiting_def take_map)
qed

lemma ack_whole:
  assumes "whole loads q" and "n \<le> length (waiting loads q)"
  shows "whole loads (ack_batch n q)" and "waiting loads (ack_batch n q) = drop n (waiting loads q)"
proof -
  from assms(1) obtain ls where ls: "q_file q = Some (concat ls)" "file_lines q = ls"
    "list_all is_line ls" "list_all (\<lambda>l. loads l \<noteq> None) ls" "q_offset q \<le> length ls"
    "q_off_file q = q_offset q" by (rule wholeE)
  let ?t = "q_offset q + n"
  have t: "?t \<le> length ls" using assms(2) ls by (simp add: waiting_def)
  have r: "readlines (concat ls) = ls" using ls(3) by (rule readlines_lines)
  have "whole loads (ack_batch n q) \<and>
      file_lines (ack_batch n q) = (if compact_at < ?t then drop ?t ls else ls)"
    using ls t r
    by (intro wholeI) (auto simp: ack_batch_def ack_def Let_def write_offset_def compact_def
        list_all_iff min_absorb1 dest: in_set_dropD)
  moreover have "q_offset (ack_batch n q) = (if compact_at < ?t then 0 else ?t)"
    using ls by (simp add: ack_batch_def ack_def Let_def write_offset_def min_absorb1)
  ultimately show "whole loads (ack_batch n q)"
    "waiting loads (ack_batch n q) = drop n (waiting loads q)"
    using ls by (simp_all add: waiting_def drop_map add.commute)
qed

interpretation dq: fifo "waiting loads" "append_item dumps" "take_batch loads" ack_batch "whole loads"
  "fits dumps loads" for dumps loads
  by unfold_locales (simp_all add: append_whole read_whole ack_whole)

section \<open>Properties\<close>

definition restart :: "dqueue \<Rightarrow> dqueue" where
  \<comment> \<open>the process dies and a new object is built on the files\<close>
  "restart q = reopen (q_file q) (q_off_file q) (q_max_bytes q)"

lemma restart_whole: "whole loads q \<Longrightarrow> whole loads (restart q) \<and> waiting loads (restart q) = waiting loads q"
  by (auto simp: whole_def restart_def reopen_def waiting_def file_lines_def)


definition tiny_queue :: dqueue where
  "tiny_queue = reopen (Some [7, newline]) 0 100"

lemma tiny_whole: "whole (\<lambda>l. Some l) tiny_queue"
  unfolding whole_def
  by (intro conjI exI [of _ "[[7, newline]]"]) (simp_all add: tiny_queue_def reopen_def is_line_def newline_def)


text \<open>Shipping is at-least-once across outages and restarts: whether or not the server accepts the
  batch, and even if the process dies right after the round, the entries accepted so far followed by those
  a restarted queue would send are exactly the entries that were waiting.\<close>
theorem ship_survives_restart:
  assumes "whole loads q"
  shows "whole loads (snd (ship_once loads deliver q)) \<and>
    fst (ship_once loads deliver q) @ waiting loads (restart (snd (ship_once loads deliver q)))
      = waiting loads q"
proof -
  let ?b = "take_batch loads 100 q"
  have b: "?b = take 100 (waiting loads q)" "fst (read_batch loads 100 q) = q_offset q"
    using read_whole [OF assms] by simp_all
  have len: "length ?b \<le> length (waiting loads q)" by (simp add: b)
  have "q_offset q \<le> length (file_lines q)" using assms by (rule wholeE) auto
  then have "ack (fst (read_batch loads 100 q) + length ?b) q = ack_batch (length ?b) q"
    by (simp add: ack_batch_def b(2) min_absorb1)
  then have ship: "ship_once loads deliver q =
      (if ?b = [] then ([], q) else if deliver ?b then (?b, ack_batch (length ?b) q) else ([], q))"
    by (simp add: ship_once_def take_batch_def split_beta)
  have "?b @ waiting loads (ack_batch (length ?b) q) = waiting loads q"
    using ack_whole(2) [OF assms len] by (simp add: b min_def)
  then show ?thesis
    using assms ack_whole(1) [OF assms len] restart_whole [of loads] by (simp add: ship)
qed

theorem ship_survives_restart_witness:
  "whole Some (snd (ship_once Some (\<lambda>_. True) tiny_queue)) \<and>
   fst (ship_once Some (\<lambda>_. True) tiny_queue) @
     waiting Some (restart (snd (ship_once Some (\<lambda>_. True) tiny_queue))) = waiting Some tiny_queue"
  by (rule ship_survives_restart) (rule tiny_whole)

section \<open>Where the queue does lose or stall\<close>

lemma compaction_crash_skips:
  assumes "whole loads q"
  shows "waiting loads (restart (compact t (write_offset t q))) =
    map (the \<circ> loads) (drop t (drop t (file_lines q)))"
proof -
  from assms obtain ls where ls: "q_file q = Some (concat ls)" "file_lines q = ls"
    "list_all is_line ls" "list_all (\<lambda>l. loads l \<noteq> None) ls" "q_offset q \<le> length ls"
    "q_off_file q = q_offset q" by (rule wholeE)
  have "list_all is_line (drop t ls)" using ls(3) by (auto simp: list_all_iff dest: in_set_dropD)
  then have "readlines (concat (drop t ls)) = drop t ls" by (rule readlines_lines)
  then show ?thesis
    using ls by (simp add: restart_def reopen_def compact_def write_offset_def waiting_def
        file_lines_def readlines_lines)
qed

lemma unreadable_batch_stalls:
  assumes "snd (read_batch loads 100 q) = []"
  shows "ship_once loads deliver q = ([], q)"
  using assms by (simp add: ship_once_def split_beta)

lemma overflow_between_read_and_ack_loses:
  "let q = reopen (Some [1, 10, 2, 10]) 0 4;
       (start, batch) = read_batch Some 1 q;
       q = append_item butlast [3, 10] q
   in batch = [[1, 10]] \<and> waiting Some (ack (start + length batch) q) = [[3, 10]]"
  by (simp add: reopen_def read_batch_def append_item_def drop_oldest_def ack_def write_offset_def
      waiting_def file_lines_def newline_def py_slice_def compact_at_def map_filter_simps Let_def)

end
