(* ===== verification/Json_Text.thy ===== *)
theory Json_Text
  imports Auth Digest
begin

text \<open>
  The canonical JSON text of a flat object, \<open>json.dumps(d, sort_keys=True, separators=(",", ":"))\<close>: members
  sorted by key, texts escaped to ASCII. Its lemmas show that the text determines the members. Texts
  hold code points below 256.
\<close>

definition esc_char :: "char \<Rightarrow> string" where
  "esc_char c =
     (let n = (of_char c :: nat); b = CHR 0x5C
      in if n = 34 \<or> n = 92 then [b, c]
         else if n = 8 then [b, CHR ''b'']
         else if n = 12 then [b, CHR ''f'']
         else if n = 10 then [b, CHR ''n'']
         else if n = 13 then [b, CHR ''r'']
         else if n = 9 then [b, CHR ''t'']
         else if 32 \<le> n \<and> n \<le> 126 then [c]
         else b # CHR ''u'' # hex4 n)"

definition json_str :: "string \<Rightarrow> string" where
  "json_str s = CHR 0x22 # concat (map esc_char s) @ [CHR 0x22]"

fun json_val :: "jval \<Rightarrow> string" where
  "json_val JNull = ''null''"
| "json_val (JBool b) = (if b then ''true'' else ''false'')"
| "json_val (JInt i) = dec_int i"
| "json_val (JStr s) = json_str s"

fun insort_member :: "string \<times> jval \<Rightarrow> claims \<Rightarrow> claims" where
  "insort_member x [] = [x]"
| "insort_member x (y # ys) = (if text_less (fst y) (fst x) then y # insort_member x ys else x # y # ys)"

definition json_member :: "string \<times> jval \<Rightarrow> string" where
  "json_member = (\<lambda>(k, v). json_str k @ '':'' @ json_val v)"

definition json_obj :: "claims \<Rightarrow> string" where
  "json_obj d = ''{'' @ join '','' (map json_member (foldr insort_member d [])) @ ''}''"

section \<open>The text determines the object\<close>

definition code_len :: "string \<Rightarrow> nat" where
  "code_len s = (if hd s \<noteq> CHR 0x5C then 1 else if s ! 1 \<noteq> CHR ''u'' then 2 else 6)"

definition unesc :: "string \<Rightarrow> nat" where
  "unesc e =
     (if length e = 1 then of_char (hd e)
      else if length e = 2 then
        (let c = e ! 1
         in if c = CHR ''b'' then 8 else if c = CHR ''f'' then 12 else if c = CHR ''n'' then 10
            else if c = CHR ''r'' then 13 else if c = CHR ''t'' then 9 else of_char c)
      else 16 * the (hex_value (e ! 4)) + the (hex_value (e ! 5)))"

lemma hex4_byte:
  assumes "n < 256"
  shows "hex4 n = [CHR ''0'', CHR ''0'', hex_digit (n div 16), hex_digit (n mod 16)]"
proof -
  have z: "hex_digit 0 = CHR ''0''" by (simp add: hex_digit_def)
  have d: "n div 16 < 16" using assms by (rule less_mult_imp_div_less [of n 16 16, simplified])
  have "hex_of n = (if n < 16 then [hex_digit n] else [hex_digit (n div 16), hex_digit (n mod 16)])"
  proof (cases "n < 16")
    case True
    then show ?thesis by (simp add: hex_of.simps [of n])
  next
    case False
    then have a: "hex_of n = hex_of (n div 16) @ [hex_digit (n mod 16)]" by (subst hex_of.simps) (rule if_not_P)
    have b: "hex_of (n div 16) = [hex_digit (n div 16)]" by (subst hex_of.simps) (rule if_P [OF d])
    have "hex_of n = [hex_digit (n div 16), hex_digit (n mod 16)]" using a unfolding b append.simps .
    then show ?thesis unfolding if_not_P [OF False] .
  qed
  moreover have "replicate 3 c = [c, c, c]" "replicate 2 c = [c, c]" for c :: char
    by (simp_all add: numeral_3_eq_3 numeral_2_eq_2)
  ultimately show ?thesis by (simp add: hex4_def pad0_def z)
qed

lemma code_chars: "char_of (34 :: nat) = CHR 0x22" "char_of (92 :: nat) = CHR 0x5C"
  by (code_simp, code_simp)

lemma of_char_lt [simp]: "of_char c < (256 :: nat)"
  using of_char_mod_256 [of c] by (metis mod_less_divisor zero_less_numeral)

lemma esc_char_ok:
  "esc_char c \<noteq> [] \<and> hd (esc_char c) \<noteq> CHR 0x22 \<and> code_len (esc_char c) = length (esc_char c) \<and>
   unesc (esc_char c) = of_char c \<and> (length (esc_char c) = 1 \<longrightarrow> hd (esc_char c) \<noteq> CHR 0x5C)"
proof -
  define n where "n = (of_char c :: nat)"
  have c: "c = char_of n" by (simp add: n_def)
  have n: "n < 256" by (simp add: n_def)
  have hx: "hex_value (hex_digit (n div 16)) = Some (n div 16)" "hex_value (hex_digit (n mod 16)) = Some (n mod 16)"
    using n by (simp_all add: hex_digit_back less_mult_imp_div_less)
  consider "n = 34" | "n = 92" | "n = 8" | "n = 12" | "n = 10" | "n = 13" | "n = 9"
    | "32 \<le> n" "n \<le> 126" "n \<noteq> 34" "n \<noteq> 92"
    | "n < 32 \<or> 126 < n" "n \<notin> {34, 92, 8, 12, 10, 13, 9}"
    by fastforce
  then show ?thesis
  proof cases
    case 8
    then have "esc_char c = [c]" by (simp add: esc_char_def Let_def n_def [symmetric])
    moreover have "c \<noteq> CHR 0x5C" "c \<noteq> CHR 0x22" using 8 by (auto simp: n_def)
    ultimately show ?thesis by (simp add: code_len_def unesc_def)
  next
    case 9
    then have "esc_char c = CHR 0x5C # CHR ''u'' # hex4 n"
      by (auto simp: esc_char_def Let_def n_def [symmetric])
    then show ?thesis by (simp add: code_len_def unesc_def hex4_byte n hx n_def [symmetric])
  qed (simp_all add: esc_char_def Let_def n_def [symmetric] code_len_def unesc_def c code_chars)
qed

lemma esc_char_prefix:
  assumes "esc_char c @ x = esc_char d @ y"
  shows "c = d \<and> x = y"
proof -
  note c = esc_char_ok [of c] and d = esc_char_ok [of d]
  have len: "code_len (esc_char e @ z) = length (esc_char e)" for e z
  proof (cases "esc_char e")
    case Nil
    then show ?thesis using esc_char_ok [of e] by simp
  next
    case (Cons a r)
    then show ?thesis using esc_char_ok [of e] by (cases r) (auto simp: code_len_def split: if_splits)
  qed
  have "length (esc_char c) = length (esc_char d)"
    using len [of c x] len [of d y] assms by simp
  with assms have e: "esc_char c = esc_char d" "x = y" by simp_all
  then have "(of_char c :: nat) = of_char d" using c d by metis
  then have "c = d" by (metis char_of_char)
  with e show ?thesis by simp
qed

lemma esc_text_prefix:
  assumes "concat (map esc_char s) @ CHR 0x22 # x = concat (map esc_char t) @ CHR 0x22 # y"
  shows "s = t \<and> x = y"
  using assms
proof (induction s arbitrary: t)
  case Nil
  show ?case
  proof (cases t)
    case (Cons d t')
    with Nil esc_char_ok [of d] show ?thesis by (cases "esc_char d") auto
  qed (use Nil in simp)
next
  case (Cons c s)
  note prems = Cons.prems and hyp = Cons.IH
  show ?case
  proof (cases t)
    case Nil
    with prems esc_char_ok [of c] show ?thesis by (cases "esc_char c") auto
  next
    case (Cons d t')
    from prems have "esc_char c @ (concat (map esc_char s) @ CHR 0x22 # x) = esc_char d @ (concat (map esc_char t') @ CHR 0x22 # y)"
      by (simp add: Cons)
    from esc_char_prefix [OF this] hyp [of t'] show ?thesis by (simp add: Cons)
  qed
qed

lemma json_str_prefix: "json_str s @ x = json_str t @ y \<Longrightarrow> s = t \<and> x = y"
  using esc_text_prefix [of s x t y] by (simp add: json_str_def)

definition num_char :: "char \<Rightarrow> bool" where
  "num_char c \<longleftrightarrow> is_digit c \<or> c = CHR ''-''"

definition stops :: "string \<Rightarrow> bool" where
  "stops x \<longleftrightarrow> x \<noteq> [] \<and> hd x \<in> {CHR '','', CHR ''}''}"

lemma dec_int_chars: "list_all num_char (dec_int i)" "dec_int i \<noteq> []"
  using dec_of_digits by (auto simp: dec_int_def num_char_def list_all_iff)

lemma dec_of_inj: "dec_of m = dec_of n \<Longrightarrow> m = n"
  using py_int_dec_of by (metis of_nat_eq_iff option.inject)

lemma dec_of_no_minus: "dec_of n \<noteq> CHR ''-'' # s"
  using dec_of_digits [of n] by (auto simp: is_digit_def Let_def)

lemma dec_int_inj: "dec_int i = dec_int j \<Longrightarrow> i = j"
  using dec_of_no_minus dec_of_no_minus [symmetric] dec_of_inj
  by (auto simp: dec_int_def split: if_splits dest!: dec_of_inj)

lemma stops_not_num: "stops x \<Longrightarrow> takeWhile num_char x = []"
  by (cases x) (auto simp: stops_def num_char_def is_digit_def)

lemma dec_int_prefix:
  assumes "dec_int i @ x = dec_int j @ y" "stops x" "stops y"
  shows "i = j \<and> x = y"
proof -
  have t: "takeWhile num_char (dec_int k @ z) = dec_int k" if "stops z" for k z
    using dec_int_chars that by (simp add: takeWhile_append2 list_all_iff stops_not_num)
  have "dec_int i = dec_int j" using t assms by metis
  with assms(1) show ?thesis using dec_int_inj by auto
qed

definition lead :: "jval \<Rightarrow> char \<Rightarrow> bool" where
  "lead v c \<longleftrightarrow>
     (case v of JNull \<Rightarrow> c = CHR ''n'' | JBool b \<Rightarrow> c = (if b then CHR ''t'' else CHR ''f'')
      | JInt i \<Rightarrow> num_char c | JStr s \<Rightarrow> c = CHR 0x22)"

lemma json_val_lead: "lead v (hd (json_val v @ x)) \<and> json_val v \<noteq> []"
proof (cases v)
  case (JInt i)
  then show ?thesis using dec_int_chars [of i] by (cases "dec_int i") (auto simp: lead_def)
qed (simp_all add: lead_def json_str_def)

lemma lead_same:
  "lead v c \<Longrightarrow> lead w c \<Longrightarrow> v = JNull \<and> w = JNull \<or> (\<exists>b. v = JBool b \<and> w = JBool b) \<or>
     (\<exists>i j. v = JInt i \<and> w = JInt j) \<or> (\<exists>s t. v = JStr s \<and> w = JStr t)"
  by (cases v; cases w) (auto simp: lead_def num_char_def is_digit_def split: if_splits)

lemma json_val_prefix:
  assumes "json_val v @ x = json_val w @ y" "stops x" "stops y"
  shows "v = w \<and> x = y"
proof -
  have "lead v (hd (json_val v @ x))" "lead w (hd (json_val v @ x))"
    using json_val_lead assms(1) by metis+
  from lead_same [OF this] show ?thesis
  proof (elim disjE exE conjE)
    fix i j
    assume "v = JInt i" "w = JInt j"
    with dec_int_prefix [of i x j y] assms show ?thesis by simp
  next
    fix s t
    assume "v = JStr s" "w = JStr t"
    with json_str_prefix [of s x t y] assms(1) show ?thesis by simp
  qed (use assms(1) in simp_all)
qed

lemma json_member_prefix:
  assumes "json_member a @ x = json_member b @ y" "stops x" "stops y"
  shows "a = b \<and> x = y"
proof -
  obtain k v where a: "a = (k, v)" by (cases a)
  obtain l w where b: "b = (l, w)" by (cases b)
  have "json_str k @ '':'' @ json_val v @ x = json_str l @ '':'' @ json_val w @ y"
    using assms(1) by (simp add: a b json_member_def)
  from json_str_prefix [OF this] have "k = l" "json_val v @ x = json_val w @ y" by simp_all
  with json_val_prefix assms(2,3) show ?thesis by (simp add: a b)
qed

lemma json_member_head: "\<exists>s. json_member a = CHR 0x22 # s"
  by (cases a) (simp add: json_member_def json_str_def)

lemma join_Cons: "join sep (x # xs) = x @ (if xs = [] then [] else sep @ join sep xs)"
  by (cases xs) simp_all

lemma json_members_inj:
  assumes "join '','' (map json_member xs) @ ''}'' = join '','' (map json_member ys) @ ''}''"
  shows "xs = ys"
  using assms
proof (induction xs arbitrary: ys)
  case Nil
  show ?case
  proof (cases ys)
    case (Cons b bs)
    with Nil json_member_head [of b] show ?thesis by (auto simp: join_Cons)
  qed simp
next
  case (Cons a xs)
  note prems = Cons.prems and hyp = Cons.IH
  show ?case
  proof (cases ys)
    case Nil
    with prems json_member_head [of a] show ?thesis by (auto simp: join_Cons)
  next
    case (Cons b bs)
    let ?r = "\<lambda>zs. (if zs = [] then [] else '','' @ join '','' (map json_member zs)) @ ''}''"
    have e: "json_member a @ ?r xs = json_member b @ ?r bs" using prems by (simp add: Cons join_Cons)
    have "stops (?r zs)" for zs by (simp add: stops_def)
    from json_member_prefix [OF e this this] have ab: "a = b" "?r xs = ?r bs" by simp_all
    show ?thesis
    proof (cases "xs = [] \<or> bs = []")
      case True
      with ab(2) show ?thesis by (auto simp: Cons ab(1) split: if_splits)
    next
      case False
      with ab(2) have "join '','' (map json_member xs) @ ''}'' = join '','' (map json_member bs) @ ''}''" by simp
      from hyp [OF this] show ?thesis by (simp add: Cons ab(1))
    qed
  qed
qed

lemma insort_member_mset [simp]: "mset (insort_member x ys) = add_mset x (mset ys)"
  by (induction ys) simp_all

lemma sort_members_mset [simp]: "mset (foldr insort_member d []) = mset d"
  by (induction d) simp_all

lemma dget_sort_members: "dict_ok d \<Longrightarrow> dget (foldr insort_member d []) = dget d"
proof -
  assume ok: "dict_ok d"
  have m: "mset (foldr insort_member d []) = mset d" by simp
  then have "mset (map fst (foldr insort_member d [])) = mset (map fst d)" by (metis mset_map)
  then have "distinct (map fst (foldr insort_member d []))"
    using ok by (metis dict_ok_def distinct_count_atmost_1 mset_eq_imp_distinct_iff)
  moreover have "set (foldr insort_member d []) = set d" using m by (metis set_mset_mset)
  ultimately show ?thesis using ok unfolding dict_ok_def by (metis map_of_eqI map_of_inject_set)
qed

theorem json_obj_determines:
  assumes "json_obj d = json_obj e" "dict_ok d" "dict_ok e"
  shows "dget d = dget e"
proof -
  have "foldr insort_member d [] = foldr insort_member e []"
    using assms(1) json_members_inj unfolding json_obj_def by simp
  with dget_sort_members [OF assms(2)] dget_sort_members [OF assms(3)] show ?thesis by simp
qed

end
