(* ===== verification/Evidence.thy ===== *)
theory Evidence
  imports Json_Text
begin

text \<open>
  Evidence bundles (src/backend/app/reporting/evidence.py): building the chain of hashed records and
  verifying it. Bodies are flat objects, as the rows of a report are; SHA-256 and the canonical text are
  executable.
\<close>

section \<open>The bundle\<close>

record evidence_record =
  er_seq :: int
  er_type :: string
  er_body :: claims
  er_prev :: string
  er_hash :: string

record evidence_manifest =
  em_record_count :: int
  em_root_hash :: string
  em_observed :: nat
  em_unobservable :: nat
  em_versions :: claims
  em_retention :: claims
  em_suppression_count :: nat

record evidence_bundle =
  bu_manifest :: evidence_manifest
  bu_records :: "evidence_record list"

record report =
  rp_filename :: string
  rp_generated_at :: string
  rp_sessions :: "claims list"
  rp_findings :: "claims list"
  rp_limitations :: "string list"

definition genesis :: string where "genesis = ''GENESIS''"

definition preimage :: "string \<Rightarrow> int \<Rightarrow> string \<Rightarrow> claims \<Rightarrow> string" where
  "preimage prev sq ty body = prev @ dec_int sq @ ty @ json_obj body"

definition record_hash :: "string \<Rightarrow> int \<Rightarrow> string \<Rightarrow> claims \<Rightarrow> string" where
  "record_hash prev sq ty body = sha256_hex (ascii (preimage prev sq ty body))"

fun append_records :: "string \<Rightarrow> int \<Rightarrow> (string \<times> claims) list \<Rightarrow> evidence_record list \<times> string" where
  \<comment> \<open>the calls of \<open>_append\<close>: the records and the last hash\<close>
  "append_records prev sq [] = ([], prev)"
| "append_records prev sq ((ty, body) # es) =
     (let h = record_hash prev sq ty body; (rs, final) = append_records h (sq + 1) es
      in (\<lparr>er_seq = sq, er_type = ty, er_body = body, er_prev = prev, er_hash = h\<rparr> # rs, final))"

definition bundle_entries :: "report \<Rightarrow> claims list \<Rightarrow> (string \<times> claims) list" where
  "bundle_entries rp sups =
     (''report.meta'', [(''filename'', JStr (rp_filename rp)), (''generated_at'', JStr (rp_generated_at rp))])
     # map (Pair ''session'') (rp_sessions rp)
     @ map (Pair ''finding'') (rp_findings rp)
     @ map (\<lambda>l. (''limitation'', [(''note'', JStr l), (''observable'', JBool False)])) (rp_limitations rp)
     @ map (Pair ''suppression'') sups"

definition is_observed :: "claims \<Rightarrow> bool" where
  "is_observed f \<longleftrightarrow> truthy (dget_or f ''observed'' (JBool True))"

definition build_bundle :: "report \<Rightarrow> claims list \<Rightarrow> claims \<Rightarrow> claims \<Rightarrow> evidence_bundle" where
  "build_bundle rp sups retention versions =
     (let (rs, final) = append_records genesis 0 (bundle_entries rp sups)
      in \<lparr>bu_manifest =
            \<lparr>em_record_count = int (length rs), em_root_hash = final,
             em_observed = length (filter is_observed (rp_findings rp)),
             em_unobservable = length (filter (\<lambda>f. \<not> is_observed f) (rp_findings rp)) + length (rp_limitations rp),
             em_versions = versions, em_retention = retention, em_suppression_count = length sups\<rparr>,
          bu_records = rs\<rparr>)"

section \<open>Verifying it\<close>

record verdict =
  vd_ok :: bool
  vd_reason :: "string option"
  vd_checked :: int

fun check_chain :: "string \<Rightarrow> evidence_record list \<Rightarrow> int + string" where
  \<comment> \<open>the number of the first record that does not fit, or the last hash\<close>
  "check_chain prev [] = Inr prev"
| "check_chain prev (r # rs) =
     (if record_hash prev (er_seq r) (er_type r) (er_body r) \<noteq> er_hash r \<or> er_prev r \<noteq> prev then Inl (er_seq r)
      else check_chain (er_hash r) rs)"

definition verify_bundle :: "evidence_bundle \<Rightarrow> verdict" where
  "verify_bundle b =
     (let n = int (length (bu_records b))
      in if em_record_count (bu_manifest b) \<noteq> n
         then \<lparr>vd_ok = False, vd_reason = Some ''count mismatch'', vd_checked = n\<rparr>
         else (case check_chain genesis (bu_records b) of
                 Inl sq \<Rightarrow> \<lparr>vd_ok = False, vd_reason = Some (''tamper at seq '' @ dec_int sq), vd_checked = sq\<rparr>
               | Inr final \<Rightarrow>
                   if em_root_hash (bu_manifest b) \<noteq> final
                   then \<lparr>vd_ok = False, vd_reason = Some ''root mismatch'', vd_checked = n\<rparr>
                   else \<lparr>vd_ok = True, vd_reason = None, vd_checked = n\<rparr>))"

section \<open>What is built verifies\<close>

lemma check_append: "check_chain prev (fst (append_records prev sq es)) = Inr (snd (append_records prev sq es))"
  by (induction prev sq es rule: append_records.induct) (simp_all add: Let_def case_prod_beta)

lemma append_bodies:
  "map (\<lambda>r. (er_type r, er_body r)) (fst (append_records prev sq es)) = es \<and>
   map er_seq (fst (append_records prev sq es)) = map (\<lambda>i. sq + int i) [0..<length es]"
proof (induction prev sq es rule: append_records.induct)
  case (2 prev sq ty body es)
  have "map (\<lambda>i. sq + int i) [0..<Suc k] = sq # map (\<lambda>i. sq + 1 + int i) [0..<k]" for k
    by (simp add: upt_conv_Cons map_Suc_upt [symmetric] del: upt_Suc)
  with 2 [OF refl] show ?case by (simp add: Let_def case_prod_beta)
qed simp

lemma length_append [simp]: "length (fst (append_records prev sq es)) = length es"
  using append_bodies [of prev sq es] by (metis length_map)

text \<open>C31: A bundle that was built verifies; it holds exactly the rows of the report and the suppressions, in order
  and numbered from zero, and its labels count every finding and limitation once.\<close>

theorem built_bundle_verifies:
  "verify_bundle (build_bundle rp sups retention versions) =
     \<lparr>vd_ok = True, vd_reason = None, vd_checked = 1 + int (length (rp_sessions rp) + length (rp_findings rp) +
        length (rp_limitations rp) + length sups)\<rparr> \<and>
   map (\<lambda>r. (er_type r, er_body r)) (bu_records (build_bundle rp sups retention versions)) = bundle_entries rp sups \<and>
   map er_seq (bu_records (build_bundle rp sups retention versions)) = map int [0..<length (bundle_entries rp sups)] \<and>
   em_observed (bu_manifest (build_bundle rp sups retention versions)) +
     em_unobservable (bu_manifest (build_bundle rp sups retention versions))
     = length (rp_findings rp) + length (rp_limitations rp)"
proof -
  let ?a = "append_records genesis 0 (bundle_entries rp sups)"
  have b: "bu_records (build_bundle rp sups retention versions) = fst ?a"
    "em_root_hash (bu_manifest (build_bundle rp sups retention versions)) = snd ?a"
    "em_record_count (bu_manifest (build_bundle rp sups retention versions)) = int (length (bundle_entries rp sups))"
    by (simp_all add: build_bundle_def case_prod_beta)
  have n: "length (bundle_entries rp sups) =
      1 + length (rp_sessions rp) + length (rp_findings rp) + length (rp_limitations rp) + length sups"
    by (simp add: bundle_entries_def)
  have "length (filter is_observed fs) + length (filter (\<lambda>f. \<not> is_observed f) fs) = length fs" for fs
    by (rule sum_length_filter_compl)
  moreover have "verify_bundle (build_bundle rp sups retention versions) =
     \<lparr>vd_ok = True, vd_reason = None, vd_checked = int (length (bundle_entries rp sups))\<rparr>"
    by (simp add: verify_bundle_def b check_append)
  moreover have "map (\<lambda>i. 0 + int i) xs = map int xs" for xs by simp
  ultimately show ?thesis
    using append_bodies [of genesis 0 "bundle_entries rp sups"] n
    unfolding b by (simp add: build_bundle_def case_prod_beta)
qed

section \<open>What was changed does not verify\<close>

definition record_types :: "string list" where
  "record_types = [''report.meta'', ''session'', ''finding'', ''limitation'', ''suppression'']"

definition known_record :: "evidence_record \<Rightarrow> bool" where
  "known_record r \<longleftrightarrow> er_type r \<in> set record_types \<and> dict_ok (er_body r)"

definition record_preimage :: "evidence_record \<Rightarrow> string" where
  "record_preimage r = preimage (er_prev r) (er_seq r) (er_type r) (er_body r)"

definition same_record :: "evidence_record \<Rightarrow> evidence_record \<Rightarrow> bool" where
  "same_record r s \<longleftrightarrow> er_seq r = er_seq s \<and> er_type r = er_type s \<and> dget (er_body r) = dget (er_body s)"

definition link_text :: "string \<Rightarrow> bool" where
  "link_text p \<longleftrightarrow> p = genesis \<or> (\<exists>m. p = sha256_hex m)"

lemma hash_is_not_genesis: "sha256_hex m @ x \<noteq> genesis @ y"
proof
  assume e: "sha256_hex m @ x = genesis @ y"
  obtain b bs where m: "sha256 m = b # bs" using length_sha256 [of m] by (cases "sha256 m") auto
  with e have "hex_digit (unat b div 16) = CHR ''G''"
    by (simp add: sha256_hex_def hexdigest_Cons genesis_def)
  moreover have "hex_value (hex_digit (unat b div 16)) = Some (unat b div 16)"
    using unat_byte_lt [of b] by (simp add: hex_digit_back less_mult_imp_div_less)
  ultimately show False by (simp add: hex_value_def)
qed

lemma link_prefix:
  assumes "link_text p" "link_text q" "p @ x = q @ y"
  shows "p = q \<and> x = y"
proof -
  consider "p = genesis" "q = genesis" | m where "p = sha256_hex m" "q = genesis" | m where "p = genesis" "q = sha256_hex m"
    | m n where "p = sha256_hex m" "q = sha256_hex n"
    using assms(1,2) by (auto simp: link_text_def)
  then show ?thesis
  proof cases
    case 2
    with assms(3) hash_is_not_genesis show ?thesis by metis
  next
    case 3
    with assms(3) hash_is_not_genesis show ?thesis by metis
  qed (use assms(3) in simp_all)
qed

lemma known_type_shape:
  "ty \<in> set record_types \<Longrightarrow> \<not> num_char (hd ty) \<and> ty \<noteq> [] \<and> CHR ''{'' \<notin> set ty"
  by (auto simp: record_types_def num_char_def is_digit_def)

lemma preimage_inj:
  assumes "preimage p i t a = preimage q j u b" "link_text p" "link_text q" "t \<in> set record_types" "u \<in> set record_types"
  shows "p = q \<and> i = j \<and> t = u \<and> json_obj a = json_obj b"
proof -
  have pq: "p = q" "dec_int i @ t @ json_obj a = dec_int j @ u @ json_obj b"
    using link_prefix [OF assms(2,3)] assms(1) unfolding preimage_def by blast+
  have n: "takeWhile num_char (dec_int k @ v @ z) = dec_int k" if "v \<in> set record_types" for k v z
  proof -
    from known_type_shape [OF that] have "takeWhile num_char (v @ z) = []" by (cases v) auto
    then show ?thesis using dec_int_chars [of k] by (simp add: takeWhile_append2 list_all_iff)
  qed
  have "dec_int i = dec_int j" using n assms(4,5) pq(2) by metis
  with pq(2) have ij: "i = j" "t @ json_obj a = u @ json_obj b" using dec_int_inj by auto
  have t: "takeWhile (\<lambda>c. c \<noteq> CHR ''{'') (v @ json_obj d) = v" if "v \<in> set record_types" for v d
  proof -
    from known_type_shape [OF that] have "\<forall>c \<in> set v. c \<noteq> CHR ''{''" by auto
    then have "takeWhile (\<lambda>c. c \<noteq> CHR ''{'') (v @ json_obj d) = v @ takeWhile (\<lambda>c. c \<noteq> CHR ''{'') (json_obj d)"
      by (simp add: takeWhile_append2)
    then show ?thesis by (simp add: json_obj_def)
  qed
  have "t = u" using t assms(4,5) ij(2) by metis
  with pq ij show ?thesis by simp
qed

lemma check_chain_snoc:
  "check_chain p (xs @ [r]) = Inr h \<longleftrightarrow>
     check_chain p xs = Inr (er_prev r) \<and> sha256_hex (ascii (record_preimage r)) = er_hash r \<and> h = er_hash r"
  by (induction xs arbitrary: p) (auto simp: record_hash_def record_preimage_def)

lemma check_chain_link: "check_chain genesis xs = Inr h \<Longrightarrow> link_text h"
  by (cases xs rule: rev_cases) (auto simp: check_chain_snoc link_text_def intro: sym)

lemma chain_determines_records:
  assumes "check_chain genesis xs = Inr h" "check_chain genesis ys = Inr h" "list_all known_record (xs @ ys)"
    and "\<forall>r \<in> set xs. \<forall>s \<in> set ys.
      sha256_hex (ascii (record_preimage r)) = sha256_hex (ascii (record_preimage s)) \<longrightarrow> record_preimage r = record_preimage s"
  shows "list_all2 same_record xs ys"
  using assms
proof (induction xs arbitrary: ys h rule: rev_induct)
  case Nil
  show ?case
  proof (cases ys rule: rev_cases)
    case (snoc ys' s)
    with Nil hash_is_not_genesis [where x = "[]" and y = "[]"] show ?thesis by (auto simp: check_chain_snoc)
  qed simp
next
  case (snoc r xs)
  note prems = snoc.prems and hyp = snoc.IH
  show ?case
  proof (cases ys rule: rev_cases)
    case Nil
    with prems hash_is_not_genesis [where x = "[]" and y = "[]"] show ?thesis by (auto simp: check_chain_snoc)
  next
    case (snoc ys' s)
    from prems snoc have c: "check_chain genesis xs = Inr (er_prev r)" "check_chain genesis ys' = Inr (er_prev s)"
      "sha256_hex (ascii (record_preimage r)) = sha256_hex (ascii (record_preimage s))"
      by (simp_all add: check_chain_snoc)
    with prems(4) snoc have "record_preimage r = record_preimage s" by simp
    then have pre: "preimage (er_prev r) (er_seq r) (er_type r) (er_body r) = preimage (er_prev s) (er_seq s) (er_type s) (er_body s)"
      by (simp only: record_preimage_def)
    have known: "known_record r" "known_record s" using prems(3) snoc by simp_all
    then have ty: "er_type r \<in> set record_types" "er_type s \<in> set record_types"
      by (simp_all only: known_record_def)
    from preimage_inj [OF pre check_chain_link [OF c(1)] check_chain_link [OF c(2)] ty]
    have same: "er_prev r = er_prev s" "er_seq r = er_seq s" "er_type r = er_type s" "json_obj (er_body r) = json_obj (er_body s)"
      by simp_all
    have "same_record r s"
      using same json_obj_determines [OF same(4)] known by (simp add: same_record_def known_record_def)
    moreover have "list_all2 same_record xs ys'"
    proof (rule hyp [OF c(1)])
      show "check_chain genesis ys' = Inr (er_prev r)" using c(2) same(1) by simp
      show "list_all known_record (xs @ ys')" using prems(3) snoc by simp
      show "\<forall>r \<in> set xs. \<forall>s \<in> set ys'. sha256_hex (ascii (record_preimage r)) = sha256_hex (ascii (record_preimage s)) \<longrightarrow>
          record_preimage r = record_preimage s"
        using prems(4) snoc by simp
    qed
    ultimately show ?thesis by (simp add: snoc list_all2_appendI)
  qed
qed

lemma verified_chain:
  "vd_ok (verify_bundle b) \<longleftrightarrow>
     em_record_count (bu_manifest b) = int (length (bu_records b)) \<and>
     check_chain genesis (bu_records b) = Inr (em_root_hash (bu_manifest b))"
  by (auto simp: verify_bundle_def Let_def split: sum.splits)


text \<open>The number and the type of a record are hashed without a separator, so with a type outside the known ones the
  record 1 of type \<open>0session\<close> is the record 10 of type \<open>session\<close>.\<close>

lemma number_and_type_run_together:
  "record_hash prev 1 ''0session'' body = record_hash prev 10 ''session'' body"
proof -
  have d: "dec_int 10 = dec_int 1 @ ''0''" by code_simp
  show ?thesis unfolding record_hash_def preimage_def d by simp
qed

text \<open>Of the manifest only the number of records and the root hash are checked: labels, versions, retention and the
  number of suppressions can be changed at will.\<close>

lemma manifest_is_not_covered:
  "verify_bundle (b\<lparr>bu_manifest := (bu_manifest b)\<lparr>em_observed := i, em_unobservable := j, em_versions := v,
      em_retention := w, em_suppression_count := k\<rparr>\<rparr>) = verify_bundle b"
  by (cases b, cases "bu_manifest b")
    (simp only: verify_bundle_def evidence_bundle.simps evidence_manifest.simps)

definition demo_report :: report where
  "demo_report = \<lparr>rp_filename = ''a.pcap'', rp_generated_at = ''now'', rp_sessions = [[(''cipher'', JNull)]],
     rp_findings = [[(''rule_id'', JStr ''r'')]], rp_limitations = [''tls13'']\<rparr>"

lemma demo_known: "list_all known_record (bu_records (build_bundle demo_report [] v w))"
  by (simp add: build_bundle_def case_prod_beta bundle_entries_def demo_report_def Let_def known_record_def
      record_types_def dict_ok_def)


end
