(* ===== verification/Base64.thy ===== *)
theory Base64
  imports Prelude
begin

text \<open>
  The base64 text of the stream payloads (\<open>base64.b64encode\<close> and \<open>base64.b64decode\<close> of the standard library,
  as src/backend/app/live/serialize.py calls them). The decoder is the state machine of
  \<open>binascii.a2b_base64\<close> in its default, lenient mode: characters outside the alphabet are skipped.
\<close>

definition b64_char :: "nat \<Rightarrow> char" where
  "b64_char n =
     char_of (if n < 26 then n + 65 else if n < 52 then n + 71 else if n < 62 then n - 4 else if n = 62 then 43 else 47)"

definition b64_value :: "char \<Rightarrow> nat option" where
  "b64_value c =
     (let n = (of_char c :: nat)
      in if 65 \<le> n \<and> n \<le> 90 then Some (n - 65)
         else if 97 \<le> n \<and> n \<le> 122 then Some (n - 71)
         else if 48 \<le> n \<and> n \<le> 57 then Some (n + 4)
         else if n = 43 then Some 62
         else if n = 47 then Some 63 else None)"

definition b64_pad :: char where "b64_pad = CHR ''=''"

fun b64_nats :: "nat list \<Rightarrow> string" where
  "b64_nats [] = []"
| "b64_nats [a] = [b64_char (a div 4), b64_char (a mod 4 * 16), b64_pad, b64_pad]"
| "b64_nats [a, b] = [b64_char (a div 4), b64_char (a mod 4 * 16 + b div 16), b64_char (b mod 16 * 4), b64_pad]"
| "b64_nats (a # b # c # r) =
     b64_char (a div 4) # b64_char (a mod 4 * 16 + b div 16) # b64_char (b mod 16 * 4 + c div 64) # b64_char (c mod 64)
     # b64_nats r"

definition b64encode :: "bytes \<Rightarrow> string" where
  "b64encode bs = b64_nats (map unat bs)"

fun b64_scan :: "nat \<Rightarrow> nat \<Rightarrow> nat \<Rightarrow> string \<Rightarrow> nat list res" where
  \<comment> \<open>the position in the group of four, the bits left over, the padding characters seen\<close>
  "b64_scan q l p [] =
     (if q = 0 then Inr []
      else if q = 1 then Inl (ValueError ''number of data characters cannot be 1 more than a multiple of 4'')
      else Inl (ValueError ''Incorrect padding''))"
| "b64_scan q l p (c # cs) =
     (if c = b64_pad
      then (if 2 \<le> q then (if 4 \<le> q + (p + 1) then Inr [] else b64_scan q l (p + 1) cs) else b64_scan q l p cs)
      else (case b64_value c of
              None \<Rightarrow> b64_scan q l p cs
            | Some v \<Rightarrow>
                if q = 0 then b64_scan 1 v 0 cs
                else if q = 1 then bindR (b64_scan 2 (v mod 16) 0 cs) (\<lambda>ns. Inr ((l * 4 + v div 16) # ns))
                else if q = 2 then bindR (b64_scan 3 (v mod 4) 0 cs) (\<lambda>ns. Inr ((l * 16 + v div 4) # ns))
                else bindR (b64_scan 0 0 0 cs) (\<lambda>ns. Inr ((l * 64 + v) # ns))))"

definition b64decode :: "string \<Rightarrow> bytes res" where
  "b64decode s =
     (if list_ex (\<lambda>c. 128 \<le> (of_char c :: nat)) s
      then Inl (ValueError ''string argument should contain only ASCII characters'')
      else bindR (b64_scan 0 0 0 s) (\<lambda>ns. Inr (map of_nat ns)))"

section \<open>Round trip\<close>

lemma b64_code:
  assumes "n < 64"
  shows "b64_value (b64_char n) = Some n" "b64_char n \<noteq> b64_pad" "(of_char (b64_char n) :: nat) < 128"
proof -
  have code: "(of_char (b64_char n) :: nat) =
      (if n < 26 then n + 65 else if n < 52 then n + 71 else if n < 62 then n - 4 else if n = 62 then 43 else 47)"
    using assms by (simp add: b64_char_def)
  have "(of_char b64_pad :: nat) = 61" by (simp add: b64_pad_def)
  moreover have "(of_char (b64_char n) :: nat) \<noteq> 61" using code assms by (auto split: if_splits)
  ultimately show "b64_char n \<noteq> b64_pad" by auto
  show "b64_value (b64_char n) = Some n" using code assms by (auto simp: b64_value_def Let_def split: if_splits)
  show "(of_char (b64_char n) :: nat) < 128" using code assms by auto
qed

lemma b64_pad_plain: "(of_char b64_pad :: nat) < 128"
  by (simp add: b64_pad_def)

lemma small_parts:
  "a < 256 \<Longrightarrow> a div 4 < (64 :: nat)" "a mod 4 * 16 < (64 :: nat)" "b < 256 \<Longrightarrow> a mod 4 * 16 + b div 16 < (64 :: nat)"
  "b mod 16 * 4 < (64 :: nat)" "c < 256 \<Longrightarrow> b mod 16 * 4 + c div 64 < (64 :: nat)" "c mod 64 < (64 :: nat)"
  by simp_all

lemma packed: "y < m \<Longrightarrow> (x * m + y) div m = (x :: nat)" "y < m \<Longrightarrow> (x * m + y) mod m = (y :: nat)"
  by simp_all

lemma joined_parts:
  "b < 256 \<Longrightarrow> a div 4 * 4 + (a mod 4 * 16 + b div 16) div 16 = (a :: nat)"
  "b < 256 \<Longrightarrow> (a mod 4 * 16 + b div 16) mod 16 = (b :: nat) div 16"
  "c < 256 \<Longrightarrow> b div 16 * 16 + (b mod 16 * 4 + c div 64) div 4 = (b :: nat)"
  "c < 256 \<Longrightarrow> (b mod 16 * 4 + c div 64) mod 4 = (c :: nat) div 64"
  "c div 64 * 64 + c mod 64 = (c :: nat)"
  "a div 4 * 4 + a mod 4 * 16 div 16 = (a :: nat)" "b div 16 * 16 + b mod 16 * 4 div 4 = (b :: nat)"
proof -
  assume "b < 256"
  then have "b div 16 < 16" by simp
  then show "a div 4 * 4 + (a mod 4 * 16 + b div 16) div 16 = a" "(a mod 4 * 16 + b div 16) mod 16 = b div 16"
    by (simp_all only: packed div_mult_mod_eq)
next
  assume "c < 256"
  then have "c div 64 < 4" by simp
  then show "b div 16 * 16 + (b mod 16 * 4 + c div 64) div 4 = b" "(b mod 16 * 4 + c div 64) mod 4 = c div 64"
    by (simp_all only: packed div_mult_mod_eq)
qed simp_all

lemma nibbles: "b < 256 \<Longrightarrow> b div 16 div 16 = (0 :: nat)" "b < 256 \<Longrightarrow> b div 16 mod 16 * 16 + b mod 16 = (b :: nat)"
  "b < 256 \<Longrightarrow> b div 64 div 4 = (0 :: nat)" "b < 256 \<Longrightarrow> b div 64 mod 4 * 64 + b mod 64 = (b :: nat)"
proof -
  assume "b < 256"
  then have "b div 16 < 16" "b div 64 < 4" by simp_all
  then show "b div 16 div 16 = 0" "b div 16 mod 16 * 16 + b mod 16 = b" "b div 64 div 4 = 0" "b div 64 mod 4 * 64 + b mod 64 = b"
    by simp_all
qed

lemma b64_scan_nats: "list_all (\<lambda>n. n < 256) ns \<Longrightarrow> b64_scan 0 0 0 (b64_nats ns) = Inr ns"
proof (induction ns rule: b64_nats.induct)
  case (2 a)
  then show ?case by (simp add: b64_code small_parts joined_parts)
next
  case (3 a b)
  then show ?case by (simp add: b64_code small_parts joined_parts nibbles)
next
  case (4 a b c r)
  then show ?case by (simp add: b64_code small_parts joined_parts nibbles)
qed simp

lemma b64_nats_plain: "list_all (\<lambda>n. n < 256) ns \<Longrightarrow> c \<in> set (b64_nats ns) \<Longrightarrow> (of_char c :: nat) < 128"
  by (induction ns rule: b64_nats.induct) (auto simp: b64_code small_parts b64_pad_plain)

lemma b64_roundtrip [simp]: "b64decode (b64encode bs) = Inr bs"
proof -
  have small: "list_all (\<lambda>n. n < 256) (map unat bs)" by (simp add: list_all_iff)
  have "\<not> list_ex (\<lambda>c. 128 \<le> (of_char c :: nat)) (b64encode bs)"
    using b64_nats_plain [OF small] by (auto simp: list_ex_iff b64encode_def not_le)
  then show ?thesis
    using b64_scan_nats [OF small] by (simp add: b64decode_def b64encode_def map_idI)
qed

text \<open>Characters outside the alphabet and everything behind the padding are ignored.\<close>

lemma b64_lenient: "b64decode ''TQ!=='' = Inr [0x4D]" "b64decode ''TQ==TQ=='' = Inr [0x4D]"
  by (code_simp, code_simp)

end
