(* ===== verification/IP_Address.thy ===== *)
theory IP_Address
  imports Auth
begin

text \<open>
  The part of Python's module \<open>ipaddress\<close> that src/backend/app/proactive/suppressions.py relies on:
  reading an IPv4 or IPv6 address, reading a network with \<open>strict=False\<close>, and membership. \<open>None\<close> is
  the \<open>ValueError\<close> that the callers catch.
\<close>

section \<open>Addresses\<close>

datatype ip = V4 nat | V6 nat

definition all_digits :: "string \<Rightarrow> bool" where
  "all_digits s \<longleftrightarrow> s \<noteq> [] \<and> list_all is_digit s"

definition dec_value :: "string \<Rightarrow> nat" where
  "dec_value s = foldl (\<lambda>n c. 10 * n + (of_char c - 48)) 0 s"

definition octet :: "string \<Rightarrow> nat option" where
  "octet s =
     (if \<not> all_digits s \<or> 3 < length s \<or> s \<noteq> ''0'' \<and> hd s = CHR ''0'' \<or> 255 < dec_value s then None
      else Some (dec_value s))"

definition ipv4_int :: "string \<Rightarrow> nat option" where
  "ipv4_int s =
     (case map octet (split_on (CHR ''.'') s) of
        [Some a, Some b, Some c, Some d] \<Rightarrow> Some (((a * 256 + b) * 256 + c) * 256 + d)
      | _ \<Rightarrow> None)"

definition hex_char :: "char \<Rightarrow> nat option" where
  "hex_char c =
     (let n = (of_char c :: nat)
      in if 48 \<le> n \<and> n \<le> 57 then Some (n - 48)
         else if 65 \<le> n \<and> n \<le> 70 then Some (n - 55)
         else if 97 \<le> n \<and> n \<le> 102 then Some (n - 87) else None)"

definition hextet :: "string \<Rightarrow> nat option" where
  "hextet s =
     (if s = [] \<or> 4 < length s then None
      else foldl (\<lambda>acc c. Option.bind acc (\<lambda>n. map_option (\<lambda>v. 16 * n + v) (hex_char c))) (Some 0) s)"

fun hextets :: "nat \<Rightarrow> string list \<Rightarrow> nat option" where
  "hextets acc [] = Some acc"
| "hextets acc (p # ps) = Option.bind (hextet p) (\<lambda>v. hextets (65536 * acc + v) ps)"

definition expand_v4_tail :: "string list \<Rightarrow> string list option" where
  \<comment> \<open>a dotted quad in the last part counts as two parts\<close>
  "expand_v4_tail parts =
     (if CHR ''.'' \<in> set (last parts)
      then map_option (\<lambda>v. butlast parts @ [hex_of (v div 65536), hex_of (v mod 65536)]) (ipv4_int (last parts))
      else Some parts)"

definition skip_places :: "string list \<Rightarrow> nat list" where
  \<comment> \<open>the empty parts that are neither first nor last\<close>
  "skip_places parts = filter (\<lambda>i. parts ! i = []) [1..<length parts - 1]"

definition ipv6_parts :: "string list \<Rightarrow> nat option" where
  "ipv6_parts parts =
     (if 9 < length parts then None
      else (case skip_places parts of
              [] \<Rightarrow> if length parts \<noteq> 8 \<or> hd parts = [] \<or> last parts = [] then None else hextets 0 parts
            | [i] \<Rightarrow>
                (let hi = (if hd parts = [] then i - 1 else i);
                     lo = (if last parts = [] then length parts - i - 2 else length parts - i - 1)
                 in if hd parts = [] \<and> hi \<noteq> 0 \<or> last parts = [] \<and> lo \<noteq> 0 \<or> 8 < hi + lo + 1 then None
                    else Option.bind (hextets 0 (take hi parts)) (\<lambda>n.
                           hextets (n * 65536 ^ (8 - (hi + lo)))
                             (if lo = 0 then [] else drop (i + 1) parts)))
            | _ \<Rightarrow> None))"

definition ipv6_int :: "string \<Rightarrow> nat option" where
  "ipv6_int s =
     (let (addr, sep, scope) = partition_str ''%'' s; parts = split_on (CHR '':'') addr
      in if sep \<and> (scope = [] \<or> CHR ''%'' \<in> set scope) \<or> addr = [] \<or> length parts < 3 then None
         else Option.bind (expand_v4_tail parts) ipv6_parts)"

definition ip_address :: "string \<Rightarrow> ip option" where
  "ip_address s =
     (if CHR ''/'' \<in> set s then None
      else (case ipv4_int s of
              Some n \<Rightarrow> Some (V4 n)
            | None \<Rightarrow> map_option V6 (ipv6_int s)))"

section \<open>Networks\<close>

datatype net = Net4 nat nat | Net6 nat nat

definition netmask :: "nat \<Rightarrow> nat \<Rightarrow> nat" where
  "netmask w p = push_bit (w - p) (mask p)"

definition prefix_of_string :: "nat \<Rightarrow> string \<Rightarrow> nat option" where
  "prefix_of_string w s = (if all_digits s \<and> dec_value s \<le> w then Some (dec_value s) else None)"

definition prefix_of_int :: "nat \<Rightarrow> nat \<Rightarrow> nat option" where
  \<comment> \<open>the length of a mask of ones followed by zeros\<close>
  "prefix_of_int w n = find (\<lambda>p. n = netmask w p) (rev [0..<w + 1])"

definition prefix_of_quad :: "string \<Rightarrow> nat option" where
  \<comment> \<open>a net mask or, failing that, a host mask\<close>
  "prefix_of_quad s =
     Option.bind (ipv4_int s) (\<lambda>n.
       case prefix_of_int 32 n of Some p \<Rightarrow> Some p | None \<Rightarrow> prefix_of_int 32 (n XOR mask 32))"

definition net4 :: "string \<Rightarrow> string option \<Rightarrow> net option" where
  "net4 addr pfx =
     Option.bind (ipv4_int addr) (\<lambda>n.
       map_option (\<lambda>p. Net4 (n AND netmask 32 p) p)
         (case pfx of
            None \<Rightarrow> Some 32
          | Some s \<Rightarrow> (case prefix_of_string 32 s of Some p \<Rightarrow> Some p | None \<Rightarrow> prefix_of_quad s)))"

definition net6 :: "string \<Rightarrow> string option \<Rightarrow> net option" where
  "net6 addr pfx =
     Option.bind (ipv6_int addr) (\<lambda>n.
       map_option (\<lambda>p. Net6 (n AND netmask 128 p) p)
         (case pfx of None \<Rightarrow> Some 128 | Some s \<Rightarrow> prefix_of_string 128 s))"

definition ip_network :: "string \<Rightarrow> net option" where
  \<comment> \<open>\<open>ip_network(s, strict=False)\<close>\<close>
  "ip_network s =
     (let pick = (\<lambda>addr pfx. case net4 addr pfx of Some n \<Rightarrow> Some n | None \<Rightarrow> net6 addr pfx)
      in case split_on (CHR ''/'') s of
           [addr] \<Rightarrow> pick addr None
         | [addr, pfx] \<Rightarrow> pick addr (Some pfx)
         | _ \<Rightarrow> None)"

fun in_net :: "ip \<Rightarrow> net \<Rightarrow> bool" where
  "in_net (V4 a) (Net4 n p) = (a AND netmask 32 p = n)"
| "in_net (V6 a) (Net6 n p) = (a AND netmask 128 p = n)"
| "in_net _ _ = False"

section \<open>Lemmas\<close>

lemma and_netmask: "p \<le> w \<Longrightarrow> a < 2 ^ w \<Longrightarrow> a AND netmask w p = (a div 2 ^ (w - p)) * 2 ^ (w - p)"
proof -
  assume p: "p \<le> w" and a: "a < 2 ^ w"
  have "a = push_bit (w - p) (drop_bit (w - p) a) + take_bit (w - p) a"
    by (simp add: bits_ident)
  have "drop_bit (w - p) a < 2 ^ p"
    using a p by (simp add: drop_bit_eq_div less_mult_imp_div_less flip: power_add)
  then have tb: "take_bit p (drop_bit (w - p) a) = drop_bit (w - p) a"
    by (simp add: take_bit_nat_eq_self)
  have "a AND netmask w p = push_bit (w - p) (drop_bit (w - p) a AND mask p)"
    by (rule bit_eqI) (auto simp: netmask_def bit_simps)
  also have "\<dots> = push_bit (w - p) (drop_bit (w - p) a)"
    using tb by (simp add: take_bit_eq_mask)
  finally show ?thesis by (simp add: push_bit_eq_mult drop_bit_eq_div)
qed

lemma same_network:
  \<comment> \<open>membership compares the leading bits\<close>
  assumes "p \<le> w" "a < 2 ^ w" "n < 2 ^ w"
  shows "a AND netmask w p = n AND netmask w p \<longleftrightarrow> a div 2 ^ (w - p) = n div 2 ^ (w - p)"
  using assms by (simp add: and_netmask)

lemma octet_bound: "octet s = Some v \<Longrightarrow> v \<le> 255"
  by (auto simp: octet_def split: if_splits)

lemma ipv4_bound: "ipv4_int s = Some n \<Longrightarrow> n < 2 ^ 32"
  by (auto simp: ipv4_int_def split: list.splits option.splits dest!: octet_bound)

section \<open>Kinds of addresses\<close>

definition nets :: "string list \<Rightarrow> net list" where
  "nets xs = List.map_filter ip_network xs"

definition in_any :: "ip \<Rightarrow> string list \<Rightarrow> bool" where
  "in_any a xs = list_ex (in_net a) (nets xs)"

definition private4 :: "string list" where
  "private4 = [''0.0.0.0/8'', ''10.0.0.0/8'', ''127.0.0.0/8'', ''169.254.0.0/16'', ''172.16.0.0/12'', ''192.0.0.0/24'',
     ''192.0.0.170/31'', ''192.0.2.0/24'', ''192.168.0.0/16'', ''198.18.0.0/15'', ''198.51.100.0/24'',
     ''203.0.113.0/24'', ''240.0.0.0/4'', ''255.255.255.255/32'']"

definition private4_exceptions :: "string list" where
  "private4_exceptions = [''192.0.0.9/32'', ''192.0.0.10/32'']"

definition private6 :: "string list" where
  "private6 = [''::1/128'', ''::/128'', ''::ffff:0:0/96'', ''64:ff9b:1::/48'', ''100::/64'', ''2001::/23'',
     ''2001:db8::/32'', ''2002::/16'', ''fc00::/7'', ''fe80::/10'']"

definition private6_exceptions :: "string list" where
  "private6_exceptions = [''2001:1::1/128'', ''2001:1::2/128'', ''2001:3::/32'', ''2001:4:112::/48'',
     ''2001:20::/28'', ''2001:30::/28'']"

definition reserved6 :: "string list" where
  "reserved6 = [''::/8'', ''100::/8'', ''200::/7'', ''400::/6'', ''800::/5'', ''1000::/4'', ''4000::/3'', ''6000::/3'',
     ''8000::/3'', ''A000::/3'', ''C000::/3'', ''E000::/4'', ''F000::/5'', ''F800::/6'', ''FE00::/9'']"

fun is_private :: "ip \<Rightarrow> bool" where
  "is_private (V4 n) = (in_any (V4 n) private4 \<and> \<not> in_any (V4 n) private4_exceptions)"
| "is_private (V6 n) =
     (if n div 2 ^ 32 = 0xffff
      then in_any (V4 (n mod 2 ^ 32)) private4 \<and> \<not> in_any (V4 (n mod 2 ^ 32)) private4_exceptions
      else in_any (V6 n) private6 \<and> \<not> in_any (V6 n) private6_exceptions)"

fun is_special :: "ip \<Rightarrow> bool" where
  \<comment> \<open>loopback, link-local, multicast, reserved or unspecified\<close>
  "is_special (V4 n) = in_any (V4 n) [''127.0.0.0/8'', ''169.254.0.0/16'', ''224.0.0.0/4'', ''240.0.0.0/4'', ''0.0.0.0'']"
| "is_special (V6 n) = (n = 1 \<or> n = 0 \<or> in_any (V6 n) (''fe80::/10'' # ''ff00::/8'' # reserved6))"

definition is_public_ip :: "ip \<Rightarrow> bool" where
  "is_public_ip a \<longleftrightarrow> \<not> is_private a \<and> \<not> is_special a"

lemma in_any_V4:
  "in_any (V4 a) xs \<longleftrightarrow> (\<exists>n p. Net4 n p \<in> set (nets xs) \<and> a AND netmask 32 p = n)"
proof -
  have "in_net (V4 a) x \<longleftrightarrow> (\<exists>n p. x = Net4 n p \<and> a AND netmask 32 p = n)" for x
    by (cases x) auto
  then show ?thesis by (auto simp: in_any_def list_ex_iff)
qed

lemmas parse_simps = ip_network_def net4_def ipv4_int_def octet_def all_digits_def is_digit_def dec_value_def
  prefix_of_string_def and_netmask map_filter_simps Let_def

lemma nets_private4:
  "nets private4 = [Net4 0 8, Net4 167772160 8, Net4 2130706432 8, Net4 2851995648 16,
     Net4 2886729728 12, Net4 3221225472 24, Net4 3221225642 31, Net4 3221225984 24,
     Net4 3232235520 16, Net4 3323068416 15, Net4 3325256704 24, Net4 3405803776 24,
     Net4 4026531840 4, Net4 4294967295 32]"
  by (simp add: nets_def private4_def parse_simps)

lemma nets_special4:
  "nets [''127.0.0.0/8'', ''169.254.0.0/16'', ''224.0.0.0/4'', ''240.0.0.0/4'', ''0.0.0.0''] =
     [Net4 2130706432 8, Net4 2851995648 16, Net4 3758096384 4, Net4 4026531840 4, Net4 0 32]"
  by (simp add: nets_def parse_simps)

lemma shared_space_is_public:
  \<comment> \<open>the shared address space 100.64.0.0/10 of RFC 6598 counts as public\<close>
  "is_public_ip (V4 1681915905)" "ip_address ''100.64.0.1'' = Some (V4 1681915905)"
  by (simp_all add: is_public_ip_def in_any_def nets_private4 nets_special4 and_netmask ip_address_def parse_simps)

lemma metadata_service_is_not:
  "\<not> is_public_ip (V4 2852039166)" "ip_address ''169.254.169.254'' = Some (V4 2852039166)"
  by (simp_all add: is_public_ip_def in_any_def nets_special4 and_netmask ip_address_def parse_simps)

end
