(* ===== verification/Sensor_Wire.thy ===== *)
theory Sensor_Wire
  imports Base64 Ingest Disk_Queue IP_Address
begin

text \<open>
  What travels between the sensor and the backend: the session payload of the stream
  (src/backend/app/live/serialize.py), the metadata that a remote sensor may send
  (src/backend/app/agent/meta.py), and its delivery over HTTPS (src/backend/app/agent/shipper.py) from the disk
  queue. A payload is a JSON object; \<open>json.dumps\<close> and \<open>json.loads\<close> of the standard library, which are inverse
  on such objects, are left out.
\<close>

section \<open>JSON objects\<close>

datatype wire = WNull | WBool bool | WInt int | WReal real | WStr string | WList "wire list"

type_synonym wire_obj = "(string, wire) dict"

fun wtruthy :: "wire \<Rightarrow> bool" where
  "wtruthy WNull = False"
| "wtruthy (WBool b) = b"
| "wtruthy (WInt i) = (i \<noteq> 0)"
| "wtruthy (WReal r) = (r \<noteq> 0)"
| "wtruthy (WStr s) = (s \<noteq> '''')"
| "wtruthy (WList xs) = (xs \<noteq> [])"

definition wget :: "wire_obj \<Rightarrow> string \<Rightarrow> wire \<Rightarrow> wire" where
  "wget d k v = dget_or d k v"

section \<open>The session payload\<close>

definition ref_wire :: "raw_ref \<Rightarrow> wire" where
  "ref_wire = (\<lambda>(segment, offset, len). WList [WStr segment, WInt (int offset), WInt (int len)])"

definition session_to_payload :: "session \<Rightarrow> wire_obj" where
  "session_to_payload s =
     [(''protocol'', WStr (protocol_value (s_protocol s))),
      (''five_tuple'', WStr (s_five_tuple s)),
      (''client_ip'', WStr (s_client_ip s)), (''server_ip'', WStr (s_server_ip s)),
      (''client_port'', WInt (int (s_client_port s))), (''server_port'', WInt (int (s_server_port s))),
      (''is_starttls'', WBool (s_is_starttls s)),
      (''transition_offset'', (case s_transition_offset s of None \<Rightarrow> WNull | Some n \<Rightarrow> WInt (int n))),
      (''plaintext_segment'', WStr (b64encode (s_plaintext s))),
      (''plaintext_server_segment'', WStr (b64encode (s_plaintext_server s))),
      (''tls_segment'', WStr (b64encode (s_tls s))),
      (''tls_server_segment'', WStr (b64encode (s_tls_server s))),
      (''start_ts'', WReal (s_start_ts s)), (''end_ts'', WReal (s_end_ts s)),
      (''port_based'', WBool (s_port_based s)),
      (''closed_by'', WStr (s_closed_by s)),
      (''tracked_bytes'', WInt (int (s_tracked_bytes s))),
      (''raw_refs'', WList (map ref_wire (s_raw_refs s)))]"

datatype wire_error =
    Raises pyerr
  | Untyped \<comment> \<open>no error in the code: an attribute of the session has a value of another type\<close>

definition must :: "wire_obj \<Rightarrow> string \<Rightarrow> wire_error + wire" where
  \<comment> \<open>\<open>d[k]\<close>\<close>
  "must d k = (case dget d k of None \<Rightarrow> Inl (Raises KeyError) | Some v \<Rightarrow> Inr v)"

definition protocol_of :: "wire \<Rightarrow> wire_error + protocol" where
  \<comment> \<open>\<open>Protocol(v)\<close>\<close>
  "protocol_of v =
     (case find (\<lambda>p. v = WStr (protocol_value p)) [SMTP, IMAP, POP3, UNKNOWN] of
        None \<Rightarrow> Inl (Raises (ValueError ''not a valid Protocol''))
      | Some p \<Rightarrow> Inr p)"

definition segment_of :: "wire_obj \<Rightarrow> string \<Rightarrow> wire_error + bytes" where
  \<comment> \<open>\<open>base64.b64decode(d.get(k, "") or "")\<close>\<close>
  "segment_of d k =
     (let v = wget d k (WStr '''')
      in if \<not> wtruthy v then Inr []
         else (case v of
                 WStr s \<Rightarrow> map_sum Raises id (b64decode s)
               | _ \<Rightarrow> Inl (Raises (RuntimeError [''TypeError'']))))"

definition nat_of_wire :: "wire \<Rightarrow> nat option" where
  "nat_of_wire v = (case v of WInt i \<Rightarrow> if 0 \<le> i then Some (nat i) else None | _ \<Rightarrow> None)"

definition text_of_wire :: "wire \<Rightarrow> string option" where
  "text_of_wire v = (case v of WStr s \<Rightarrow> Some s | _ \<Rightarrow> None)"

definition flag_of_wire :: "wire \<Rightarrow> bool option" where
  "flag_of_wire v = (case v of WBool b \<Rightarrow> Some b | _ \<Rightarrow> None)"

definition time_of_wire :: "wire \<Rightarrow> time option" where
  "time_of_wire v = (case v of WReal r \<Rightarrow> Some r | WInt i \<Rightarrow> Some (of_int i) | _ \<Rightarrow> None)"

fun ref_of_wire :: "wire \<Rightarrow> raw_ref option" where
  "ref_of_wire (WList [WStr segment, off, len]) =
     Option.bind (nat_of_wire off) (\<lambda>off. map_option (\<lambda>len. (segment, off, len)) (nat_of_wire len))"
| "ref_of_wire _ = None"

definition iterable :: "wire \<Rightarrow> bool" where
  "iterable v = (case v of WList xs \<Rightarrow> True | WStr s \<Rightarrow> True | _ \<Rightarrow> False)"

definition refs_of_wire :: "wire \<Rightarrow> wire_error + raw_ref list" where
  \<comment> \<open>\<open>[tuple(r) for r in v or []]\<close>\<close>
  "refs_of_wire v =
     (if \<not> wtruthy v then Inr []
      else (case v of
              WList xs \<Rightarrow>
                if \<not> list_all iterable xs then Inl (Raises (RuntimeError [''TypeError'']))
                else (case those (map ref_of_wire xs) of None \<Rightarrow> Inl Untyped | Some rs \<Rightarrow> Inr rs)
            | WStr s \<Rightarrow> Inl Untyped
            | _ \<Rightarrow> Inl (Raises (RuntimeError [''TypeError'']))))"

definition typed :: "'a option \<Rightarrow> wire_error + 'a" where
  "typed x = (case x of None \<Rightarrow> Inl Untyped | Some v \<Rightarrow> Inr v)"

definition offset_of_wire :: "wire \<Rightarrow> nat option option" where
  "offset_of_wire v = (case v of WNull \<Rightarrow> Some None | v \<Rightarrow> map_option Some (nat_of_wire v))"

definition session_from_payload :: "wire_obj \<Rightarrow> wire_error + session" where
  \<comment> \<open>whatever the code raises comes first, then the types of the attributes\<close>
  "session_from_payload d =
     bindR (must d ''protocol'') (\<lambda>p. bindR (protocol_of p) (\<lambda>proto.
     bindR (must d ''five_tuple'') (\<lambda>ft.
     bindR (must d ''client_ip'') (\<lambda>ci. bindR (must d ''server_ip'') (\<lambda>si.
     bindR (must d ''client_port'') (\<lambda>cp. bindR (must d ''server_port'') (\<lambda>sp.
     bindR (segment_of d ''plaintext_segment'') (\<lambda>pt. bindR (segment_of d ''plaintext_server_segment'') (\<lambda>pts.
     bindR (segment_of d ''tls_segment'') (\<lambda>tls. bindR (segment_of d ''tls_server_segment'') (\<lambda>tlss.
     bindR (refs_of_wire (wget d ''raw_refs'' WNull)) (\<lambda>refs.
     bindR (typed (text_of_wire ft)) (\<lambda>ft. bindR (typed (text_of_wire ci)) (\<lambda>ci. bindR (typed (text_of_wire si)) (\<lambda>si.
     bindR (typed (nat_of_wire cp)) (\<lambda>cp. bindR (typed (nat_of_wire sp)) (\<lambda>sp.
     bindR (typed (flag_of_wire (wget d ''is_starttls'' (WBool False)))) (\<lambda>st.
     bindR (typed (offset_of_wire (wget d ''transition_offset'' WNull))) (\<lambda>off.
     bindR (typed (time_of_wire (wget d ''start_ts'' (WReal 0)))) (\<lambda>t0.
     bindR (typed (time_of_wire (wget d ''end_ts'' (WReal 0)))) (\<lambda>t1.
     bindR (typed (flag_of_wire (wget d ''port_based'' (WBool False)))) (\<lambda>pb.
     bindR (typed (text_of_wire (wget d ''closed_by'' (WStr ''unknown'')))) (\<lambda>cl.
     bindR (typed (nat_of_wire (wget d ''tracked_bytes'' (WInt 0)))) (\<lambda>tb.
       Inr \<lparr>s_protocol = proto, s_five_tuple = ft, s_client_ip = ci, s_server_ip = si, s_client_port = cp,
            s_server_port = sp, s_is_starttls = st, s_transition_offset = off, s_plaintext = pt,
            s_plaintext_server = pts, s_tls = tls, s_tls_server = tlss, s_start_ts = t0, s_end_ts = t1,
            s_port_based = pb, s_closed_by = cl, s_raw_refs = refs, s_tracked_bytes = tb\<rparr>))))))))))))))))))))))))"

section \<open>Round trip\<close>

lemma protocol_of_value [simp]: "protocol_of (WStr (protocol_value p)) = Inr p"
  by (cases p) (simp_all add: protocol_of_def protocol_value_def)

lemma segment_roundtrip:
  assumes "dget d k = Some (WStr (b64encode bs))"
  shows "segment_of d k = Inr bs"
proof (cases "b64encode bs = ''''")
  case True
  then have "Inr bs = (Inr [] :: bytes res)" using b64_roundtrip [of bs] by (simp add: b64decode_def)
  with True assms show ?thesis by (simp add: segment_of_def wget_def dget_or_def)
next
  case False
  with assms show ?thesis by (simp add: segment_of_def wget_def dget_or_def)
qed

lemma ref_roundtrip [simp]: "ref_of_wire (ref_wire r) = Some r"
  by (cases r) (simp add: ref_wire_def nat_of_wire_def)

lemma those_refs: "those (map (ref_of_wire \<circ> ref_wire) rs) = Some rs"
  by (induction rs) simp_all

lemma refs_roundtrip: "refs_of_wire (WList (map ref_wire rs)) = Inr rs"
  using those_refs [of rs]
  by (auto simp: refs_of_wire_def list_all_iff iterable_def ref_wire_def split: prod.splits)

text \<open>C17: Every session survives the way through the stream: the worker decodes exactly the session that the capture
  process encoded, all segments, offsets and references included.\<close>

theorem payload_roundtrip: "session_from_payload (session_to_payload s) = Inr s"
  by (simp add: session_from_payload_def must_def typed_def text_of_wire_def nat_of_wire_def flag_of_wire_def
      time_of_wire_def offset_of_wire_def session_to_payload_def wget_def dget_or_def refs_roundtrip
      segment_roundtrip split: option.split)

section \<open>Metadata\<close>

definition allow_list :: "string list" where
  \<comment> \<open>\<open>PRIVACY_ALLOW_LIST\<close>\<close>
  "allow_list =
     [''agent_id'', ''protocol'', ''five_tuple'', ''client_host'', ''server_host'', ''client_port'',
      ''server_port'', ''is_starttls'', ''start_ts'', ''end_ts'', ''tls_version'', ''cipher'',
      ''cipher_strength'', ''pfs_supported'', ''cert_cn'', ''cert_issuer'', ''san_count'',
      ''finding_ids'', ''max_severity'', ''risk_band'']"

definition quad_text :: "nat \<Rightarrow> string" where
  "quad_text n =
     join ''.'' (map dec_of [n div 16777216 mod 256, n div 65536 mod 256, n div 256 mod 256, n mod 256])"

definition zero_run :: "string list \<Rightarrow> nat \<Rightarrow> nat" where
  "zero_run hs i = length (takeWhile (\<lambda>h. h = ''0'') (drop i hs))"

definition ipv6_text :: "nat \<Rightarrow> string" where
  \<comment> \<open>the first longest run of at least two zero groups becomes \<open>::\<close>\<close>
  "ipv6_text n =
     (let hs = map (\<lambda>i. hex_of (n div 65536 ^ (7 - i) mod 65536)) [0..<8];
          i = foldl (\<lambda>b j. if zero_run hs b < zero_run hs j then j else b) 0 [0..<8];
          k = zero_run hs i
      in if k < 2 then join '':'' hs
         else join '':'' ((if i = 0 then [''''] else []) @ take i hs @ [''''] @ drop (i + k) hs @ (if i + k = 8 then [''''] else [])))"

definition net_text :: "net \<Rightarrow> string" where
  \<comment> \<open>\<open>str(net.network_address)\<close>\<close>
  "net_text n = (case n of Net4 a p \<Rightarrow> quad_text a | Net6 a p \<Rightarrow> ipv6_text a)"

definition redact_host :: "nat \<Rightarrow> string \<Rightarrow> string \<Rightarrow> string" where
  "redact_host prefix_bits host mode =
     (if mode = ''hashed'' then take 32 (sha256_hex (ascii host))
      else if mode = ''truncated''
      then (case (ip_address host, ip_network (host @ ''/'' @ dec_of prefix_bits)) of
              (Some a, Some n) \<Rightarrow> net_text n
            | _ \<Rightarrow> (let parts = split_on (CHR ''.'') host
                    in if length parts = 4 then join ''.'' (take 2 parts @ [''x'', ''x'']) else ''redacted''))
      else host)"

definition risk_band :: "real option \<Rightarrow> string" where
  "risk_band score =
     (case score of
        None \<Rightarrow> ''unknown''
      | Some x \<Rightarrow> if 75 \<le> x then ''critical'' else if 50 \<le> x then ''high'' else if 25 \<le> x then ''medium'' else ''low'')"

definition wtext :: "string option \<Rightarrow> wire" where
  "wtext x = (case x of None \<Rightarrow> WNull | Some s \<Rightarrow> WStr s)"

definition version_wire :: "session_analysis \<Rightarrow> wire" where
  \<comment> \<open>the name of the version, or its number\<close>
  "version_wire sa =
     (case sa_version_name sa of
        Some n \<Rightarrow> WStr n
      | None \<Rightarrow> (case sa_tls_version sa of None \<Rightarrow> WNull | Some v \<Rightarrow> WInt (int v)))"

definition first_text :: "string list \<Rightarrow> wire" where
  \<comment> \<open>the first text that is not empty\<close>
  "first_text xs = wtext (find (\<lambda>x. x \<noteq> '''') xs)"

definition session_to_metadata :: "session \<Rightarrow> session_analysis option \<Rightarrow> string \<Rightarrow> string \<Rightarrow> wire_obj" where
  "session_to_metadata s analysis agent_id mode =
     (let client = redact_host 24 (s_client_ip s) mode; server = redact_host 24 (s_server_ip s) mode;
          fs = (case analysis of None \<Rightarrow> [] | Some sa \<Rightarrow> sa_findings sa);
          cs = (case analysis of None \<Rightarrow> [] | Some sa \<Rightarrow> sa_certs sa)
      in [(''agent_id'', WStr agent_id),
          (''protocol'', WStr (protocol_value (s_protocol s))),
          (''five_tuple'', WStr (client @ '':'' @ dec_of (s_client_port s) @ ''-'' @ server @ '':'' @ dec_of (s_server_port s))),
          (''client_host'', WStr client), (''server_host'', WStr server),
          (''client_port'', WInt (int (s_client_port s))), (''server_port'', WInt (int (s_server_port s))),
          (''is_starttls'', WBool (s_is_starttls s)),
          (''start_ts'', WReal (s_start_ts s)), (''end_ts'', WReal (s_end_ts s)),
          (''tls_version'', (case analysis of None \<Rightarrow> WNull | Some sa \<Rightarrow> version_wire sa)),
          (''cipher'', wtext (Option.bind analysis sa_cipher)),
          (''cipher_strength'', (case Option.bind analysis sa_cipher_strength of None \<Rightarrow> WNull | Some r \<Rightarrow> WReal r)),
          (''pfs_supported'', WBool (case Option.bind analysis sa_cipher_meta of None \<Rightarrow> False | Some c \<Rightarrow> c_pfs c)),
          (''cert_cn'', first_text (map ca_subject_cn cs)),
          (''cert_issuer'', first_text (map ca_issuer_cn cs)),
          (''san_count'', WInt (case cs of [] \<Rightarrow> 0 | c # _ \<Rightarrow> int (length (ca_sans c)))),
          (''finding_ids'', WList (map (WStr \<circ> f_rule_id) fs)),
          (''max_severity'', WStr (case max_severity fs of None \<Rightarrow> ''none'' | Some v \<Rightarrow> sev_str v)),
          (''risk_band'', WStr (risk_band None))])"

subsection \<open>What the metadata reveals\<close>

lemma ipv4_chars: "ipv4_int s = Some n \<Longrightarrow> CHR ''/'' \<notin> set s"
proof
  assume n: "ipv4_int s = Some n" and slash: "CHR ''/'' \<in> set s"
  have "\<exists>w \<in> set (split_on (CHR ''.'') s). CHR ''/'' \<in> set w" if "CHR ''/'' \<in> set s" for s
    using that by (induction s) (auto split: list.splits)
  with slash obtain w where w: "w \<in> set (split_on (CHR ''.'') s)" "CHR ''/'' \<in> set w" by blast
  moreover have "\<not> is_digit (CHR ''/'')" by code_simp
  ultimately have "octet w = None" by (auto simp: octet_def all_digits_def list_all_iff)
  moreover have "None \<notin> octet ` set (split_on (CHR ''.'') s)"
    using n by (auto simp: ipv4_int_def map_eq_Cons_conv split: list.splits option.splits)
  ultimately show False using w(1) by (metis image_eqI)
qed

lemma dec_24: "dec_of 24 = ''24''"
  by code_simp

lemma truncated_v4:
  assumes "ipv4_int host = Some n"
  shows "redact_host 24 host ''truncated'' = quad_text (n div 256 * 256)"
proof -
  have slash: "CHR ''/'' \<notin> set host" using ipv4_chars [OF assms] .
  have a: "ip_address host = Some (V4 n)" using assms slash by (simp add: ip_address_def)
  have "prefix_of_string 32 ''24'' = Some 24" by code_simp
  moreover have "n AND netmask 32 24 = n div 256 * 256"
    using and_netmask [of 24 32 n] ipv4_bound [OF assms] by simp
  ultimately have "net4 host (Some ''24'') = Some (Net4 (n div 256 * 256) 24)"
    using assms by (simp add: net4_def)
  then have "ip_network (host @ ''/24'') = Some (Net4 (n div 256 * 256) 24)"
    using slash by (simp add: ip_network_def split_on_app split_on_plain Let_def)
  with a show ?thesis by (simp add: redact_host_def dec_24 net_text_def)
qed


text \<open>A name of four labels is taken for an address: its first two labels are kept.\<close>

lemma truncated_name_leaks: "redact_host 24 ''mail.hr.acme.com'' ''truncated'' = ''mail.hr.x.x''"
  by code_simp

section \<open>From the metadata to the worker\<close>

definition accepts :: "wire_obj \<Rightarrow> bool" where
  \<comment> \<open>what the ingest endpoint asks of an entry\<close>
  "accepts d \<longleftrightarrow> wtruthy (wget d ''five_tuple'' WNull) \<and> wtruthy (wget d ''protocol'' WNull)"

definition stamp_wire :: "api_key \<Rightarrow> time \<Rightarrow> wire_obj \<Rightarrow> wire_obj" where
  "stamp_wire row now d =
     dset ''ingested_at'' (WReal now) (dset ''agent'' (WStr (k_name row)) (dset ''org_id'' (WStr (k_org_id row)) d))"

definition id_keys :: "string list" where
  "id_keys = [''five_tuple'', ''start_ts'', ''end_ts'', ''client_ip'', ''server_ip'', ''client_port'', ''server_port'']"

definition entry_payload :: "(wire \<Rightarrow> string) \<Rightarrow> wire_obj \<Rightarrow> payload option" where
  \<comment> \<open>\<open>text\<close> is \<open>str\<close>; \<open>None\<close> when the session has attributes of other types\<close>
  "entry_payload text d =
     (let row = (\<lambda>r. \<lparr>p_fields = map (\<lambda>k. text (wget d k (WStr ''''))) id_keys,
                      p_org_id = text_of_wire (wget d ''org_id'' WNull), p_session = r\<rparr>)
      in case session_from_payload d of
           Inr s \<Rightarrow> Some (row (Inr s))
         | Inl (Raises e) \<Rightarrow> Some (row (Inl e))
         | Inl Untyped \<Rightarrow> None)"

definition worker_step :: "worker_cfg \<Rightarrow> delivery \<Rightarrow> payload \<Rightarrow> worker \<Rightarrow> worker res" where
  "worker_step cfg d p w = (case process_one cfg d p w of (Inl e, w') \<Rightarrow> Inl e | (Inr r, w') \<Rightarrow> Inr w')"

lemma metadata_get [simp]:
  "dget (session_to_metadata s sa agent mode) ''protocol'' = Some (WStr (protocol_value (s_protocol s)))"
  "\<exists>ft. dget (session_to_metadata s sa agent mode) ''five_tuple'' = Some (WStr ft) \<and> ft \<noteq> ''''"
  "dget (session_to_metadata s sa agent mode) ''client_ip'' = None"
  by (simp_all add: session_to_metadata_def Let_def)

lemma metadata_has_no_address:
  "session_from_payload (stamp_wire row now (session_to_metadata s sa agent mode)) = Inl (Raises KeyError)"
proof -
  obtain ft where "dget (session_to_metadata s sa agent mode) ''five_tuple'' = Some (WStr ft)"
    using metadata_get(2) by blast
  then show ?thesis by (simp add: session_from_payload_def must_def stamp_wire_def)
qed

lemma metadata_accepted: "accepts (session_to_metadata s sa agent mode)"
proof -
  obtain ft where "dget (session_to_metadata s sa agent mode) ''five_tuple'' = Some (WStr ft)" "ft \<noteq> ''''"
    using metadata_get(2) by blast
  moreover have "protocol_value p \<noteq> ''''" for p by (cases p) (simp_all add: protocol_value_def)
  ultimately show ?thesis by (simp add: accepts_def wget_def dget_or_def)
qed

text \<open>C10: No session of a remote sensor is ever stored. The ingest endpoint accepts the metadata of every session, but the
  worker decodes a stream entry as a full session and the metadata has no client address: every attempt fails, the
  worker keeps its state, and the attempt that reaches the limit moves the entry to the dead letters.\<close>

theorem sensor_sessions_dead_lettered:
  "accepts (session_to_metadata s sa agent mode) \<and>
   (\<exists>p. entry_payload text (stamp_wire row now (session_to_metadata s sa agent mode)) = Some p \<and>
      p_org_id p = Some (k_org_id row) \<and>
      (\<forall>cfg d w. process_one cfg d p w = (Inl KeyError, w)) \<and>
      redeliver (Suc k) (Suc k) (worker_step cfg d) eid p (w, \<lparr>br_attempts = [], br_acked = [], br_dlq = []\<rparr>) =
        (w, \<lparr>br_attempts = [(eid, Suc k)], br_acked = [eid], br_dlq = [(eid, p, Suc k)]\<rparr>))"
proof -
  let ?e = "stamp_wire row now (session_to_metadata s sa agent mode)"
  obtain p where p: "entry_payload text ?e = Some p" "p_session p = Inl KeyError" "p_org_id p = Some (k_org_id row)"
    using metadata_has_no_address [of row now s sa agent mode]
    by (simp add: entry_payload_def Let_def text_of_wire_def stamp_wire_def wget_def dget_or_def)
  then have one: "process_one cfg d p w = (Inl KeyError, w)" for cfg d w by (simp add: process_one_def)
  then have fails: "\<exists>e. worker_step cfg d p w = Inl e" for cfg d w by (simp add: worker_step_def)
  let ?br = "\<lparr>br_attempts = [], br_acked = [], br_dlq = []\<rparr> :: payload broker"
  have "redeliver k (Suc k) (worker_step cfg d) eid p (w, ?br) =
      (w, if k = 0 then ?br else ?br\<lparr>br_attempts := [(eid, k)]\<rparr>)"
    using redeliver_failing [where process = "worker_step cfg d" and payload = p and br = ?br and m = "Suc k" and k = k, OF fails]
    by (simp add: dget_or_def)
  then have "redeliver (Suc k) (Suc k) (worker_step cfg d) eid p (w, ?br) =
      (w, \<lparr>br_attempts = [(eid, Suc k)], br_acked = [eid], br_dlq = [(eid, p, Suc k)]\<rparr>)"
    using one unfolding redeliver_last
    by (simp del: redeliver.simps add: handle_entry_def worker_step_def note_attempt_def dead_letter_def ack_entry_def dget_or_def)
  with p one metadata_accepted show ?thesis by blast
qed

section \<open>Shipping\<close>

datatype reply =
    Answered "string option" bool \<comment> \<open>success: the key of the peer when it can be read, and whether the body is JSON\<close>
  | Status nat "string option" \<comment> \<open>an error status with its \<open>Retry-After\<close>\<close>
  | No_Answer

datatype ship_error = Revoked_Token | Value_Error | Connection_Error

datatype act = Post | Pause real

record shipper =
  sh_pin :: string
  sh_max_retries :: int
  sh_revoked :: bool

definition new_shipper :: "string option \<Rightarrow> int \<Rightarrow> shipper" where
  "new_shipper pin retries =
     \<lparr>sh_pin = filter (\<lambda>c. c \<noteq> CHR '':'') (str_lower (case pin of None \<Rightarrow> '''' | Some p \<Rightarrow> p)),
      sh_max_retries = retries, sh_revoked = False\<rparr>"

definition pin_ok :: "string \<Rightarrow> string option \<Rightarrow> bool" where
  "pin_ok pin peer \<longleftrightarrow> pin = '''' \<or> peer = Some pin"

definition wait_of :: "(string \<Rightarrow> real option) \<Rightarrow> string option \<Rightarrow> real option" where
  \<comment> \<open>\<open>float(headers.get("Retry-After", "5") or 5)\<close>; \<open>secs\<close> is \<open>float\<close>. Sleeping for a negative time is an error too\<close>
  "wait_of secs header =
     (let w = (case header of None \<Rightarrow> Some 5 | Some h \<Rightarrow> if h = '''' then Some 5 else secs h)
      in case w of Some x \<Rightarrow> if 0 \<le> x then Some x else None | None \<Rightarrow> None)"

type_synonym sending = "(ship_error + unit) \<times> bool \<times> act list"

definition after :: "act list \<Rightarrow> sending \<Rightarrow> sending" where
  "after acts = (\<lambda>(r, revoked, more). (r, revoked, acts @ more))"

fun send_loop :: "(string \<Rightarrow> real option) \<Rightarrow> string \<Rightarrow> nat \<Rightarrow> nat \<Rightarrow> real \<Rightarrow> (nat \<Rightarrow> reply \<times> real) \<Rightarrow> sending" where
  \<comment> \<open>the attempts left, the number of the attempt and the delay; \<open>net\<close> gives the reply and the jitter of an attempt\<close>
  "send_loop secs pin 0 i delay net = (Inl Connection_Error, False, [])"
| "send_loop secs pin (Suc n) i delay net =
     (let backoff = after [Post, Pause (delay + snd (net i) * (delay / 4))]
            (send_loop secs pin n (Suc i) (min 60 (delay * 2)) net)
      in case fst (net i) of
           Answered peer readable \<Rightarrow>
             if \<not> pin_ok pin peer \<or> \<not> readable then (Inl Value_Error, False, [Post]) else (Inr (), False, [Post])
         | Status code header \<Rightarrow>
             if code = 401 then (Inl Revoked_Token, True, [Post])
             else if code = 429
             then (case wait_of secs header of
                     None \<Rightarrow> (Inl Value_Error, False, [Post])
                   | Some w \<Rightarrow> after [Post, Pause w] (send_loop secs pin n (Suc i) delay net))
             else if 400 \<le> code \<and> code < 500 then (Inl Value_Error, False, [Post])
             else backoff
         | No_Answer \<Rightarrow> backoff)"

definition send_batch ::
  "(string \<Rightarrow> real option) \<Rightarrow> (nat \<Rightarrow> reply \<times> real) \<Rightarrow> shipper \<Rightarrow> (ship_error + unit) \<times> shipper \<times> act list" where
  "send_batch secs net sh =
     (if sh_revoked sh then (Inl Revoked_Token, sh, [])
      else (case send_loop secs (sh_pin sh) (nat (max 1 (sh_max_retries sh))) 0 1 net of
              (r, revoked, acts) \<Rightarrow> (r, sh\<lparr>sh_revoked := revoked\<rparr>, acts)))"

definition ship_round ::
  "(bytes \<Rightarrow> 'a option) \<Rightarrow> (string \<Rightarrow> real option) \<Rightarrow> (nat \<Rightarrow> reply \<times> real) \<Rightarrow> dqueue \<times> shipper \<Rightarrow>
   ('a list \<times> act list) \<times> dqueue \<times> shipper" where
  \<comment> \<open>one turn of \<open>_ship_loop\<close>, whose \<open>except\<close> swallows the error\<close>
  "ship_round loads secs net st =
     (case st of (q, sh) \<Rightarrow>
        if sh_revoked sh then (([], []), q, sh)
        else (let (start, batch) = read_batch loads 100 q
              in if batch = [] then (([], []), q, sh)
                 else (case send_batch secs net sh of
                         (Inr _, sh, acts) \<Rightarrow> ((batch, acts), ack (start + length batch) q, sh)
                       | (Inl _, sh, acts) \<Rightarrow> (([], acts), q, sh))))"

fun ship_rounds ::
  "(bytes \<Rightarrow> 'a option) \<Rightarrow> (string \<Rightarrow> real option) \<Rightarrow> (nat \<Rightarrow> reply \<times> real) list \<Rightarrow> dqueue \<times> shipper \<Rightarrow>
   ('a list \<times> act list) \<times> dqueue \<times> shipper" where
  "ship_rounds loads secs [] st = (([], []), st)"
| "ship_rounds loads secs (net # ns) st =
     (let ((sent, acts), st) = ship_round loads secs net st; ((sent', acts'), st) = ship_rounds loads secs ns st
      in ((sent @ sent', acts @ acts'), st))"

definition posts :: "act list \<Rightarrow> nat" where
  "posts acts = length (filter (\<lambda>a. a = Post) acts)"

subsection \<open>Bounds of one batch\<close>

lemma posts_simps [simp]: "posts [] = 0" "posts (Post # as) = Suc (posts as)" "posts (Pause x # as) = posts as"
  "posts (as @ bs) = posts as + posts bs"
  by (simp_all add: posts_def)

lemma after_simps [simp]: "after as (r, v, bs) = (r, v, as @ bs)"
  by (simp add: after_def)

lemma send_loop_posts:
  "send_loop secs pin n i delay net = (r, v, acts) \<Longrightarrow> posts acts \<le> n \<and> (r = Inr () \<longrightarrow> 1 \<le> posts acts)"
proof (induction n arbitrary: i delay r v acts)
  case (Suc n)
  obtain r1 v1 a1 where 1: "send_loop secs pin n (Suc i) (min 60 (delay * 2)) net = (r1, v1, a1)" by (metis prod_cases3)
  obtain r2 v2 a2 where 2: "send_loop secs pin n (Suc i) delay net = (r2, v2, a2)" by (metis prod_cases3)
  from Suc.prems Suc.IH [OF 1] Suc.IH [OF 2] show ?case
    by (auto simp: 1 2 Let_def split: reply.splits if_splits option.splits)
qed simp

lemma send_loop_backoff:
  assumes "\<And>k. 0 \<le> snd (net k) \<and> snd (net k) \<le> 1" "\<And>k h. fst (net k) \<noteq> Status 429 h" "0 \<le> delay" "delay \<le> 60"
  shows "send_loop secs pin n i delay net = (r, v, acts) \<Longrightarrow> Pause x \<in> set acts \<Longrightarrow> 0 \<le> x \<and> x \<le> 75"
  using assms(3,4)
proof (induction n arbitrary: i delay r v acts)
  case (Suc n)
  obtain r1 v1 a1 where 1: "send_loop secs pin n (Suc i) (min 60 (delay * 2)) net = (r1, v1, a1)" by (metis prod_cases3)
  have "Pause x \<in> set a1 \<Longrightarrow> 0 \<le> x \<and> x \<le> 75"
    using Suc.IH [OF 1] Suc.prems(3) by simp
  moreover have "0 \<le> delay + snd (net i) * (delay / 4) \<and> delay + snd (net i) * (delay / 4) \<le> 75"
  proof -
    have "snd (net i) * (delay / 4) \<le> 1 * (delay / 4)" using assms(1) [of i] Suc.prems(3) by (intro mult_right_mono) auto
    moreover have "0 \<le> snd (net i) * (delay / 4)" using assms(1) [of i] Suc.prems(3) by simp
    ultimately show ?thesis using Suc.prems(3,4) by simp
  qed
  ultimately show ?case
    using Suc.prems(1,2) assms(2) [of i] by (auto simp: 1 Let_def split: reply.splits if_splits)
qed simp

subsection \<open>Rounds\<close>

definition attempts_of :: "shipper \<Rightarrow> nat" where
  "attempts_of sh = nat (max 1 (sh_max_retries sh))"

lemma send_batch_acts:
  assumes "send_batch secs net sh = (r, sh', acts)"
  shows "posts acts \<le> attempts_of sh" "attempts_of sh' = attempts_of sh" "sh_revoked sh \<Longrightarrow> acts = [] \<and> sh' = sh"
    "sh_pin sh' = sh_pin sh"
proof -
  obtain r1 v1 a1 where "send_loop secs (sh_pin sh) (nat (max 1 (sh_max_retries sh))) 0 1 net = (r1, v1, a1)" by (metis prod_cases3)
  with assms send_loop_posts [OF this]
  show "posts acts \<le> attempts_of sh" "attempts_of sh' = attempts_of sh" "sh_revoked sh \<Longrightarrow> acts = [] \<and> sh' = sh"
    "sh_pin sh' = sh_pin sh"
    by (auto simp: send_batch_def attempts_of_def split: if_splits)
qed

lemma ship_round_once:
  assumes "ship_round loads secs net (q, sh) = ((sent, acts), q', sh')" "\<not> sh_revoked sh"
  shows "ship_once loads (\<lambda>b. \<not> isl (fst (send_batch secs net sh))) q = (sent, q')"
  using assms by (auto simp: ship_round_def ship_once_def Let_def split: prod.splits if_splits sum.splits)

lemma ship_round_spec:
  assumes "whole loads q" "ship_round loads secs net (q, sh) = ((sent, acts), q', sh')"
  shows "whole loads q' \<and> sent @ waiting loads q' = waiting loads q"
    and "posts acts \<le> attempts_of sh \<and> attempts_of sh' = attempts_of sh"
    and "sh_revoked sh \<Longrightarrow> sent = [] \<and> acts = [] \<and> q' = q \<and> sh' = sh"
proof -
  show "whole loads q' \<and> sent @ waiting loads q' = waiting loads q"
  proof (cases "sh_revoked sh")
    case True
    with assms show ?thesis by (simp add: ship_round_def)
  next
    case False
    from ship_survives_restart [OF assms(1), of "\<lambda>b. \<not> isl (fst (send_batch secs net sh))"] ship_round_once [OF assms(2) False]
    show ?thesis using restart_whole by fastforce
  qed
  obtain r sh1 a1 where b: "send_batch secs net sh = (r, sh1, a1)" by (metis prod_cases3)
  from assms(2) send_batch_acts [OF b]
  show "posts acts \<le> attempts_of sh \<and> attempts_of sh' = attempts_of sh"
    by (auto simp: ship_round_def b split: if_splits prod.splits sum.splits)
  show "sh_revoked sh \<Longrightarrow> sent = [] \<and> acts = [] \<and> q' = q \<and> sh' = sh"
    using assms(2) by (simp add: ship_round_def)
qed

text \<open>C18: Over any number of rounds and whatever the server answers, what was acknowledged followed by what still waits on
  the disk is what waited before, in order; no round sends more requests than the retry limit; and once the token
  was rejected, nothing is sent any more and the queue stays as it is.\<close>

theorem shipping_keeps_order:
  assumes "whole loads q" "ship_rounds loads secs rounds (q, sh) = ((sent, acts), q', sh')"
  shows "whole loads q' \<and> sent @ waiting loads q' = waiting loads q \<and>
    posts acts \<le> length rounds * attempts_of sh \<and>
    (sh_revoked sh \<longrightarrow> sent = [] \<and> acts = [] \<and> q' = q \<and> sh_revoked sh')"
  using assms
proof (induction rounds arbitrary: q sh sent acts)
  case (Cons net ns)
  obtain s1 a1 q1 sh1 where 1: "ship_round loads secs net (q, sh) = ((s1, a1), q1, sh1)" by (metis prod.exhaust)
  obtain s2 a2 where 2: "ship_rounds loads secs ns (q1, sh1) = ((s2, a2), q', sh')" "sent = s1 @ s2" "acts = a1 @ a2"
    using Cons.prems(2) by (auto simp: 1 split: prod.splits)
  from ship_round_spec [OF Cons.prems(1) 1] have w: "whole loads q1" "s1 @ waiting loads q1 = waiting loads q"
    "posts a1 \<le> attempts_of sh" "attempts_of sh1 = attempts_of sh" "sh_revoked sh \<longrightarrow> s1 = [] \<and> a1 = [] \<and> q1 = q \<and> sh1 = sh"
    by auto
  from Cons.IH [OF w(1) 2(1)] w show ?case by (auto simp: 2(2,3))
qed simp

subsection \<open>A rejected batch\<close>

definition rejects :: "(nat \<Rightarrow> reply \<times> real) \<Rightarrow> bool" where
  \<comment> \<open>the server answers the first request with a client error other than 401 and 429\<close>
  "rejects net \<longleftrightarrow>
     (case fst (net 0) of Status code h \<Rightarrow> 400 \<le> code \<and> code < 500 \<and> code \<noteq> 401 \<and> code \<noteq> 429 | _ \<Rightarrow> False)"

lemma send_batch_rejected:
  assumes "rejects net" "\<not> sh_revoked sh"
  shows "send_batch secs net sh = (Inl Value_Error, sh, [Post])"
proof -
  obtain n where "nat (max 1 (sh_max_retries sh)) = Suc n" by (cases "nat (max 1 (sh_max_retries sh))") auto
  with assms show ?thesis by (auto simp: send_batch_def rejects_def Let_def split: reply.splits)
qed

text \<open>C25: A batch that the server rejects for good is never given up: every round posts it again, once, and nothing behind
  it is ever sent.\<close>

theorem rejected_batch_blocks_queue:
  assumes "whole loads q" "waiting loads q \<noteq> []" "\<not> sh_revoked sh" "list_all rejects rounds"
  shows "ship_rounds loads secs rounds (q, sh) = (([], replicate (length rounds) Post), q, sh)"
  using assms(4)
proof (induction rounds)
  case (Cons net ns)
  obtain start batch where b: "read_batch loads 100 q = (start, batch)" by (cases "read_batch loads 100 q")
  then have "batch \<noteq> []" using read_whole(1) [OF assms(1), of 100] assms(2) by (simp add: take_batch_def)
  then have "ship_round loads secs net (q, sh) = (([], [Post]), q, sh)"
    using Cons.prems b assms(3) by (simp add: ship_round_def send_batch_rejected)
  with Cons show ?case by simp
qed simp

subsection \<open>Where it goes wrong\<close>

text \<open>The pin is compared when the answer is there: a server with another key has the token and the batch by then.\<close>

lemma pin_checked_after_sending:
  assumes "fst (net 0) = Answered peer readable" "\<not> pin_ok (sh_pin sh) peer" "\<not> sh_revoked sh"
  shows "send_batch secs net sh = (Inl Value_Error, sh, [Post])"
proof -
  obtain n where "nat (max 1 (sh_max_retries sh)) = Suc n" by (cases "nat (max 1 (sh_max_retries sh))") auto
  with assms show ?thesis by (simp add: send_batch_def)
qed

text \<open>A batch that the server took is sent again when its answer is not JSON, and a \<open>Retry-After\<close> that is a date ends
  the attempts.\<close>

lemma taken_but_unreadable:
  assumes "fst (net 0) = Answered peer False" "\<not> sh_revoked sh"
  shows "fst (send_batch secs net sh) = Inl Value_Error"
proof -
  obtain n where "nat (max 1 (sh_max_retries sh)) = Suc n" by (cases "nat (max 1 (sh_max_retries sh))") auto
  with assms show ?thesis by (simp add: send_batch_def)
qed

lemma retry_after_date:
  assumes "fst (net 0) = Status 429 (Some h)" "h \<noteq> ''''" "secs h = None" "\<not> sh_revoked sh"
  shows "fst (send_batch secs net sh) = Inl Value_Error"
proof -
  obtain n where "nat (max 1 (sh_max_retries sh)) = Suc n" by (cases "nat (max 1 (sh_max_retries sh))") auto
  with assms show ?thesis by (simp add: send_batch_def wait_of_def)
qed

section \<open>Which sensors a user sees\<close>

record heartbeat =
  hb_agent_id :: string
  hb_ts :: time
  hb_org_id :: "string option"

definition agent_key :: "string \<Rightarrow> string" where
  "agent_key agent_id = ''cipherpost:agents:'' @ agent_id"

definition beat :: "string \<Rightarrow> string option \<Rightarrow> time \<Rightarrow> (string, heartbeat) dict \<Rightarrow> (string, heartbeat) dict" where
  \<comment> \<open>the identity of the heartbeat; \<open>info\<close> carries the organisation when one is configured. Expiry of the key is
     the business of Redis\<close>
  "beat agent_id org now keys =
     dset (agent_key agent_id) \<lparr>hb_agent_id = agent_id, hb_ts = now, hb_org_id = org\<rparr> keys"

definition sees_agent :: "string option \<Rightarrow> bool \<Rightarrow> bool \<Rightarrow> heartbeat \<Rightarrow> bool" where
  "sees_agent org single_tenant is_platform h \<longleftrightarrow>
     is_platform \<or> hb_org_id h \<noteq> None \<and> hb_org_id h = org \<or> single_tenant \<and> \<not> truthy_opt (hb_org_id h)"

fun insort_agent :: "heartbeat \<times> bool \<Rightarrow> (heartbeat \<times> bool) list \<Rightarrow> (heartbeat \<times> bool) list" where
  "insort_agent x [] = [x]"
| "insort_agent x (y # ys) =
     (if text_less (hb_agent_id (fst y)) (hb_agent_id (fst x)) then y # insort_agent x ys else x # y # ys)"

definition list_agents :: "time \<Rightarrow> time \<Rightarrow> string option \<Rightarrow> bool \<Rightarrow> bool \<Rightarrow> (string \<times> heartbeat option) list \<Rightarrow> (heartbeat \<times> bool) list" where
  \<comment> \<open>every agent with its flag \<open>online\<close>; a value that is gone or unreadable is \<open>None\<close>\<close>
  "list_agents now max_age org single_tenant is_platform entries =
     foldr insort_agent
       (map (\<lambda>h. (h, now - hb_ts h \<le> max_age))
         (filter (sees_agent org single_tenant is_platform) (List.map_filter snd entries))) []"

lemma insort_agent_set [simp]: "set (insort_agent x ys) = insert x (set ys)"
  by (induction ys) auto

lemma listed_agents:
  "(h, online) \<in> set (list_agents now max_age org single_tenant is_platform entries) \<longleftrightarrow>
   (\<exists>k. (k, Some h) \<in> set entries) \<and> sees_agent org single_tenant is_platform h \<and> (online \<longleftrightarrow> now - hb_ts h \<le> max_age)"
proof -
  have "set (foldr insort_agent xs []) = set xs" for xs by (induction xs) simp_all
  then show ?thesis by (auto simp: list_agents_def map_filter_def image_iff) force+
qed

text \<open>With several tenants a user sees the sensors of the own organisation only.\<close>

lemma agents_isolated:
  "(h, online) \<in> set (list_agents now max_age (Some org) False False entries) \<Longrightarrow> hb_org_id h = Some org"
  by (simp add: listed_agents sees_agent_def)

section \<open>Instances\<close>

definition demo_side :: "string \<Rightarrow> string \<Rightarrow> session" where
  "demo_side c s = new_session (c, 40000) (s, 25) 0"

lemma demo_addresses:
  "ipv4_int ''10.0.0.7'' = Some 167772167" "ipv4_int ''10.0.0.9'' = Some 167772169" "ipv4_int ''10.0.1.25'' = Some 167772441"
  by (simp_all add: ipv4_int_def octet_def all_digits_def is_digit_def dec_value_def)


definition demo_shipper :: shipper where
  "demo_shipper = \<lparr>sh_pin = '''', sh_max_retries = 6, sh_revoked = False\<rparr>"

lemma shipping_keeps_order_witness:
  "\<exists>sent acts q' sh'. ship_rounds Some (\<lambda>s. None) [\<lambda>i. (Answered None True, 0)] (tiny_queue, demo_shipper) = ((sent, acts), q', sh') \<and>
     sent @ waiting Some q' = waiting Some tiny_queue \<and> posts acts \<le> 6"
proof -
  obtain sent acts q' sh' where r: "ship_rounds Some (\<lambda>s. None) [\<lambda>i. (Answered None True, 0)] (tiny_queue, demo_shipper)
      = ((sent, acts), q', sh')" by (metis prod.exhaust)
  from shipping_keeps_order [OF tiny_whole r] show ?thesis
    using r by (auto simp: attempts_of_def demo_shipper_def)
qed

lemma rejected_batch_blocks_queue_witness:
  "ship_rounds Some (\<lambda>s. None) [\<lambda>i. (Status 413 None, 0), \<lambda>i. (Status 413 None, 0)] (tiny_queue, demo_shipper)
   = (([], [Post, Post]), tiny_queue, demo_shipper)"
proof -
  have "waiting Some tiny_queue \<noteq> []" by (simp add: waiting_def tiny_queue_def reopen_def file_lines_def newline_def)
  from rejected_batch_blocks_queue [OF tiny_whole this, of demo_shipper "[\<lambda>i. (Status 413 None, 0), \<lambda>i. (Status 413 None, 0)]" "\<lambda>s. None"]
  show ?thesis by (simp add: demo_shipper_def rejects_def)
qed

end
