(* ===== verification/Alert_State.thy ===== *)
theory Alert_State
  imports Auth
begin

text \<open>
  Shared alert state (src/backend/app/live/alert_state.py): deduplication, the rate budget and the
  grouping of findings by rule and server. The answers of Redis are inputs, \<open>None\<close> when it is not
  reachable; then the in-memory fallback decides, which is the state here. A finding that travels on
  the bus is an \<open>event\<close>: its scalar members as a dictionary, its nested findings and evidence, and its
  numbers that are not integers.
\<close>

section \<open>Deduplication and rate\<close>

record alert_state =
  as_dedup :: "(string, time) dict"
  as_rate :: "time list"
  as_window :: time
  as_per_minute :: nat

definition trim_dedup :: "(string, time) dict \<Rightarrow> (string, time) dict" where
  \<comment> \<open>above 5000 keys the 1000 oldest go\<close>
  "trim_dedup d =
     (if 5000 < length d then fold (\<lambda>(k, t) d. ddel k d) (take 1000 (sort_key snd d)) d else d)"

definition check_and_set_dedup :: "bool option \<Rightarrow> time \<Rightarrow> string \<Rightarrow> alert_state \<Rightarrow> bool \<times> alert_state" where
  "check_and_set_dedup redis now key s =
     (case redis of
        Some ok \<Rightarrow> (ok, s)
      | None \<Rightarrow>
          if now - dget_or (as_dedup s) key 0 < as_window s then (False, s)
          else (True, s\<lparr>as_dedup := trim_dedup (dset key now (as_dedup s))\<rparr>))"

definition check_rate :: "nat option \<Rightarrow> time \<Rightarrow> alert_state \<Rightarrow> bool \<times> alert_state" where
  \<comment> \<open>\<open>redis\<close> is the cardinality of the sorted set after this attempt was added\<close>
  "check_rate redis now s =
     (case redis of
        Some n \<Rightarrow> (n \<le> as_per_minute s, s)
      | None \<Rightarrow>
          (let recent = filter (\<lambda>t. now - 60 < t) (as_rate s)
           in if as_per_minute s \<le> length recent then (False, s\<lparr>as_rate := recent\<rparr>)
              else (True, s\<lparr>as_rate := recent @ [now]\<rparr>)))"

definition rate_step :: "time \<Rightarrow> time list \<times> alert_state \<Rightarrow> time list \<times> alert_state" where
  \<comment> \<open>an attempt while Redis is away, with the list of the attempts that were let through\<close>
  "rate_step now st =
     (let (ok, s) = check_rate None now (snd st) in (if ok then fst st @ [now] else fst st, s))"

lemma rate_invariant:
  assumes "sorted ts" "as_rate s = []"
  shows "case fold rate_step ts ([], s) of (ok, s') \<Rightarrow>
    as_per_minute s' = as_per_minute s \<and> set ok \<subseteq> set ts \<and>
    (\<forall>u. (\<forall>t\<in>set ts. t \<le> u) \<longrightarrow> filter (\<lambda>t. u - 60 < t) (as_rate s') = filter (\<lambda>t. u - 60 < t) ok) \<and>
    (\<forall>u. length (filter (\<lambda>t. u - 60 < t \<and> t \<le> u) ok) \<le> as_per_minute s)"
  using assms(1)
proof (induction ts rule: rev_induct)
  case Nil
  then show ?case by (simp add: assms(2))
next
  case (snoc t ts)
  obtain ok s' where f: "fold rate_step ts ([], s) = (ok, s')" by fastforce
  have ih: "as_per_minute s' = as_per_minute s" "set ok \<subseteq> set ts"
    "\<And>u. \<forall>t\<in>set ts. t \<le> u \<Longrightarrow> filter (\<lambda>t. u - 60 < t) (as_rate s') = filter (\<lambda>t. u - 60 < t) ok"
    "\<And>u. length (filter (\<lambda>t. u - 60 < t \<and> t \<le> u) ok) \<le> as_per_minute s"
    using snoc f by (auto simp: sorted_append)
  have le: "\<forall>x\<in>set ts. x \<le> t" using snoc.prems by (simp add: sorted_append)
  then have recent: "filter (\<lambda>x. t - 60 < x) (as_rate s') = filter (\<lambda>x. t - 60 < x) ok" by (rule ih(3))
  have nested: "filter (\<lambda>x. u - 60 < x) (filter (\<lambda>x. t - 60 < x) xs) = filter (\<lambda>x. u - 60 < x) xs"
    if "t \<le> u" for u and xs :: "time list"
    using that by (induction xs) auto
  show ?case
  proof (cases "as_per_minute s \<le> length (filter (\<lambda>x. t - 60 < x) ok)")
    case True
    then have "fold rate_step (ts @ [t]) ([], s) = (ok, s'\<lparr>as_rate := filter (\<lambda>x. t - 60 < x) ok\<rparr>)"
      by (simp add: f rate_step_def check_rate_def recent ih(1))
    with ih nested show ?thesis by (auto simp del: filter_filter)
  next
    case False
    then have step: "fold rate_step (ts @ [t]) ([], s)
        = (ok @ [t], s'\<lparr>as_rate := filter (\<lambda>x. t - 60 < x) ok @ [t]\<rparr>)"
      by (simp add: f rate_step_def check_rate_def recent ih(1))
    have "length (filter (\<lambda>x. u - 60 < x \<and> x \<le> u) (ok @ [t])) \<le> as_per_minute s" for u
    proof (cases "t \<le> u")
      case True
      then have "length (filter (\<lambda>x. u - 60 < x \<and> x \<le> u) ok) \<le> length (filter (\<lambda>x. t - 60 < x) ok)"
        by (induction ok) auto
      with False show ?thesis by simp
    next
      case False
      with ih(4) [of u] show ?thesis by simp
    qed
    with ih nested step show ?thesis by (auto simp del: filter_filter)
  qed
qed

text \<open>While Redis is away, no window of sixty seconds ever contains more alerts than the budget
  allows, whatever the attempts.\<close>

theorem rate_budget:
  assumes "sorted ts" "as_rate s = []"
  shows "length (filter (\<lambda>t. u - 60 < t \<and> t \<le> u) (fst (fold rate_step ts ([], s)))) \<le> as_per_minute s"
  using rate_invariant [OF assms] by (auto split: prod.splits)

lemma rate_budget_witness:
  "length (filter (\<lambda>t. 61 - 60 < t \<and> t \<le> 61) (fst (fold rate_step [0, 1, 2, 61]
     ([], \<lparr>as_dedup = [], as_rate = [], as_window = 300, as_per_minute = 2\<rparr>)))) \<le> 2"
  using rate_budget [of "[0, 1, 2, 61]" "\<lparr>as_dedup = [], as_rate = [], as_window = 300, as_per_minute = 2\<rparr>" 61]
  by simp

section \<open>Groups\<close>

definition value_text :: "jval \<Rightarrow> string" where
  \<comment> \<open>\<open>str(v)\<close>\<close>
  "value_text v = (case v of JNull \<Rightarrow> ''None'' | JBool b \<Rightarrow> if b then ''True'' else ''False''
     | JInt i \<Rightarrow> dec_int i | JStr s \<Rightarrow> s)"

definition get_truthy :: "claims \<Rightarrow> string \<Rightarrow> string option" where
  \<comment> \<open>the text of \<open>finding.get(k)\<close> when it is true\<close>
  "get_truthy f k = (case dget f k of None \<Rightarrow> None | Some v \<Rightarrow> if truthy v then Some (value_text v) else None)"

definition first_of :: "string option list \<Rightarrow> string \<Rightarrow> string" where
  \<comment> \<open>\<open>a or b or ... or d\<close>\<close>
  "first_of xs d = (case find (\<lambda>x. x \<noteq> None) xs of Some (Some s) \<Rightarrow> s | _ \<Rightarrow> d)"

definition server_host_of :: "claims \<Rightarrow> string" where
  "server_host_of f =
     (let ft = first_of [get_truthy f ''five_tuple''] '''';
          (client, cport, server, port) = split_five_tuple ft;
          fallback = (if CHR '':'' \<in> set ft \<and> server \<noteq> '''' then server
                      else if ft = '''' then ''unknown'' else ft)
      in first_of (map (get_truthy f) [''server'', ''mx_host'', ''host'', ''dst_ip'']) fallback)"

definition rule_text :: "claims \<Rightarrow> string" where
  "rule_text f = (case dget f ''rule_id'' of None \<Rightarrow> ''unknown'' | Some v \<Rightarrow> value_text v)"

definition group_key_of :: "claims \<Rightarrow> string" where
  "group_key_of f = rule_text f @ '':'' @ server_host_of f"

record event =
  ev :: claims
  ev_findings :: "claims list"
  ev_evidence :: claims
  ev_risk :: "real option"
  ev_first_seen :: "time option"
  ev_last_seen :: "time option"
  ev_ts :: "time option"

definition get_val :: "claims \<Rightarrow> string \<Rightarrow> jval" where
  \<comment> \<open>\<open>finding.get(k)\<close>\<close>
  "get_val f k = (case dget f k of None \<Rightarrow> JNull | Some v \<Rightarrow> v)"

definition or_val :: "jval \<Rightarrow> jval \<Rightarrow> jval" where
  \<comment> \<open>\<open>a or b\<close>\<close>
  "or_val a b = (if truthy a then a else b)"

record bucket =
  b_rule_id :: jval
  b_server :: string
  b_severity :: jval
  b_title :: jval
  b_description :: jval
  b_protocol :: jval
  b_org_id :: jval
  b_risk :: "real option"
  b_count :: nat
  b_first_seen :: time
  b_last_seen :: time
  b_deadline :: time
  b_sample :: event

definition severity_order :: "string \<Rightarrow> nat" where
  "severity_order s = dget_or [(''info'', 0), (''low'', 1), (''medium'', 2), (''high'', 3), (''critical'', 4)] s 0"

definition severity_val :: "claims \<Rightarrow> jval" where
  \<comment> \<open>\<open>finding.get("max_severity") or finding.get("severity")\<close>\<close>
  "severity_val f = or_val (get_val f ''max_severity'') (get_val f ''severity'')"

definition add_finding :: "time \<Rightarrow> event \<Rightarrow> time \<Rightarrow> (string, bucket) dict \<Rightarrow> (string, bucket) dict" where
  "add_finding hold e now bs =
     (let f = ev e; key = group_key_of f
      in case dget bs key of
           None \<Rightarrow> dset key \<lparr>b_rule_id = (case dget f ''rule_id'' of None \<Rightarrow> JStr ''unknown'' | Some v \<Rightarrow> v),
               b_server = server_host_of f,
               b_severity = or_val (severity_val f) (JStr ''info''),
               b_title = or_val (get_val f ''title'') (JStr []),
               b_description = or_val (get_val f ''description'') (JStr []),
               b_protocol = (case dget f ''protocol'' of None \<Rightarrow> JStr [] | Some v \<Rightarrow> v),
               b_org_id = get_val f ''org_id'', b_risk = ev_risk e, b_count = 1,
               b_first_seen = now, b_last_seen = now, b_deadline = now + hold, b_sample = e\<rparr> bs
         | Some b \<Rightarrow>
             (let b = b\<lparr>b_count := b_count b + 1, b_last_seen := now\<rparr>
              in dset key (if severity_order (value_text (b_severity b)) < severity_order (value_text (severity_val f))
                           then b\<lparr>b_severity := severity_val f,
                                  b_title := or_val (get_val f ''title'') (b_title b)\<rparr>
                           else b) bs))"

definition flush_expired :: "time \<Rightarrow> (string, bucket) dict \<Rightarrow> (string \<times> bucket) list \<times> (string, bucket) dict" where
  \<comment> \<open>the grouped alerts with their keys, and the buckets that stay\<close>
  "flush_expired now bs =
     (filter (\<lambda>(k, b). b_deadline b \<le> now) bs, filter (\<lambda>(k, b). \<not> b_deadline b \<le> now) bs)"

datatype group_op = Add_Finding event time | Flush_At time

fun group_run :: "time \<Rightarrow> group_op list \<Rightarrow> (string, bucket) dict \<Rightarrow> (string \<times> bucket) list \<times> (string, bucket) dict" where
  \<comment> \<open>everything that was emitted, and the buckets at the end\<close>
  "group_run hold [] bs = ([], bs)"
| "group_run hold (Add_Finding f now # ops) bs = group_run hold ops (add_finding hold f now bs)"
| "group_run hold (Flush_At now # ops) bs =
     (let (out, bs) = flush_expired now bs; (out', bs) = group_run hold ops bs in (out @ out', bs))"

definition key_count :: "string \<Rightarrow> (string \<times> bucket) list \<Rightarrow> nat" where
  "key_count k bs = sum_list (map (\<lambda>p. if fst p = k then b_count (snd p) else 0) bs)"

definition adds_of :: "string \<Rightarrow> group_op list \<Rightarrow> nat" where
  "adds_of k ops = length (filter (\<lambda>op. case op of Add_Finding e t \<Rightarrow> group_key_of (ev e) = k | Flush_At t \<Rightarrow> False) ops)"

lemma key_count_simps [simp]:
  "key_count k [] = 0"
  "key_count k ((j, b) # bs) = (if j = k then b_count b else 0) + key_count k bs"
  "key_count k (xs @ ys) = key_count k xs + key_count k ys"
  by (simp_all add: key_count_def)

lemma key_count_absent: "dget bs k = None \<Longrightarrow> key_count k bs = 0"
  by (induction bs) (auto split: if_splits)

lemma key_count_dset:
  "dict_ok bs \<Longrightarrow> key_count k (dset j b bs) =
     (if j = k then b_count b else key_count k bs)"
proof (induction bs)
  case Nil
  then show ?case by simp
next
  case (Cons p bs)
  have "key_count j bs = 0" if "j \<notin> fst ` set bs" for j
    using that by (intro key_count_absent) (simp add: map_of_eq_None_iff)
  with Cons show ?case by (cases p) (auto simp: dict_ok_def)
qed

lemma key_count_get: "dict_ok bs \<Longrightarrow> dget bs k = Some b \<Longrightarrow> key_count k bs = b_count b"
  using key_count_dset [of bs k k b] by (simp add: update_triv)

lemma add_counts:
  assumes "dict_ok bs"
  shows "key_count k (add_finding hold e now bs) = key_count k bs + (if group_key_of (ev e) = k then 1 else 0)"
  using assms key_count_absent [of bs "group_key_of (ev e)"] key_count_get [of bs "group_key_of (ev e)"]
  by (auto simp: add_finding_def Let_def key_count_dset split: option.splits)

lemma dict_ok_add [simp]: "dict_ok bs \<Longrightarrow> dict_ok (add_finding hold f now bs)"
  by (auto simp: add_finding_def Let_def split: option.splits)

lemma dict_ok_filter [simp]: "dict_ok bs \<Longrightarrow> dict_ok (filter P bs)"
  by (simp add: dict_ok_def distinct_map_filter)

lemma flush_counts: "key_count k (filter P bs) + key_count k (filter (\<lambda>p. \<not> P p) bs) = key_count k bs"
  by (induction bs) auto

text \<open>Grouping loses and invents nothing: for every group, the occurrences that the emitted alerts
  count and those that still wait add up to the findings that were added, over any sequence of
  additions and flushes.\<close>

theorem groups_account:
  "case group_run hold ops [] of (out, bs) \<Rightarrow> key_count k out + key_count k bs = adds_of k ops"
proof -
  have "dict_ok bs \<Longrightarrow> group_run hold ops bs = (out, bs') \<Longrightarrow>
      key_count k out + key_count k bs' = key_count k bs + adds_of k ops" for bs bs' out
  proof (induction hold ops bs arbitrary: out bs' rule: group_run.induct)
    case (1 hold bs)
    then show ?case by (simp add: adds_of_def)
  next
    case (2 hold f now ops bs)
    with 2(1) [of out bs'] show ?case by (auto simp: add_counts adds_of_def)
  next
    case (3 hold now ops bs)
    let ?keep = "filter (\<lambda>(k, b). \<not> b_deadline b \<le> now) bs"
    obtain out2 bs2 where r: "group_run hold ops ?keep = (out2, bs2)" by fastforce
    have "key_count k out2 + key_count k bs2 = key_count k ?keep + adds_of k ops"
      using 3(1) [OF _ refl, of "filter (\<lambda>(k, b). b_deadline b \<le> now) bs" ?keep out2 bs2] 3(2) r
      by (simp add: flush_expired_def)
    with 3(3) r flush_counts [of k "\<lambda>(k, b). b_deadline b \<le> now" bs] show ?case
      by (auto simp: flush_expired_def adds_of_def split_beta')
  qed
  from this [of "[]"] show ?thesis by (auto split: prod.splits)
qed

lemma groups_ignore_the_organisation:
  \<comment> \<open>the organisation is not part of the group key: findings of two tenants about the same server are one
     alert, under the organisation of the first\<close>
  assumes "group_key_of (ev g) = group_key_of (ev f)" "dget (ev f) ''org_id'' \<noteq> dget (ev g) ''org_id''"
  shows "\<exists>b. dget (add_finding hold g t2 (add_finding hold f t1 [])) (group_key_of (ev f)) = Some b \<and>
    b_count b = 2 \<and> b_org_id b = get_val (ev f) ''org_id''"
  using assms(1) by (simp add: add_finding_def Let_def)

lemma duplicate_within_window:
  "fst (check_and_set_dedup None now key s) \<Longrightarrow> length (as_dedup s) < 5000 \<Longrightarrow> now \<le> u \<Longrightarrow> u - now < as_window s \<Longrightarrow>
     \<not> fst (check_and_set_dedup None u key (snd (check_and_set_dedup None now key s)))"
  using length_dset_le [of key now "as_dedup s"]
  by (auto simp: check_and_set_dedup_def trim_dedup_def dget_or_def split: if_splits)

end
