(* ===== verification/Suppressions.thy ===== *)
theory Suppressions
  imports IP_Address OIDC Alert_State
begin

text \<open>
  Accepted risks (src/backend/app/proactive/suppressions.py) and their handlers in
  src/backend/app/api/main.py. A suppression names a rule and a scope; it takes effect for a finding
  when it is approved, not expired, and every dimension of its scope matches. The scope is JSON that the
  handlers store without looking at it: each dimension is a list of scalars, and lowering one that is
  not text raises, which is \<open>None\<close> here.
\<close>

section \<open>What a finding offers\<close>

definition text_or_empty :: "jval \<Rightarrow> string" where
  \<comment> \<open>\<open>str(v or "")\<close>\<close>
  "text_or_empty v = (if truthy v then value_text v else '''')"

definition five_tuple_of :: "claims \<Rightarrow> string" where
  "five_tuple_of f = text_or_empty (get_val f ''five_tuple'')"

definition finding_hosts :: "claims \<Rightarrow> string list" where
  "finding_hosts f =
     (let named = map value_text (filter truthy (map (get_val f) [''server'', ''host'', ''dst_ip'', ''src_ip'', ''sni'']));
          ft = five_tuple_of f;
          (client, cport, server, sport) = split_five_tuple ft
      in if CHR '':'' \<in> set ft then named @ filter (\<lambda>h. h \<noteq> '''') [client, server] else named)"

definition finding_ports :: "claims \<Rightarrow> int list" where
  "finding_ports f =
     (let named = List.map_filter (\<lambda>k. int_claim (get_val f k)) [''server_port'', ''src_port'', ''dst_port'', ''port''];
          ft = five_tuple_of f;
          (client, cport, server, sport) = split_five_tuple ft
      in if CHR '':'' \<in> set ft then named @ filter (\<lambda>p. p \<noteq> 0) [cport, sport] else named)"

definition dotted :: "claims \<Rightarrow> string list \<Rightarrow> string list" where
  "dotted c ks =
     map str_lower (filter (\<lambda>s. CHR ''.'' \<in> set s) (map value_text (filter truthy (map (get_val c) ks))))"

definition finding_domains :: "event \<Rightarrow> string list" where
  "finding_domains e =
     dotted (ev e) [''sni'', ''server'', ''host'', ''domain''] @
     dotted (ev_evidence e) [''sni'', ''hostname'', ''domain'', ''cn'']"

section \<open>Scopes\<close>

record scope =
  sc_hosts :: "jval list"
  sc_cidrs :: "jval list"
  sc_domains :: "jval list"
  sc_ports :: "jval list"

fun lower_all :: "jval list \<Rightarrow> string list option" where
  "lower_all [] = Some []"
| "lower_all (JStr s # vs) = map_option ((#) (str_lower s)) (lower_all vs)"
| "lower_all (v # vs) = None"

definition net_of :: "jval \<Rightarrow> net option" where
  \<comment> \<open>\<open>ip_network(c, strict=False)\<close>: an integer is an address\<close>
  "net_of v =
     (case v of
        JStr s \<Rightarrow> ip_network s
      | JNull \<Rightarrow> None
      | _ \<Rightarrow> (case int_claim v of
                None \<Rightarrow> None
              | Some i \<Rightarrow> if i < 0 then None else if i < 2 ^ 32 then Some (Net4 (nat i) 32)
                          else if i < 2 ^ 128 then Some (Net6 (nat i) 128) else None))"

definition cidr_hit :: "jval list \<Rightarrow> string list \<Rightarrow> bool" where
  "cidr_hit cidrs hosts =
     list_ex (\<lambda>c. case net_of c of
                    None \<Rightarrow> False
                  | Some n \<Rightarrow> list_ex (\<lambda>h. case ip_address h of None \<Rightarrow> False | Some a \<Rightarrow> in_net a n) hosts) cidrs"

definition wanted_ports :: "jval list \<Rightarrow> int list" where
  \<comment> \<open>one value that is no number empties the set\<close>
  "wanted_ports ps = (if list_all (\<lambda>p. int_claim p \<noteq> None) ps then map (the \<circ> int_claim) ps else [])"

definition scope_matches :: "scope \<Rightarrow> event \<Rightarrow> bool option" where
  "scope_matches sc e =
     (case lower_all (sc_hosts sc) of
        None \<Rightarrow> None
      | Some hosts \<Rightarrow>
          if hosts \<noteq> [] \<and> \<not> list_ex (\<lambda>h. h \<in> set (map str_lower (finding_hosts (ev e)))) hosts then Some False
          else if sc_cidrs sc \<noteq> [] \<and> \<not> cidr_hit (sc_cidrs sc) (finding_hosts (ev e)) then Some False
          else (case lower_all (sc_domains sc) of
                  None \<Rightarrow> None
                | Some domains \<Rightarrow>
                    if domains \<noteq> [] \<and> \<not> list_ex (\<lambda>d. list_ex (\<lambda>p. glob p d) domains) (finding_domains e)
                    then Some False
                    else if sc_ports sc \<noteq> [] \<and>
                            \<not> list_ex (\<lambda>p. p \<in> set (finding_ports (ev e))) (wanted_ports (sc_ports sc))
                    then Some False
                    else Some True))"

record suppression =
  sup_id :: nat
  sup_org_id :: string
  sup_rule_id :: string
  sup_scope :: scope
  sup_reason :: string
  sup_created_by :: string
  sup_status :: string
  sup_created_at :: time
  sup_expires_at :: time

definition is_active :: "time \<Rightarrow> suppression \<Rightarrow> bool" where
  "is_active now s \<longleftrightarrow> sup_status s = ''approved'' \<and> now < sup_expires_at s"

fun match_suppression :: "time \<Rightarrow> string \<Rightarrow> event \<Rightarrow> suppression list \<Rightarrow> suppression option option" where
  \<comment> \<open>\<open>None\<close> when a scope raises\<close>
  "match_suppression now rule e [] = Some None"
| "match_suppression now rule e (s # ss) =
     (if sup_rule_id s \<noteq> rule \<and> sup_rule_id s \<noteq> ''*'' then match_suppression now rule e ss
      else if \<not> is_active now s then match_suppression now rule e ss
      else (case scope_matches (sup_scope s) e of
              None \<Rightarrow> None
            | Some True \<Rightarrow> Some (Some s)
            | Some False \<Rightarrow> match_suppression now rule e ss))"

definition filter_active :: "time \<Rightarrow> suppression list \<Rightarrow> suppression list" where
  "filter_active now rows = filter (is_active now) rows"

section \<open>What a scope means\<close>

definition scope_ok :: "scope \<Rightarrow> bool" where
  \<comment> \<open>hosts and domains are text\<close>
  "scope_ok sc \<longleftrightarrow> (\<forall>v \<in> set (sc_hosts sc) \<union> set (sc_domains sc). \<exists>s. v = JStr s)"

definition covers :: "scope \<Rightarrow> event \<Rightarrow> bool" where
  \<comment> \<open>every dimension that is given has an entry that matches\<close>
  "covers sc e \<longleftrightarrow>
     (sc_hosts sc = [] \<or>
        (\<exists>h x. JStr h \<in> set (sc_hosts sc) \<and> x \<in> set (finding_hosts (ev e)) \<and> str_lower h = str_lower x)) \<and>
     (sc_cidrs sc = [] \<or>
        (\<exists>c n x a. c \<in> set (sc_cidrs sc) \<and> net_of c = Some n \<and> x \<in> set (finding_hosts (ev e)) \<and>
           ip_address x = Some a \<and> in_net a n)) \<and>
     (sc_domains sc = [] \<or>
        (\<exists>p d. JStr p \<in> set (sc_domains sc) \<and> d \<in> set (finding_domains e) \<and> glob (str_lower p) d)) \<and>
     (sc_ports sc = [] \<or>
        (\<forall>p \<in> set (sc_ports sc). int_claim p \<noteq> None) \<and>
        (\<exists>p i. p \<in> set (sc_ports sc) \<and> int_claim p = Some i \<and> i \<in> set (finding_ports (ev e))))"

lemma lower_all_text:
  "\<forall>v \<in> set vs. \<exists>s. v = JStr s \<Longrightarrow> \<exists>ts. lower_all vs = Some ts \<and> (ts = [] \<longleftrightarrow> vs = []) \<and>
     set ts = {str_lower s | s. JStr s \<in> set vs}"
proof (induction vs)
  case Nil
  then show ?case by simp
next
  case (Cons v vs)
  then obtain s ts where "v = JStr s" "lower_all vs = Some ts" "set ts = {str_lower s | s. JStr s \<in> set vs}"
    by auto
  then show ?case by auto
qed

lemma cidr_hit_iff:
  "cidr_hit cs hs \<longleftrightarrow>
     (\<exists>c n x a. c \<in> set cs \<and> net_of c = Some n \<and> x \<in> set hs \<and> ip_address x = Some a \<and> in_net a n)"
  by (fastforce simp: cidr_hit_def list_ex_iff split: option.splits)

lemma wanted_hit:
  "list_ex P (wanted_ports ps) \<longleftrightarrow>
     (\<forall>p \<in> set ps. int_claim p \<noteq> None) \<and> (\<exists>p i. p \<in> set ps \<and> int_claim p = Some i \<and> P i)"
proof (cases "\<forall>p \<in> set ps. int_claim p \<noteq> None")
  case True
  then have "list_ex P (wanted_ports ps) \<longleftrightarrow> (\<exists>p \<in> set ps. P (the (int_claim p)))"
    by (simp add: wanted_ports_def list_ex_iff list_all_iff)
  with True show ?thesis by force
next
  case False
  then show ?thesis by (auto simp: wanted_ports_def list_all_iff)
qed

lemma scope_matches_covers: "scope_ok sc \<Longrightarrow> scope_matches sc e = Some (covers sc e)"
proof -
  assume ok: "scope_ok sc"
  obtain hs where hs: "lower_all (sc_hosts sc) = Some hs" "hs = [] \<longleftrightarrow> sc_hosts sc = []"
    "set hs = {str_lower s | s. JStr s \<in> set (sc_hosts sc)}"
    using ok lower_all_text [of "sc_hosts sc"] by (auto simp: scope_ok_def)
  obtain ds where ds: "lower_all (sc_domains sc) = Some ds" "ds = [] \<longleftrightarrow> sc_domains sc = []"
    "set ds = {str_lower s | s. JStr s \<in> set (sc_domains sc)}"
    using ok lower_all_text [of "sc_domains sc"] by (auto simp: scope_ok_def)
  have h: "list_ex (\<lambda>h. h \<in> set (map str_lower (finding_hosts (ev e)))) hs \<longleftrightarrow>
      (\<exists>h x. JStr h \<in> set (sc_hosts sc) \<and> x \<in> set (finding_hosts (ev e)) \<and> str_lower h = str_lower x)"
    unfolding list_ex_iff hs(3) by (auto, metis)
  have d: "list_ex (\<lambda>d. list_ex (\<lambda>p. glob p d) ds) (finding_domains e) \<longleftrightarrow>
      (\<exists>p d. JStr p \<in> set (sc_domains sc) \<and> d \<in> set (finding_domains e) \<and> glob (str_lower p) d)"
    unfolding list_ex_iff ds(3) by auto
  show ?thesis
    unfolding scope_matches_def covers_def hs(1) ds(1) option.case h d cidr_hit_iff wanted_hit hs(2) ds(2)
    by auto
qed

definition applies :: "time \<Rightarrow> string \<Rightarrow> event \<Rightarrow> suppression \<Rightarrow> bool" where
  "applies now rule e s \<longleftrightarrow> (sup_rule_id s = rule \<or> sup_rule_id s = ''*'') \<and>
     is_active now s \<and> covers (sup_scope s) e"

text \<open>A finding is suppressed exactly by the first suppression of the list that names its rule (or any
  rule), is approved and not expired, and covers it in every dimension its scope gives; an unreadable
  network or an unreadable list of ports never widens a scope.\<close>

theorem match_suppression_exact:
  assumes "\<forall>s \<in> set sups. scope_ok (sup_scope s)"
  shows "match_suppression now rule e sups = Some (find (applies now rule e) sups)"
  using assms
proof (induction sups)
  case Nil
  then show ?case by simp
next
  case (Cons s ss)
  then have "scope_matches (sup_scope s) e = Some (covers (sup_scope s) e)"
    by (simp add: scope_matches_covers)
  with Cons show ?case by (cases "covers (sup_scope s) e") (auto simp: applies_def)
qed

section \<open>The handlers\<close>

record sup_cfg =
  SUPPRESSION_DEFAULT_DAYS :: int
  SUPPRESSION_MAX_DAYS :: int
  SUPPRESSION_REQUIRE_APPROVAL :: bool

record sup_state =
  ss_rows :: "(nat, suppression) dict"
  ss_next :: nat
  ss_db :: db

datatype scope_json = No_Scope | Not_Object | Scope_Object scope

definition any_scope :: scope where
  "any_scope = \<lparr>sc_hosts = [], sc_cidrs = [], sc_domains = [], sc_ports = []\<rparr>"

definition stripped :: "claims \<Rightarrow> string \<Rightarrow> http_error + string" where
  \<comment> \<open>\<open>(body.get(k) or "").strip()\<close>\<close>
  "stripped body k =
     (case or_val (get_val body k) (JStr []) of
        JStr s \<Rightarrow> Inr (str_strip s)
      | _ \<Rightarrow> Inl (Uncaught (RuntimeError [''AttributeError''])))"

definition clamp_days :: "sup_cfg \<Rightarrow> int \<Rightarrow> int" where
  "clamp_days cfg days = max 1 (min days (SUPPRESSION_MAX_DAYS cfg))"

definition sup_audit :: "env \<Rightarrow> auth_ctx \<Rightarrow> string \<Rightarrow> string \<Rightarrow> sup_state \<Rightarrow> sup_state" where
  "sup_audit en ctx action resource st =
     st\<lparr>ss_db := log_audit (e_audit_ok en) (c_org_id ctx) (c_email ctx) action resource (ss_db st)\<rparr>"

definition create_suppression ::
  "sup_cfg \<Rightarrow> env \<Rightarrow> claims \<Rightarrow> scope_json \<Rightarrow> auth_ctx \<Rightarrow> sup_state \<Rightarrow> (http_error + suppression) \<times> sup_state" where
  "create_suppression cfg en body sj ctx st =
     (case require_roles [ANALYST] ctx of
        Inl err \<Rightarrow> (Inl err, st)
      | Inr _ \<Rightarrow>
          (case bindR (stripped body ''rule_id'') (\<lambda>r. bindR (stripped body ''reason'') (\<lambda>t. Inr (r, t))) of
             Inl err \<Rightarrow> (Inl err, st)
           | Inr (rule_id, reason) \<Rightarrow>
               if rule_id = '''' \<or> reason = '''' then (Inl (HTTPException 400 ''rule_id and reason are required''), st)
               else (case (case dget body ''expires_days'' of
                             None \<Rightarrow> Some (SUPPRESSION_DEFAULT_DAYS cfg) | Some v \<Rightarrow> int_claim v) of
                       None \<Rightarrow> (Inl (HTTPException 400 ''expires_days must be an integer''), st)
                     | Some days \<Rightarrow>
                         if sj = Not_Object then (Inl (HTTPException 400 ''scope must be an object''), st)
                         else (let auto = \<not> SUPPRESSION_REQUIRE_APPROVAL cfg \<or> c_role ctx = ADMIN;
                                   s = \<lparr>sup_id = ss_next st, sup_org_id = c_org_id ctx, sup_rule_id = rule_id,
                                        sup_scope = (case sj of Scope_Object sc \<Rightarrow> sc | _ \<Rightarrow> any_scope),
                                        sup_reason = reason, sup_created_by = c_email ctx,
                                        sup_status = (if auto then ''approved'' else ''pending''),
                                        sup_created_at = e_now en,
                                        sup_expires_at = e_now en + 86400 * real_of_int (clamp_days cfg days)\<rparr>
                               in (Inr s, sup_audit en ctx ''suppression.create'' rule_id
                                     (st\<lparr>ss_rows := dset (ss_next st) s (ss_rows st), ss_next := ss_next st + 1\<rparr>))))))"

definition update_suppression ::
  "env \<Rightarrow> nat \<Rightarrow> claims \<Rightarrow> auth_ctx \<Rightarrow> sup_state \<Rightarrow> (http_error + suppression) \<times> sup_state" where
  "update_suppression en i body ctx st =
     (case require_roles [ADMIN] ctx of
        Inl err \<Rightarrow> (Inl err, st)
      | Inr _ \<Rightarrow>
          (case dget (ss_rows st) i of
             None \<Rightarrow> (Inl (HTTPException 404 ''Suppression not found''), st)
           | Some s \<Rightarrow>
               if sup_org_id s \<noteq> c_org_id ctx then (Inl (HTTPException 404 ''Suppression not found''), st)
               else if dget body ''status'' \<notin> {None, Some (JStr ''approved''), Some (JStr ''rejected''), Some (JStr ''revoked'')}
               then (Inl (HTTPException 400 ''status must be approved|rejected|revoked''), st)
               else (let s = s\<lparr>sup_status := (case dget body ''status'' of Some (JStr t) \<Rightarrow> t | _ \<Rightarrow> sup_status s),
                               sup_reason := (if truthy (get_val body ''reason'') then value_text (get_val body ''reason'')
                                              else sup_reason s)\<rparr>
                     in (Inr s, sup_audit en ctx ''suppression.update'' (dec_of i)
                           (st\<lparr>ss_rows := dset i s (ss_rows st)\<rparr>)))))"

definition delete_suppression :: "env \<Rightarrow> nat \<Rightarrow> auth_ctx \<Rightarrow> sup_state \<Rightarrow> (http_error + suppression) \<times> sup_state" where
  "delete_suppression en i ctx st =
     (case require_roles [ADMIN] ctx of
        Inl err \<Rightarrow> (Inl err, st)
      | Inr _ \<Rightarrow>
          (case dget (ss_rows st) i of
             None \<Rightarrow> (Inl (HTTPException 404 ''Suppression not found''), st)
           | Some s \<Rightarrow>
               if sup_org_id s \<noteq> c_org_id ctx then (Inl (HTTPException 404 ''Suppression not found''), st)
               else (Inr s, sup_audit en ctx ''suppression.delete'' (dec_of i)
                       (st\<lparr>ss_rows := ddel i (ss_rows st)\<rparr>))))"

definition list_suppressions :: "string option \<Rightarrow> auth_ctx \<Rightarrow> sup_state \<Rightarrow> suppression list" where
  \<comment> \<open>newest first, before paging; an empty \<open>status\<close> does not select\<close>
  "list_suppressions status ctx st =
     filter (\<lambda>s. sup_org_id s = c_org_id ctx \<and> (status \<in> {None, Some ''''} \<or> status = Some (sup_status s)))
       (map snd (rev (sort_key fst (ss_rows st))))"

definition suppressions_expiring :: "time \<Rightarrow> nat \<Rightarrow> auth_ctx \<Rightarrow> sup_state \<Rightarrow> suppression list" where
  "suppressions_expiring now days ctx st =
     sort_key sup_expires_at (filter (\<lambda>s. sup_org_id s = c_org_id ctx \<and> sup_status s = ''approved'' \<and>
       now < sup_expires_at s \<and> sup_expires_at s \<le> now + 86400 * real days) (map snd (ss_rows st)))"

definition active_suppressions :: "time \<Rightarrow> string \<Rightarrow> sup_state \<Rightarrow> suppression list" where
  "active_suppressions now org st =
     filter_active now (filter (\<lambda>s. sup_org_id s = org \<and> sup_status s = ''approved'') (map snd (ss_rows st)))"

datatype sup_cmd = Create_Sup claims scope_json | Update_Sup nat claims | Delete_Sup nat

definition sup_step :: "sup_cfg \<Rightarrow> env \<times> auth_ctx \<times> sup_cmd \<Rightarrow> sup_state \<Rightarrow> sup_state" where
  "sup_step cfg rq st =
     (case rq of (en, ctx, cmd) \<Rightarrow>
        (case cmd of
           Create_Sup body sj \<Rightarrow> snd (create_suppression cfg en body sj ctx st)
         | Update_Sup i body \<Rightarrow> snd (update_suppression en i body ctx st)
         | Delete_Sup i \<Rightarrow> snd (delete_suppression en i ctx st)))"

section \<open>Who can accept a risk\<close>

definition grants :: "env \<times> auth_ctx \<times> sup_cmd \<Rightarrow> suppression \<Rightarrow> bool" where
  \<comment> \<open>an administrator of the organisation created the row or set it to approved\<close>
  "grants rq s \<longleftrightarrow>
     (case rq of (en, ctx, cmd) \<Rightarrow>
        c_role ctx = ADMIN \<and> c_org_id ctx = sup_org_id s \<and>
        (case cmd of
           Create_Sup body sj \<Rightarrow> sup_created_by s = c_email ctx \<and> sup_created_at s = e_now en
         | Update_Sup i body \<Rightarrow> i = sup_id s \<and> dget body ''status'' = Some (JStr ''approved'')
         | Delete_Sup i \<Rightarrow> False))"

definition row_ok :: "sup_cfg \<Rightarrow> (env \<times> auth_ctx \<times> sup_cmd) set \<Rightarrow> suppression \<Rightarrow> bool" where
  "row_ok cfg H s \<longleftrightarrow>
     sup_created_at s < sup_expires_at s \<and>
     sup_expires_at s \<le> sup_created_at s + 86400 * real_of_int (max 1 (SUPPRESSION_MAX_DAYS cfg)) \<and>
     (SUPPRESSION_REQUIRE_APPROVAL cfg \<longrightarrow> sup_status s = ''approved'' \<longrightarrow> (\<exists>rq \<in> H. grants rq s))"

definition sup_inv :: "sup_cfg \<Rightarrow> (env \<times> auth_ctx \<times> sup_cmd) set \<Rightarrow> sup_state \<Rightarrow> bool" where
  "sup_inv cfg H st \<longleftrightarrow> (\<forall>(i, s) \<in> set (ss_rows st). sup_id s = i \<and> row_ok cfg H s)"

lemma clamp_days_bounds: "1 \<le> clamp_days cfg d" "clamp_days cfg d \<le> max 1 (SUPPRESSION_MAX_DAYS cfg)"
  by (simp_all add: clamp_days_def)

lemma grants_update [simp]:
  "grants rq (s\<lparr>sup_status := a\<rparr>) = grants rq s" "grants rq (s\<lparr>sup_reason := b\<rparr>) = grants rq s"
  by (auto simp: grants_def split: sup_cmd.split)

lemma ss_rows_audit [simp]: "ss_rows (sup_audit en ctx a r st) = ss_rows st"
  by (simp add: sup_audit_def)

lemma row_ok_mono: "row_ok cfg H s \<Longrightarrow> H \<subseteq> K \<Longrightarrow> row_ok cfg K s"
  by (auto simp: row_ok_def)

lemma sup_inv_mono: "sup_inv cfg H st \<Longrightarrow> H \<subseteq> K \<Longrightarrow> sup_inv cfg K st"
  by (fastforce simp: sup_inv_def intro: row_ok_mono)

lemma sup_inv_set:
  "sup_inv cfg H st \<Longrightarrow> sup_id s = i \<Longrightarrow> row_ok cfg H s \<Longrightarrow> ss_rows st' = dset i s (ss_rows st) \<Longrightarrow> sup_inv cfg H st'"
  by (fastforce simp: sup_inv_def dest: set_dset)

lemma create_suppression_cases:
  "snd (create_suppression cfg en body sj ctx st) = st \<or>
   (\<exists>s days. ss_rows (snd (create_suppression cfg en body sj ctx st)) = dset (ss_next st) s (ss_rows st) \<and>
      sup_id s = ss_next st \<and> sup_org_id s = c_org_id ctx \<and> sup_created_by s = c_email ctx \<and>
      sup_created_at s = e_now en \<and> sup_expires_at s = e_now en + 86400 * real_of_int (clamp_days cfg days) \<and>
      (sup_status s = ''approved'' \<longrightarrow> SUPPRESSION_REQUIRE_APPROVAL cfg \<longrightarrow> c_role ctx = ADMIN))"
  by (force simp: create_suppression_def Let_def split: sum.split option.split prod.split)

lemma create_keeps:
  assumes "sup_inv cfg H st"
  shows "sup_inv cfg (insert (en, ctx, Create_Sup body sj) H) (snd (create_suppression cfg en body sj ctx st))"
proof (cases "snd (create_suppression cfg en body sj ctx st) = st")
  case True
  then show ?thesis using assms by (auto intro: sup_inv_mono)
next
  case False
  then obtain s days where s: "ss_rows (snd (create_suppression cfg en body sj ctx st)) = dset (ss_next st) s (ss_rows st)"
    "sup_id s = ss_next st" "sup_org_id s = c_org_id ctx" "sup_created_by s = c_email ctx"
    "sup_created_at s = e_now en" "sup_expires_at s = e_now en + 86400 * real_of_int (clamp_days cfg days)"
    "sup_status s = ''approved'' \<Longrightarrow> SUPPRESSION_REQUIRE_APPROVAL cfg \<Longrightarrow> c_role ctx = ADMIN"
    using create_suppression_cases [of cfg en body sj ctx st] by auto
  have "row_ok cfg (insert (en, ctx, Create_Sup body sj) H) s"
    using s(3-7) clamp_days_bounds [of cfg days] by (auto simp: row_ok_def grants_def)
  with s(1,2) sup_inv_mono [OF assms, of "insert (en, ctx, Create_Sup body sj) H"] show ?thesis
    by (auto intro: sup_inv_set)
qed

lemma update_keeps:
  assumes inv: "sup_inv cfg H st"
  shows "sup_inv cfg (insert (en, ctx, Update_Sup i body) H) (snd (update_suppression en i body ctx st))"
proof (cases "snd (update_suppression en i body ctx st) = st")
  case True
  then show ?thesis using inv by (auto intro: sup_inv_mono)
next
  case False
  then obtain s where s: "dget (ss_rows st) i = Some s" "sup_org_id s = c_org_id ctx" "c_role ctx = ADMIN"
    "ss_rows (snd (update_suppression en i body ctx st)) = dset i
       (s\<lparr>sup_status := (case dget body ''status'' of Some (JStr t) \<Rightarrow> t | _ \<Rightarrow> sup_status s),
          sup_reason := (if truthy (get_val body ''reason'') then value_text (get_val body ''reason'')
                         else sup_reason s)\<rparr>) (ss_rows st)"
    and st: "dget body ''status'' \<in> {None, Some (JStr ''approved''), Some (JStr ''rejected''), Some (JStr ''revoked'')}"
    by (auto simp: update_suppression_def require_roles_def role_rank_def Let_def
        split: sum.splits option.splits if_splits user_role.splits)
  let ?s = "s\<lparr>sup_status := (case dget body ''status'' of Some (JStr t) \<Rightarrow> t | _ \<Rightarrow> sup_status s),
          sup_reason := (if truthy (get_val body ''reason'') then value_text (get_val body ''reason'')
                         else sup_reason s)\<rparr>"
  let ?H = "insert (en, ctx, Update_Sup i body) H"
  have "(i, s) \<in> set (ss_rows st)" using s(1) by (rule map_of_SomeD)
  with inv have ok: "sup_id s = i" "row_ok cfg H s" by (auto simp: sup_inv_def)
  have "grants (en, ctx, Update_Sup i body) s" if "dget body ''status'' = Some (JStr ''approved'')"
    using that s(2,3) ok(1) by (simp add: grants_def)
  then have "row_ok cfg ?H ?s"
    using ok(2) st by (auto simp: row_ok_def)
  moreover have "sup_inv cfg ?H st" by (rule sup_inv_mono [OF inv]) auto
  ultimately show ?thesis using sup_inv_set [OF _ _ _ s(4), of cfg ?H] ok(1) by simp
qed

lemma delete_keeps:
  assumes "sup_inv cfg H st"
  shows "sup_inv cfg (insert (en, ctx, Delete_Sup i) H) (snd (delete_suppression en i ctx st))"
proof -
  have "set (ss_rows (snd (delete_suppression en i ctx st))) \<subseteq> set (ss_rows st)"
    by (auto simp: delete_suppression_def AList.delete_eq split: sum.split option.split)
  then have "sup_inv cfg H (snd (delete_suppression en i ctx st))"
    using assms by (auto simp: sup_inv_def)
  then show ?thesis by (auto intro: sup_inv_mono)
qed

lemma sup_step_keeps: "sup_inv cfg H st \<Longrightarrow> sup_inv cfg (insert rq H) (sup_step cfg rq st)"
  by (cases rq) (auto simp: sup_step_def create_keeps update_keeps delete_keeps split: sup_cmd.split)

lemma sup_run_keeps: "sup_inv cfg H st \<Longrightarrow> sup_inv cfg (H \<union> set rqs) (fold (sup_step cfg) rqs st)"
proof (induction rqs arbitrary: H st)
  case Nil
  then show ?case by simp
next
  case (Cons rq rqs)
  from Cons.IH [OF sup_step_keeps [OF Cons.prems]] show ?case by simp
qed

text \<open>C22: When approval is required, an accepted risk is in force only through an administrator of its own
  organisation, who created it or set it to approved; and none outlives its creation by more than the
  configured maximum, over every sequence of requests.\<close>

theorem suppression_needs_admin:
  assumes "SUPPRESSION_REQUIRE_APPROVAL cfg" "ss_rows st = []"
    "(i, s) \<in> set (ss_rows (fold (sup_step cfg) rqs st))" "is_active now s"
  shows "(\<exists>rq \<in> set rqs. grants rq s) \<and>
    now < sup_created_at s + 86400 * real_of_int (max 1 (SUPPRESSION_MAX_DAYS cfg))"
proof -
  have "sup_inv cfg {} st" using assms(2) by (simp add: sup_inv_def)
  from sup_run_keeps [OF this, of rqs] assms(3) have "row_ok cfg (set rqs) s" by (auto simp: sup_inv_def)
  with assms(1,4) show ?thesis by (auto simp: row_ok_def is_active_def)
qed

definition sup_example :: "(env \<times> auth_ctx \<times> sup_cmd) list" where
  "sup_example =
     (let en = \<lparr>e_now = 1000, e_jti = '''', e_random = [], e_audit_ok = True, e_get = (\<lambda>k. None),
               e_incr = (\<lambda>k. None), e_setnx = None, e_redis = False\<rparr>;
          ctx = (\<lambda>r m. \<lparr>c_user_id = m, c_email = m, c_org_id = ''org-a'', c_role = r, c_via = JWT\<rparr>)
      in [(en, ctx ANALYST ''ann'', Create_Sup [(''rule_id'', JStr ''weak-cipher''), (''reason'', JStr ''legacy'')] No_Scope),
          (en, ctx ADMIN ''bob'', Update_Sup 1 [(''status'', JStr ''approved'')])])"

definition sup_example_cfg :: sup_cfg where
  "sup_example_cfg = \<lparr>SUPPRESSION_DEFAULT_DAYS = 90, SUPPRESSION_MAX_DAYS = 180, SUPPRESSION_REQUIRE_APPROVAL = True\<rparr>"

definition sup_empty :: sup_state where
  "sup_empty = \<lparr>ss_rows = [], ss_next = 1, ss_db = \<lparr>db_users = [], db_api_keys = [], db_agent_tokens = [],
     db_orgs = [], db_audit = []\<rparr>\<rparr>"

definition sup_example_row :: suppression where
  "sup_example_row = \<lparr>sup_id = 1, sup_org_id = ''org-a'', sup_rule_id = ''weak-cipher'', sup_scope = any_scope,
     sup_reason = ''legacy'', sup_created_by = ''ann'', sup_status = ''approved'', sup_created_at = 1000,
     sup_expires_at = 1000 + 86400 * 90\<rparr>"

lemma sup_example_rows: "ss_rows (fold (sup_step sup_example_cfg) sup_example sup_empty) = [(1, sup_example_row)]"
  by (simp add: sup_example_def sup_example_cfg_def sup_empty_def sup_example_row_def sup_step_def
      create_suppression_def update_suppression_def require_roles_def role_rank_def stripped_def or_val_def
      get_val_def bindR_def clamp_days_def str_strip_def is_space_def Let_def sup_audit_def)

lemma suppression_needs_admin_witness:
  "(\<exists>rq \<in> set sup_example. grants rq sup_example_row) \<and> 2000 < 1000 + 86400 * real_of_int (max 1 180)"
  using suppression_needs_admin [of sup_example_cfg sup_empty 1 sup_example_row sup_example 2000]
  by (simp add: sup_example_rows sup_example_cfg_def [THEN arg_cong, of SUPPRESSION_REQUIRE_APPROVAL]
      sup_example_cfg_def [THEN arg_cong, of SUPPRESSION_MAX_DAYS] sup_empty_def [THEN arg_cong, of ss_rows]
      is_active_def sup_example_row_def)

lemma match_suppression_exact_witness:
  "match_suppression 2000 ''weak-cipher'' \<lparr>ev = [], ev_findings = [], ev_evidence = [], ev_risk = None,
      ev_first_seen = None, ev_last_seen = None, ev_ts = None\<rparr> [sup_example_row] =
   Some (find (applies 2000 ''weak-cipher'' \<lparr>ev = [], ev_findings = [], ev_evidence = [], ev_risk = None,
      ev_first_seen = None, ev_last_seen = None, ev_ts = None\<rparr>) [sup_example_row])"
  by (rule match_suppression_exact) (simp add: sup_example_row_def scope_ok_def any_scope_def)

section \<open>Consequences\<close>

lemma suppressions_stay_in_tenant:
  \<comment> \<open>no handler touches a row of another organisation\<close>
  assumes "dget (ss_rows st) i = Some s" "sup_org_id s \<noteq> c_org_id ctx" "dget (ss_rows st) (ss_next st) = None"
  shows "dget (ss_rows (sup_step cfg (en, ctx, cmd) st)) i = Some s"
  using assms
  by (cases cmd) (auto simp: sup_step_def create_suppression_def update_suppression_def delete_suppression_def Let_def
      delete_conv split: sum.split option.split prod.split)

lemma unreadable_scope_raises:
  \<comment> \<open>the handler stores any scope; a host that is no text makes every later match of its rule raise\<close>
  assumes "is_active now s" "sup_rule_id s = rule" "sc_hosts (sup_scope s) = [JInt 1]"
  shows "match_suppression now rule e (s # ss) = None"
  using assms by (simp add: scope_matches_def)

end
