(* ===== verification/Cert_Inventory.thy ===== *)
theory Cert_Inventory
  imports Rules Auth
begin

text \<open>
  The certificate inventory (src/backend/app/proactive/certs.py and the two listings in
  src/backend/app/api/main.py): one row per leaf certificate, keyed by the SHA-256 of its DER bytes.
  Database errors, which the functions swallow, are left out.
\<close>

record tracked_cert =
  tc_fingerprint :: string
  tc_org_id :: "string option"
  tc_subject_cn :: string
  tc_issuer_cn :: string
  tc_sans :: "ustr list"
  tc_not_before :: "int option"
  tc_not_after :: "int option"
  tc_pubkey_alg :: string
  tc_pubkey_bits :: "nat option"
  tc_signature_alg :: string
  tc_self_signed :: bool
  tc_chain_result :: string
  tc_first_seen :: time
  tc_last_seen :: time
  tc_seen_count :: nat
  tc_alerted_at :: "time option"

type_synonym inventory = "(string, tracked_cert) dict"

definition fingerprint_der :: "bytes \<Rightarrow> string" where
  "fingerprint_der der = sha256_hex der"

definition new_tracked :: "time \<Rightarrow> string option \<Rightarrow> string \<Rightarrow> cert_analysis \<Rightarrow> tracked_cert" where
  "new_tracked now org chain_result c =
     \<lparr>tc_fingerprint = fingerprint_der (ca_der c), tc_org_id = org, tc_subject_cn = ca_subject_cn c,
      tc_issuer_cn = ca_issuer_cn c, tc_sans = ca_sans c, tc_not_before = ca_not_before c,
      tc_not_after = ca_not_after c, tc_pubkey_alg = ca_pubkey_alg c, tc_pubkey_bits = ca_pubkey_bits c,
      tc_signature_alg = ca_signature_alg c, tc_self_signed = ca_self_signed c,
      tc_chain_result = chain_result, tc_first_seen = now, tc_last_seen = now, tc_seen_count = 1,
      tc_alerted_at = None\<rparr>"

definition no_text :: "string option \<Rightarrow> bool" where
  "no_text x \<longleftrightarrow> x = None \<or> x = Some ''''"

definition seen_again :: "time \<Rightarrow> string option \<Rightarrow> tracked_cert \<Rightarrow> tracked_cert" where
  "seen_again now org r =
     r\<lparr>tc_last_seen := now, tc_seen_count := tc_seen_count r + 1,
       tc_org_id := (if \<not> no_text org \<and> no_text (tc_org_id r) then org else tc_org_id r)\<rparr>"

definition track_cert :: "time \<Rightarrow> string option \<Rightarrow> string \<Rightarrow> cert_analysis \<Rightarrow> inventory \<Rightarrow> inventory" where
  "track_cert now org chain_result c iv =
     (if ca_der c = [] \<or> ca_is_ca c then iv
      else (let fp = fingerprint_der (ca_der c)
            in dset fp (case dget iv fp of
                          None \<Rightarrow> new_tracked now org chain_result c
                        | Some r \<Rightarrow> seen_again now org r) iv))"

definition track_session_certs :: "time \<Rightarrow> session_analysis \<Rightarrow> string option \<Rightarrow> inventory \<Rightarrow> inventory \<times> nat" where
  "track_session_certs now sa org iv =
     (foldl (\<lambda>iv c. track_cert now org (sa_chain_result sa) c iv) iv (sa_certs sa),
      length (filter (\<lambda>c. ca_der c \<noteq> [] \<and> \<not> ca_is_ca c) (sa_certs sa)))"

definition expires_by :: "real \<Rightarrow> tracked_cert \<Rightarrow> bool" where
  "expires_by t r = (case tc_not_after r of None \<Rightarrow> False | Some na \<Rightarrow> real_of_int na \<le> t)"

definition visible_to :: "string option \<Rightarrow> tracked_cert \<Rightarrow> bool" where
  "visible_to org r \<longleftrightarrow> no_text org \<or> tc_org_id r = org \<or> tc_org_id r = None"

definition find_expiring :: "time \<Rightarrow> string option \<Rightarrow> nat \<Rightarrow> bool \<Rightarrow> inventory \<Rightarrow> tracked_cert list" where
  "find_expiring now org within_days include_expired iv =
     sort_key (\<lambda>r. the (tc_not_after r))
       (filter (\<lambda>r. visible_to org r \<and> expires_by (now + 86400 * real within_days) r \<and>
          (include_expired \<or> \<not> expires_by now r)) (map snd iv))"

definition mark_alerted :: "time \<Rightarrow> string list \<Rightarrow> inventory \<Rightarrow> inventory" where
  "mark_alerted now fps iv =
     foldl (\<lambda>iv fp. case dget iv fp of
                       None \<Rightarrow> iv | Some r \<Rightarrow> dset fp (r\<lparr>tc_alerted_at := Some now\<rparr>) iv) iv fps"

section \<open>The inventory as a whole\<close>

definition leaf_fps :: "cert_analysis list \<Rightarrow> string list" where
  "leaf_fps cs = map (fingerprint_der \<circ> ca_der) (filter (\<lambda>c. ca_der c \<noteq> [] \<and> \<not> ca_is_ca c) cs)"

definition seen :: "inventory \<Rightarrow> string \<Rightarrow> nat" where
  "seen iv fp = (case dget iv fp of None \<Rightarrow> 0 | Some r \<Rightarrow> tc_seen_count r)"

lemma seen_track:
  "seen (track_cert now org cr c iv) fp =
     seen iv fp + (if ca_der c \<noteq> [] \<and> \<not> ca_is_ca c \<and> fingerprint_der (ca_der c) = fp then 1 else 0)"
  by (auto simp: seen_def track_cert_def new_tracked_def seen_again_def Let_def split: option.splits)

text \<open>The inventory counts sightings exactly: a session adds to the count of every fingerprint the number
  of its leaf certificates with that fingerprint, and only those.\<close>

lemma track_counts:
  "seen (fst (track_session_certs now sa org iv)) fp =
     seen iv fp + length (filter (\<lambda>f. f = fp) (leaf_fps (sa_certs sa)))"
proof -
  have "seen (foldl (\<lambda>iv c. track_cert now org cr c iv) iv cs) fp =
      seen iv fp + length (filter (\<lambda>f. f = fp) (leaf_fps cs))" for cs cr
    by (induction cs arbitrary: iv) (auto simp: leaf_fps_def seen_track)
  then show ?thesis by (simp add: track_session_certs_def)
qed

lemma owner_fixed:
  \<comment> \<open>the first organisation that is named keeps the row: another tenant that sees the same certificate
     never gets to list it\<close>
  assumes "dget iv fp = Some r" "tc_org_id r = Some o1" "o1 \<noteq> ''''"
  shows "\<exists>r'. dget (fst (track_session_certs now sa (Some o2) iv)) fp = Some r' \<and> tc_org_id r' = Some o1"
proof -
  have "\<exists>r'. dget (foldl (\<lambda>iv c. track_cert now (Some o2) cr c iv) iv cs) fp = Some r' \<and> tc_org_id r' = Some o1"
    if "\<exists>r. dget iv fp = Some r \<and> tc_org_id r = Some o1" for cs cr iv
    using that
  proof (induction cs arbitrary: iv)
    case Nil
    then show ?case by simp
  next
    case (Cons c cs)
    then have "\<exists>r. dget (track_cert now (Some o2) cr c iv) fp = Some r \<and> tc_org_id r = Some o1"
      using assms(3) by (auto simp: track_cert_def seen_again_def no_text_def Let_def)
    from Cons.IH [OF this] show ?case by simp
  qed
  with assms(1,2) show ?thesis by (simp add: track_session_certs_def)
qed

lemma find_expiring_mem:
  "r \<in> set (find_expiring now org days True iv) \<longleftrightarrow>
     r \<in> snd ` set iv \<and> visible_to org r \<and> expires_by (now + 86400 * real days) r"
  by (auto simp: find_expiring_def)

section \<open>The listings\<close>

definition list_certs :: "nat \<Rightarrow> auth_ctx \<Rightarrow> inventory \<Rightarrow> tracked_cert list" where
  \<comment> \<open>the most recently seen first\<close>
  "list_certs n ctx iv =
     take n (rev (sort_key tc_last_seen (filter (visible_to (Some (c_org_id ctx))) (map snd iv))))"

definition days_left :: "time \<Rightarrow> int \<Rightarrow> int" where
  \<comment> \<open>\<open>(not_after - now).days\<close>\<close>
  "days_left now na = \<lfloor>(real_of_int na - now) / 86400\<rfloor>"

definition certs_expiring :: "time \<Rightarrow> nat \<Rightarrow> auth_ctx \<Rightarrow> inventory \<Rightarrow> (string \<times> int option \<times> bool) list" where
  \<comment> \<open>subject, days remaining and whether it has expired\<close>
  "certs_expiring now days ctx iv =
     map (\<lambda>r. (tc_subject_cn r, map_option (days_left now) (tc_not_after r),
               case tc_not_after r of None \<Rightarrow> False | Some na \<Rightarrow> real_of_int na < now))
       (find_expiring now (Some (c_org_id ctx)) days True iv)"

text \<open>The forecast never shows a certificate of another organisation, and says expired exactly when the
  days remaining are negative.\<close>

lemma forecast_consistent:
  assumes "(cn, d, x) \<in> set (certs_expiring now days ctx iv)"
  shows "\<exists>r \<in> snd ` set iv. tc_subject_cn r = cn \<and> visible_to (Some (c_org_id ctx)) r \<and>
    (\<exists>k. d = Some k \<and> k \<le> int days \<and> (x \<longleftrightarrow> k < 0))"
proof -
  obtain r where r: "r \<in> set (find_expiring now (Some (c_org_id ctx)) days True iv)" "tc_subject_cn r = cn"
    "d = map_option (days_left now) (tc_not_after r)"
    "x = (case tc_not_after r of None \<Rightarrow> False | Some na \<Rightarrow> real_of_int na < now)"
    using assms by (auto simp: certs_expiring_def)
  then obtain na where na: "tc_not_after r = Some na" "real_of_int na \<le> now + 86400 * real days"
    by (auto simp: find_expiring_mem expires_by_def split: option.splits)
  have "(real_of_int na - now) / 86400 \<le> real days" using na(2) by (simp add: field_simps)
  then have "days_left now na \<le> int days" by (simp add: days_left_def floor_le_iff)
  moreover have "days_left now na < 0 \<longleftrightarrow> real_of_int na < now"
    by (simp add: days_left_def floor_less_iff divide_less_0_iff)
  ultimately show ?thesis using r na by (auto simp: find_expiring_mem)
qed

end
