(* ===== verification/Alerts.thy ===== *)
theory Alerts
  imports Suppressions Worker Cert_Inventory
begin

text \<open>
  The alert dispatcher (src/backend/app/live/alerts.py and src/backend/app/live/ticketing.py): the
  severity gate with the policy of the organisation, quiet hours and digests, ownership routing,
  suppression, grouping, and the dispatch of one alert to every channel. The record \<open>dispatcher\<close> is the
  state of the process together with what it wrote: digest buckets in Redis, delivery rows, published
  alerts and tickets. The record \<open>alert_env\<close> is what the outside answers during one call: the clock, the
  rows of the database (\<open>None\<close> when the query raises), Redis, the channels and the ticket system.
\<close>

section \<open>Policies\<close>

record policy =
  pl_min_severity :: string
  pl_digest :: string
  pl_quiet_start :: "int option"
  pl_quiet_end :: "int option"
  pl_tz :: string

record policy_row =
  pr_min_severity :: "string option"
  pr_digest :: "string option"
  pr_quiet_start :: "int option"
  pr_quiet_end :: "int option"
  pr_tz :: "string option"

record route =
  rt_match_type :: string
  rt_match_value :: string
  rt_owner :: string
  rt_channel :: string

record alert_cfg =
  ALERT_MIN_SEVERITY :: string
  STREAM_MAX_ATTEMPTS :: nat
  TICKET_MIN_SEVERITY :: string
  ac_ticketing :: bool
  ac_adapters :: "string list"
  ac_tz_offset :: "string \<Rightarrow> time \<Rightarrow> int option"
  ac_hold :: time
  ac_warn_days :: nat
  ac_date_text :: "time \<Rightarrow> string"

record alert_env =
  ae_now :: time
  ae_id :: string
  ae_policy :: "string \<Rightarrow> policy_row option option"
  ae_routes :: "string option \<Rightarrow> route list option"
  ae_sups :: "string option \<Rightarrow> suppression list option"
  ae_dedup :: "string \<Rightarrow> bool option"
  ae_rate :: "nat option"
  ae_kv_get :: bool
  ae_kv_set :: bool
  ae_send :: "string \<Rightarrow> nat \<Rightarrow> string + bool"
  ae_ticket :: "string option"
  ae_bus_ok :: nat

record stash =
  sh_rule_id :: jval
  sh_severity :: jval
  sh_title :: jval
  sh_five_tuple :: jval
  sh_ts :: time

datatype period = Day int | Week int
datatype kv_key = Digest_Key string period | Quiet_Key string

record alert =
  al_id :: string
  al_ts :: time
  al_five_tuple :: jval
  al_protocol :: jval
  al_severity :: jval
  al_title :: jval
  al_description :: jval
  al_rule_id :: jval
  al_risk_score :: "real option"
  al_findings :: "claims list"
  al_org_id :: jval
  al_occurrences :: jval
  al_first_seen :: "time option"
  al_last_seen :: time
  al_ticket_url :: "string option"

record delivery_row =
  dr_alert_id :: string
  dr_channel :: string
  dr_sent :: bool
  dr_attempts :: nat
  dr_error :: string

record dispatcher =
  dp_alert :: alert_state
  dp_groups :: "(string, bucket) dict"
  dp_policies :: "(string option, time \<times> policy) dict"
  dp_routes :: "(string option, time \<times> route list) dict"
  dp_sups :: "(string option, time \<times> suppression list) dict"
  dp_kv :: "(kv_key, time \<times> stash list) dict"
  dp_orgs :: "string list"
  dp_deliveries :: "delivery_row list"
  dp_published :: "alert list"
  dp_rows :: "alert list"
  dp_tickets :: "string list"
  dp_counters :: "string list"

definition count_up :: "string \<Rightarrow> dispatcher \<Rightarrow> dispatcher" where
  "count_up c dp = dp\<lparr>dp_counters := dp_counters dp @ [c]\<rparr>"

definition org_of :: "claims \<Rightarrow> string option" where
  \<comment> \<open>\<open>finding.get("org_id")\<close>, which is text or null in everything the program publishes\<close>
  "org_of f = (case get_val f ''org_id'' of JStr s \<Rightarrow> Some s | _ \<Rightarrow> None)"

definition sev_lookup :: "string \<Rightarrow> nat option" where
  "sev_lookup s = dget [(''info'', 0), (''low'', 1), (''medium'', 2), (''high'', 3), (''critical'', 4)] s"

definition min_sev :: "alert_cfg \<Rightarrow> nat" where
  "min_sev cfg = (case sev_lookup (ALERT_MIN_SEVERITY cfg) of Some n \<Rightarrow> n | None \<Rightarrow> 3)"

definition or_text :: "string option \<Rightarrow> string \<Rightarrow> string" where
  "or_text x d = (case x of None \<Rightarrow> d | Some s \<Rightarrow> if s = '''' then d else s)"

definition default_policy :: "alert_cfg \<Rightarrow> policy" where
  "default_policy cfg = \<lparr>pl_min_severity = ALERT_MIN_SEVERITY cfg, pl_digest = ''off'', pl_quiet_start = None,
     pl_quiet_end = None, pl_tz = ''UTC''\<rparr>"

definition row_policy :: "alert_cfg \<Rightarrow> policy_row \<Rightarrow> policy" where
  "row_policy cfg r = \<lparr>pl_min_severity = or_text (pr_min_severity r) (ALERT_MIN_SEVERITY cfg),
     pl_digest = or_text (pr_digest r) ''off'', pl_quiet_start = pr_quiet_start r,
     pl_quiet_end = pr_quiet_end r, pl_tz = or_text (pr_tz r) ''UTC''\<rparr>"

definition load_policy :: "alert_cfg \<Rightarrow> alert_env \<Rightarrow> string option \<Rightarrow> policy" where
  "load_policy cfg en org =
     (case org of
        None \<Rightarrow> default_policy cfg
      | Some i \<Rightarrow>
          if i = '''' then default_policy cfg
          else (case ae_policy en i of Some (Some r) \<Rightarrow> row_policy cfg r | _ \<Rightarrow> default_policy cfg))"

definition policy_for :: "alert_cfg \<Rightarrow> alert_env \<Rightarrow> string option \<Rightarrow> dispatcher \<Rightarrow> policy \<times> dispatcher" where
  "policy_for cfg en org dp =
     (let fresh = (let p = load_policy cfg en org
                   in (p, dp\<lparr>dp_policies := dset org (ae_now en, p) (dp_policies dp)\<rparr>))
      in case dget (dp_policies dp) org of
           Some (t, p) \<Rightarrow> if ae_now en - t < 60 then (p, dp) else fresh
         | None \<Rightarrow> fresh)"

definition should_alert :: "alert_cfg \<Rightarrow> alert_env \<Rightarrow> event \<Rightarrow> dispatcher \<Rightarrow> bool \<times> dispatcher" where
  "should_alert cfg en e dp =
     (let sev = value_text (or_val (severity_val (ev e)) (JStr ''info''));
          (p, dp) = policy_for cfg en (org_of (ev e)) dp;
          threshold = (case sev_lookup (pl_min_severity p) of Some n \<Rightarrow> n | None \<Rightarrow> min_sev cfg)
      in (threshold \<le> severity_order sev, dp))"

section \<open>Routing\<close>

definition routes_for :: "alert_env \<Rightarrow> string option \<Rightarrow> dispatcher \<Rightarrow> route list \<times> dispatcher" where
  "routes_for en org dp =
     (let fresh = (let rs = (case ae_routes en org of Some rs \<Rightarrow> rs | None \<Rightarrow> [])
                   in (rs, dp\<lparr>dp_routes := dset org (ae_now en, rs) (dp_routes dp)\<rparr>))
      in case dget (dp_routes dp) org of
           Some (t, rs) \<Rightarrow> if ae_now en - t < 60 then (rs, dp) else fresh
         | None \<Rightarrow> fresh)"

definition route_hosts :: "claims \<Rightarrow> string list" where
  "route_hosts f =
     (let ft = five_tuple_of f; (client, cport, server, sport) = split_five_tuple ft
      in text_or_empty (get_val f ''server'') # (if ft = '''' then [] else [server]))"

definition route_hits :: "claims \<Rightarrow> string \<Rightarrow> route \<Rightarrow> bool" where
  "route_hits f mtype r \<longleftrightarrow>
     rt_match_type r = mtype \<and>
     (mtype = ''rule'' \<and> get_val f ''rule_id'' = JStr (rt_match_value r) \<or>
      mtype = ''host'' \<and> list_ex (\<lambda>h. h \<noteq> '''' \<and> rt_match_value r = h) (route_hosts f) \<or>
      mtype = ''domain'' \<and> (let d = text_or_empty (get_val f ''sni'')
         in d \<noteq> '''' \<and> glob (str_lower (rt_match_value r)) (str_lower d)))"

fun route_by :: "claims \<Rightarrow> route list \<Rightarrow> string list \<Rightarrow> (string \<times> string) option" where
  "route_by f rs [] = None"
| "route_by f rs (mtype # ms) =
     (case find (route_hits f mtype) rs of
        Some r \<Rightarrow> Some (rt_owner r, rt_channel r)
      | None \<Rightarrow> route_by f rs ms)"

definition route_finding :: "alert_env \<Rightarrow> event \<Rightarrow> dispatcher \<Rightarrow> (string \<times> string) option \<times> dispatcher" where
  "route_finding en e dp =
     (let (rs, dp) = routes_for en (org_of (ev e)) dp
      in (route_by (ev e) rs [''domain'', ''host'', ''rule''], dp))"

section \<open>Quiet hours and periods\<close>

definition local_hour :: "alert_cfg \<Rightarrow> string \<Rightarrow> time \<Rightarrow> int" where
  \<comment> \<open>an unknown zone counts as UTC\<close>
  "local_hour cfg tz now =
     (\<lfloor>now\<rfloor> + (case ac_tz_offset cfg tz now of Some off \<Rightarrow> off | None \<Rightarrow> 0)) div 3600 mod 24"

definition in_quiet :: "alert_cfg \<Rightarrow> policy \<Rightarrow> time \<Rightarrow> bool" where
  "in_quiet cfg p now =
     (case (pl_quiet_start p, pl_quiet_end p) of
        (Some s, Some e) \<Rightarrow>
          if s = e then False
          else (let hour = local_hour cfg (pl_tz p) now
                in if s < e then s \<le> hour \<and> hour < e else s \<le> hour \<or> hour < e)
      | _ \<Rightarrow> False)"

definition current_period :: "string \<Rightarrow> time \<Rightarrow> period" where
  \<comment> \<open>the calendar day or the ISO week, which starts on Monday, in UTC\<close>
  "current_period digest now =
     (if digest = ''weekly'' then Week ((\<lfloor>now\<rfloor> div 86400 + 3) div 7) else Day (\<lfloor>now\<rfloor> div 86400))"

text \<open>Quiet hours are the cyclic interval from the start hour to the end hour, across midnight or not.\<close>

lemma quiet_window:
  assumes "pl_quiet_start p = Some s" "pl_quiet_end p = Some e" "0 \<le> s" "s < 24" "0 \<le> e" "e < 24"
  shows "in_quiet cfg p now \<longleftrightarrow> (local_hour cfg (pl_tz p) now - s) mod 24 < (e - s) mod 24"
proof -
  have m: "x mod 24 = (if 0 \<le> x then x else x + 24)" if "- 24 < x" "x < 24" for x :: int
    using that mod_pos_pos_trivial [of "x + 24" 24] by (simp add: mod_pos_pos_trivial)
  have h: "0 \<le> local_hour cfg (pl_tz p) now" "local_hour cfg (pl_tz p) now < 24"
    by (simp_all add: local_hour_def)
  show ?thesis
    using assms h by (simp add: in_quiet_def Let_def m)
qed

section \<open>Buckets in Redis\<close>

definition org_text :: "string option \<Rightarrow> string" where
  "org_text org = (case org of None \<Rightarrow> ''none'' | Some s \<Rightarrow> if s = '''' then ''none'' else s)"

definition kv_items :: "alert_env \<Rightarrow> kv_key \<Rightarrow> dispatcher \<Rightarrow> stash list" where
  \<comment> \<open>a value that has expired is gone; an unreadable one counts as empty\<close>
  "kv_items en key dp =
     (if \<not> ae_kv_get en then []
      else (case dget (dp_kv dp) key of
              Some (t, items) \<Rightarrow> if ae_now en < t then items else []
            | None \<Rightarrow> []))"

definition keep_last :: "nat \<Rightarrow> 'a list \<Rightarrow> 'a list" where
  \<comment> \<open>\<open>items[-n:]\<close>\<close>
  "keep_last n xs = drop (length xs - n) xs"

definition stash_of :: "time \<Rightarrow> event \<Rightarrow> stash" where
  "stash_of now e =
     \<lparr>sh_rule_id = get_val (ev e) ''rule_id'', sh_severity = severity_val (ev e),
      sh_title = get_val (ev e) ''title'', sh_five_tuple = get_val (ev e) ''five_tuple'',
      sh_ts = (case ev_ts e of Some t \<Rightarrow> t | None \<Rightarrow> now)\<rparr>"

definition stash_digest :: "alert_env \<Rightarrow> event \<Rightarrow> kv_key \<Rightarrow> dispatcher \<Rightarrow> dispatcher" where
  "stash_digest en e key dp =
     (let items = kv_items en key dp @ [stash_of (ae_now en) e];
          dp = (if 200 < length items then count_up ''digest_dropped'' dp else dp);
          items = (if 200 < length items then keep_last 200 items else items)
      in if ae_kv_set en
         then dp\<lparr>dp_kv := dset key (ae_now en + 8 * 86400, items) (dp_kv dp),
                 dp_orgs := List.insert (org_text (org_of (ev e))) (dp_orgs dp)\<rparr>
         else dp)"

definition quiet_key :: "event \<Rightarrow> kv_key" where
  "quiet_key e = Quiet_Key (org_text (org_of (ev e)))"

definition digest_key :: "time \<Rightarrow> string \<Rightarrow> event \<Rightarrow> kv_key" where
  "digest_key now digest e =
     Digest_Key (org_text (org_of (ev e)))
       (current_period (if digest = ''daily'' \<or> digest = ''off'' then ''daily'' else ''weekly'') now)"

section \<open>Suppression\<close>

definition suppressed :: "alert_env \<Rightarrow> event \<Rightarrow> dispatcher \<Rightarrow> bool \<times> dispatcher" where
  \<comment> \<open>a failing query or match counts as not suppressed\<close>
  "suppressed en e dp =
     (let org = org_of (ev e);
          rule = text_or_empty (get_val (ev e) ''rule_id'');
          hit = (\<lambda>active. case match_suppression (ae_now en) rule e active of Some (Some s) \<Rightarrow> True | _ \<Rightarrow> False);
          fresh = (case ae_sups en org of
                     None \<Rightarrow> (False, dp)
                   | Some rows \<Rightarrow>
                       (let active = filter_active (ae_now en) rows
                        in (hit active, dp\<lparr>dp_sups := dset org (ae_now en, active) (dp_sups dp)\<rparr>)))
      in case dget (dp_sups dp) org of
           Some (t, active) \<Rightarrow> if 60 < ae_now en - t then fresh else (hit active, dp)
         | None \<Rightarrow> fresh)"

section \<open>Channels\<close>

fun send_tries :: "(nat \<Rightarrow> string + bool) \<Rightarrow> nat \<Rightarrow> nat \<Rightarrow> bool \<times> string" where
  "send_tries out i retries =
     (let failed = (\<lambda>err. if retries = 0 then (False, err) else send_tries out (i + 1) (retries - 1))
      in case out i of
           Inl m \<Rightarrow> failed (take 300 m)
         | Inr sent \<Rightarrow> if sent then (True, []) else failed ''adapter returned false'')"

declare send_tries.simps [simp del]

definition send_one :: "(nat \<Rightarrow> string + bool) \<Rightarrow> bool \<times> string" where
  "send_one out = send_tries out 0 1"

definition delivery_of :: "alert_env \<Rightarrow> string \<Rightarrow> delivery_row" where
  "delivery_of en channel =
     (let (sent, err) = send_one (ae_send en channel)
      in \<lparr>dr_alert_id = ae_id en, dr_channel = channel, dr_sent = sent,
          dr_attempts = (if err = '''' then 1 else 2), dr_error = err\<rparr>)"

definition cef_line :: "alert \<Rightarrow> string" where
  "cef_line a =
     (let sev = dget_or [(''critical'', 10 :: nat), (''high'', 8), (''medium'', 5), (''low'', 3), (''info'', 1)]
                  (value_text (al_severity a)) 1
      in ''CEF:0|CipherPost|CipherPost|1.0|'' @ value_text (al_rule_id a) @ ''|'' @ value_text (al_title a) @ ''|''
         @ dec_of sev @ ''|msg='' @ value_text (al_description a) @ '' dhost='' @ value_text (al_five_tuple a)
         @ '' cs1='' @ value_text (al_protocol a))"

section \<open>Dispatch\<close>

definition alert_of :: "alert_env \<Rightarrow> event \<Rightarrow> alert" where
  "alert_of en e =
     (let f = ev e;
          nested = (\<lambda>k d. case ev_findings e of [] \<Rightarrow> JStr d | x # xs \<Rightarrow> get_val x k)
      in \<lparr>al_id = ae_id en, al_ts = ae_now en, al_five_tuple = get_val f ''five_tuple'',
          al_protocol = get_val f ''protocol'', al_severity = or_val (severity_val f) (JStr ''info''),
          al_title = or_val (get_val f ''title'') (nested ''title'' ''finding''),
          al_description = or_val (get_val f ''description'') (JStr ''''),
          al_rule_id = or_val (get_val f ''rule_id'') (nested ''rule_id'' ''''),
          al_risk_score = ev_risk e, al_findings = ev_findings e, al_org_id = get_val f ''org_id'',
          al_occurrences = (case dget f ''occurrence_count'' of None \<Rightarrow> JInt 1 | Some v \<Rightarrow> v),
          al_first_seen = ev_first_seen e,
          al_last_seen = (case ev_last_seen e of None \<Rightarrow> ae_now en | Some t \<Rightarrow> t),
          al_ticket_url = None\<rparr>)"

definition should_ticket :: "alert_cfg \<Rightarrow> alert \<Rightarrow> bool" where
  "should_ticket cfg a =
     (case or_val (al_severity a) (JStr ''info'') of
        JStr s \<Rightarrow>
          (let floor = str_lower (if TICKET_MIN_SEVERITY cfg = '''' then ''critical'' else TICKET_MIN_SEVERITY cfg)
           in (case sev_lookup floor of Some n \<Rightarrow> n | None \<Rightarrow> 4) \<le> severity_order (str_lower s))
      | _ \<Rightarrow> False)"

definition make_ticket :: "alert_cfg \<Rightarrow> alert_env \<Rightarrow> alert \<Rightarrow> dispatcher \<Rightarrow> alert \<times> dispatcher" where
  "make_ticket cfg en a dp =
     (if \<not> ac_ticketing cfg \<or> \<not> should_ticket cfg a then (a, dp)
      else (let key = ''ticket:'' @ value_text (al_rule_id a) @ '':'' @ value_text (al_five_tuple a);
                (ok, st) = check_and_set_dedup (ae_dedup en key) (ae_now en) key (dp_alert dp);
                dp = dp\<lparr>dp_alert := st\<rparr>
            in if \<not> ok then (a, dp)
               else (case ae_ticket en of
                       None \<Rightarrow> (a, dp)
                     | Some url \<Rightarrow>
                         if url = '''' then (a, dp)
                         else (a\<lparr>al_ticket_url := Some url\<rparr>,
                               count_up ''tickets_created'' (dp\<lparr>dp_tickets := dp_tickets dp @ [key]\<rparr>)))))"

definition publish_alert :: "alert_env \<Rightarrow> alert \<Rightarrow> dispatcher \<Rightarrow> dispatcher" where
  \<comment> \<open>stream, notification and row are one \<open>try\<close>: the first failure skips the rest\<close>
  "publish_alert en a dp =
     dp\<lparr>dp_published := dp_published dp @ (if 1 \<le> ae_bus_ok en then [a] else []),
        dp_rows := dp_rows dp @ (if 3 \<le> ae_bus_ok en then [a] else [])\<rparr>"

definition deliver :: "alert_cfg \<Rightarrow> alert_env \<Rightarrow> event \<Rightarrow> dispatcher \<Rightarrow> dispatcher" where
  \<comment> \<open>the part of \<open>_dispatch\<close> behind the gates\<close>
  "deliver cfg en e dp =
     (let a = alert_of en e;
          rows = map (delivery_of en) (ac_adapters cfg);
          dp = count_up (if list_ex dr_sent rows then ''alerts_dispatched'' else ''alerts_failed'') dp;
          dp = dp\<lparr>dp_deliveries := dp_deliveries dp @ rows\<rparr>;
          (a, dp) = make_ticket cfg en a dp
      in publish_alert en a dp)"

definition dispatch :: "alert_cfg \<Rightarrow> alert_env \<Rightarrow> event \<Rightarrow> dispatcher \<Rightarrow> dispatcher" where
  "dispatch cfg en e dp =
     (let (go, dp) = should_alert cfg en e dp
      in if \<not> go then dp
         else (let key = group_key_of (ev e);
                   (ok, st) = check_and_set_dedup (ae_dedup en key) (ae_now en) key (dp_alert dp);
                   dp = dp\<lparr>dp_alert := st\<rparr>
               in if \<not> ok then count_up ''alerts_deduped'' dp
                  else (let (ok, st) = check_rate (ae_rate en) (ae_now en) (dp_alert dp);
                            dp = dp\<lparr>dp_alert := st\<rparr>
                        in if \<not> ok then count_up ''alerts_rate_limited'' dp else deliver cfg en e dp)))"

section \<open>Grouped alerts\<close>

definition group_fields :: "bucket \<Rightarrow> claims" where
  "group_fields b =
     [(''rule_id'', b_rule_id b), (''severity'', b_severity b), (''title'', b_title b),
      (''description'', b_description b), (''protocol'', b_protocol b), (''org_id'', b_org_id b),
      (''occurrence_count'', JInt (int (b_count b))), (''server'', JStr (b_server b))]"

definition plain_event :: "claims \<Rightarrow> event" where
  "plain_event f = \<lparr>ev = f, ev_findings = [], ev_evidence = [], ev_risk = None, ev_first_seen = None,
     ev_last_seen = None, ev_ts = None\<rparr>"

definition group_event :: "string \<times> bucket \<Rightarrow> event" where
  \<comment> \<open>a flushed group as \<open>run\<close> dispatches it\<close>
  "group_event kb =
     (plain_event ((''group_key'', JStr (fst kb)) # group_fields (snd kb)))
       \<lparr>ev_risk := b_risk (snd kb), ev_first_seen := Some (b_first_seen (snd kb)),
        ev_last_seen := Some (b_last_seen (snd kb))\<rparr>"

definition merged_event :: "event \<Rightarrow> string \<times> bucket \<Rightarrow> event" where
  \<comment> \<open>a flushed group laid over the finding that is being handled\<close>
  "merged_event e kb =
     e\<lparr>ev := foldl (\<lambda>f (k, v). dset k v f) (ev e) (group_fields (snd kb)),
       ev_risk := b_risk (snd kb), ev_first_seen := Some (b_first_seen (snd kb)),
       ev_last_seen := Some (b_last_seen (snd kb))\<rparr>"

definition flush_groups :: "alert_cfg \<Rightarrow> alert_env \<Rightarrow> (string \<times> bucket \<Rightarrow> event) \<Rightarrow> dispatcher \<Rightarrow> dispatcher" where
  "flush_groups cfg en view dp =
     (let (ready, rest) = flush_expired (ae_now en) (dp_groups dp)
      in foldl (\<lambda>dp kb. dispatch cfg en (view kb) dp) (dp\<lparr>dp_groups := rest\<rparr>) ready)"

section \<open>Handling an entry\<close>

datatype entry = Undecodable | Not_A_Dict | Finding event

definition give_up :: "alert_cfg \<Rightarrow> string \<Rightarrow> event option broker \<Rightarrow> event option broker" where
  \<comment> \<open>a failed attempt; what is dead-lettered of an entry that is no finding is the empty object\<close>
  "give_up cfg eid br =
     (let (n, br) = note_attempt eid br
      in if STREAM_MAX_ATTEMPTS cfg \<le> n then dead_letter eid None n br else br)"

definition settle :: "string \<Rightarrow> event option broker \<Rightarrow> event option broker" where
  "settle eid br = clear_attempts eid (ack_entry eid br)"

definition group_entry :: "alert_cfg \<Rightarrow> alert_env \<Rightarrow> event \<Rightarrow> dispatcher \<Rightarrow> dispatcher" where
  \<comment> \<open>routing only tags the finding, and no one reads the tag\<close>
  "group_entry cfg en e dp =
     (let (routing, dp) = route_finding en e dp
      in flush_groups cfg en (merged_event e)
           (dp\<lparr>dp_groups := add_finding (ac_hold cfg) e (ae_now en) (dp_groups dp)\<rparr>))"

definition accept_finding :: "alert_cfg \<Rightarrow> alert_env \<Rightarrow> event \<Rightarrow> dispatcher \<Rightarrow> dispatcher" where
  "accept_finding cfg en e dp =
     (let (go, dp) = should_alert cfg en e dp
      in if \<not> go then dp
         else (let (hidden, dp) = suppressed en e dp
               in if hidden then count_up ''alerts_suppressed'' dp
                  else if severity_order (value_text (or_val (severity_val (ev e)) (JStr ''info''))) < 4
                  then (let (p, dp) = policy_for cfg en (org_of (ev e)) dp
                        in if in_quiet cfg p (ae_now en)
                           then count_up ''alerts_quiet_held'' (stash_digest en e (quiet_key e) dp)
                           else if pl_digest p = ''daily'' \<or> pl_digest p = ''weekly''
                           then count_up ''alerts_digested''
                                  (stash_digest en e (digest_key (ae_now en) (pl_digest p) e) dp)
                           else group_entry cfg en e dp)
                  else group_entry cfg en e dp))"

definition handle_finding ::
  "alert_cfg \<Rightarrow> alert_env \<Rightarrow> string \<Rightarrow> entry \<Rightarrow> dispatcher \<times> event option broker \<Rightarrow> dispatcher \<times> event option broker" where
  "handle_finding cfg en eid x w =
     (case x of
        Finding e \<Rightarrow> (accept_finding cfg en e (fst w), settle eid (snd w))
      | _ \<Rightarrow> (fst w, give_up cfg eid (snd w)))"

section \<open>Digests\<close>

fun tally :: "jval list \<Rightarrow> (jval \<times> nat) list \<Rightarrow> (jval \<times> nat) list" where
  \<comment> \<open>\<open>Counter\<close>, in the order of first occurrence\<close>
  "tally [] cs = cs"
| "tally (v # vs) cs = tally vs (dset v (dget_or cs v 0 + 1) cs)"

definition most_common :: "nat \<Rightarrow> (jval \<times> nat) list \<Rightarrow> (jval \<times> nat) list" where
  "most_common n cs = take n (sort_key (\<lambda>(v, k). - int k) cs)"

definition top_severity :: "stash list \<Rightarrow> jval" where
  \<comment> \<open>the first of the highest ones\<close>
  "top_severity items =
     (case map sh_severity items of
        [] \<Rightarrow> JStr ''info''
      | s # ss \<Rightarrow>
          foldl (\<lambda>m t. if severity_order (value_text m) < severity_order (value_text t) then t else m) s ss)"

definition digest_event :: "string option \<Rightarrow> stash list \<Rightarrow> event" where
  "digest_event org items =
     (let summary = join '', '' (map (\<lambda>(v, n). value_text v @ '' x'' @ dec_of n)
                      (most_common 8 (tally (map sh_rule_id items) [])))
      in plain_event
           [(''rule_id'', JStr ''digest-summary''), (''severity'', top_severity items),
            (''title'', JStr (''Alert digest: '' @ dec_of (length items) @ '' findings ('' @ summary @ '')'')),
            (''description'', JStr ('' Rolled-up non-critical findings for the period. '' @
               ''Critical alerts always bypass digests and quiet hours.'')),
            (''five_tuple'', JStr ''''), (''protocol'', JStr ''''),
            (''org_id'', case org of None \<Rightarrow> JNull | Some s \<Rightarrow> JStr s)])"

definition due_buckets :: "alert_cfg \<Rightarrow> policy \<Rightarrow> string \<Rightarrow> time \<Rightarrow> kv_key list" where
  "due_buckets cfg p org now =
     (let prev = current_period (pl_digest p) (now - 86400); current = current_period (pl_digest p) now
      in (if pl_digest p \<in> {''daily'', ''weekly''} \<and> prev \<noteq> current then [Digest_Key org prev] else [])
         @ (if in_quiet cfg p now then [] else [Quiet_Key org]))"

definition flush_bucket :: "alert_cfg \<Rightarrow> alert_env \<Rightarrow> string option \<Rightarrow> dispatcher \<Rightarrow> kv_key \<Rightarrow> dispatcher" where
  "flush_bucket cfg en org dp key =
     (case kv_items en key dp of
        [] \<Rightarrow> dp
      | items \<Rightarrow> dispatch cfg en (digest_event org items)
          (if ae_kv_set en then dp\<lparr>dp_kv := ddel key (dp_kv dp)\<rparr> else dp))"

definition flush_org :: "alert_cfg \<Rightarrow> alert_env \<Rightarrow> dispatcher \<Rightarrow> string \<Rightarrow> dispatcher" where
  "flush_org cfg en dp org =
     (let org_id = (if org = ''none'' then None else Some org);
          (p, dp) = policy_for cfg en org_id dp
      in foldl (flush_bucket cfg en org_id) dp (due_buckets cfg p org (ae_now en)))"

definition flush_digests :: "alert_cfg \<Rightarrow> alert_env \<Rightarrow> dispatcher \<Rightarrow> dispatcher" where
  "flush_digests cfg en dp = (if ae_kv_get en then foldl (flush_org cfg en) dp (dp_orgs dp) else dp)"

section \<open>Sweeps\<close>

definition expiry_event :: "alert_cfg \<Rightarrow> time \<Rightarrow> tracked_cert \<Rightarrow> event" where
  "expiry_event cfg now r =
     (let days = (case tc_not_after r of Some na \<Rightarrow> days_left now na | None \<Rightarrow> - 1);
          date = (case tc_not_after r of Some na \<Rightarrow> ac_date_text cfg (real_of_int na) | None \<Rightarrow> ''None'')
      in plain_event
           [(''rule_id'', JStr ''cert-expiry-forecast''),
            (''severity'', JStr (if days < 0 then ''high'' else if 7 < days then ''medium'' else ''high'')),
            (''title'', JStr (if days < 0 then ''Certificate already expired''
                              else ''Certificate expires in '' @ dec_int days @ '' days'')),
            (''description'', JStr (tc_subject_cn r @ '' (issuer '' @ tc_issuer_cn r @ '') expires '' @ date @
               ''; seen '' @ dec_of (tc_seen_count r) @ ''x since '' @ ac_date_text cfg (tc_first_seen r) @
               ''. Rotate before expiry.'')),
            (''five_tuple'', JStr ''''), (''protocol'', JStr ''''),
            (''org_id'', case tc_org_id r of None \<Rightarrow> JNull | Some o' \<Rightarrow> JStr o')])"

definition not_alerted_today :: "time \<Rightarrow> tracked_cert \<Rightarrow> bool" where
  "not_alerted_today now r = (case tc_alerted_at r of None \<Rightarrow> True | Some t \<Rightarrow> 86400 < now - t)"

definition expiry_sweep :: "alert_cfg \<Rightarrow> alert_env \<Rightarrow> inventory \<times> dispatcher \<Rightarrow> inventory \<times> dispatcher" where
  "expiry_sweep cfg en w =
     (let fresh = filter (not_alerted_today (ae_now en))
                    (find_expiring (ae_now en) None (ac_warn_days cfg) True (fst w));
          dp = foldl (\<lambda>dp r. dispatch cfg en (expiry_event cfg (ae_now en) r) dp) (snd w) fresh
      in (mark_alerted (ae_now en) (map tc_fingerprint fresh) (fst w), dp))"

definition misconfigured_event :: "string \<Rightarrow> string \<Rightarrow> event" where
  "misconfigured_event d error =
     plain_event
       [(''rule_id'', JStr ''transport-misconfigured''), (''severity'', JStr ''medium''),
        (''title'', JStr (''Transport security misconfigured for '' @ d)),
        (''description'', JStr (''MTA-STS/DANE check for '' @ d @ '': '' @
           (if error = '''' then ''policy invalid'' else error))),
        (''five_tuple'', JStr d), (''protocol'', JStr ''''), (''org_id'', JNull)]"

fun insort_text :: "string \<Rightarrow> string list \<Rightarrow> string list" where
  "insort_text x [] = [x]"
| "insort_text x (y # ys) = (if text_less y x then y # insort_text x ys else x # y # ys)"

definition swept_domains :: "string list \<Rightarrow> string list" where
  \<comment> \<open>the subjects of the first 25 rows, without repetition and in order\<close>
  "swept_domains cns =
     filter (\<lambda>d. d \<noteq> '''' \<and> CHR ''.'' \<in> set d)
       (foldr insort_text (remdups (map (\<lambda>cn. dropWhile (\<lambda>c. c = CHR ''*'' \<or> c = CHR ''.'') (str_lower (str_strip cn)))
          (filter (\<lambda>cn. cn \<noteq> '''') (take 25 cns)))) [])"

definition transport_sweep ::
  "alert_cfg \<Rightarrow> alert_env \<Rightarrow> (string \<Rightarrow> (string \<times> string) option) \<Rightarrow> string list \<Rightarrow> dispatcher \<Rightarrow> dispatcher" where
  \<comment> \<open>\<open>check\<close> yields status and error of a domain, \<open>None\<close> when it raises\<close>
  "transport_sweep cfg en check cns dp =
     foldl (\<lambda>dp dom. case check dom of
              Some (status, error) \<Rightarrow>
                if status = ''misconfigured''
                then dispatch cfg en (misconfigured_event dom error) (count_up ''transport_misconfigured'' dp) else dp
            | None \<Rightarrow> dp) dp (swept_domains cns)"

definition poll_round ::
  "alert_cfg \<Rightarrow> alert_env \<Rightarrow> (string \<times> entry) list \<Rightarrow> (string \<times> entry) list \<Rightarrow>
   dispatcher \<times> event option broker \<Rightarrow> dispatcher \<times> event option broker" where
  \<comment> \<open>one turn of \<open>run\<close> behind the sweeps: digests, expired groups, then the new entries or, when there are
     none, the reclaimed ones\<close>
  "poll_round cfg en items reclaimed w =
     (let dp = flush_groups cfg en group_event (flush_digests cfg en (fst w))
      in foldl (\<lambda>w (eid, x). handle_finding cfg en eid x w) (dp, snd w) (if items = [] then reclaimed else items))"

section \<open>Messages of the worker\<close>

definition message_event :: "message \<Rightarrow> event" where
  \<comment> \<open>what the worker publishes, as the dispatcher reads it\<close>
  "message_event m =
     \<lparr>ev = [(''session_id'', JStr (m_session_id m)),
            (''org_id'', case m_org_id m of None \<Rightarrow> JNull | Some o' \<Rightarrow> JStr o'),
            (''five_tuple'', JStr (m_five_tuple m)), (''protocol'', JStr (m_protocol m)),
            (''is_anomaly'', JBool (m_is_anomaly m)), (''max_severity'', JStr (m_max_severity m))],
      ev_findings = map (\<lambda>(r, s, t). [(''rule_id'', JStr r), (''severity'', JStr s), (''title'', JStr t)]) (m_findings m),
      ev_evidence = [], ev_risk = m_risk_score m, ev_first_seen = None, ev_last_seen = None, ev_ts = Some (m_ts m)\<rparr>"

section \<open>What each operation leaves alone\<close>

named_theorems dp_frame "fields of the dispatcher that an operation keeps"

lemma count_up_frame [dp_frame]:
  "dp_alert (count_up c dp) = dp_alert dp" "dp_groups (count_up c dp) = dp_groups dp"
  "dp_policies (count_up c dp) = dp_policies dp" "dp_routes (count_up c dp) = dp_routes dp"
  "dp_sups (count_up c dp) = dp_sups dp" "dp_kv (count_up c dp) = dp_kv dp" "dp_orgs (count_up c dp) = dp_orgs dp"
  "dp_deliveries (count_up c dp) = dp_deliveries dp" "dp_published (count_up c dp) = dp_published dp"
  "dp_rows (count_up c dp) = dp_rows dp" "dp_tickets (count_up c dp) = dp_tickets dp"
  by (simp_all add: count_up_def)

lemma policy_for_frame [dp_frame]:
  "policy_for cfg en org dp = (p, dp') \<Longrightarrow> \<exists>c. dp' = dp\<lparr>dp_policies := c\<rparr>"
  by (auto simp: policy_for_def Let_def split: option.splits if_splits prod.splits)
    (metis dispatcher.surjective dispatcher.update_convs(3))+

lemma should_alert_frame: "should_alert cfg en e dp = (b, dp') \<Longrightarrow> \<exists>c. dp' = dp\<lparr>dp_policies := c\<rparr>"
  by (auto simp: should_alert_def Let_def split: prod.splits dest: policy_for_frame)

lemma route_finding_frame: "route_finding en e dp = (x, dp') \<Longrightarrow> \<exists>c. dp' = dp\<lparr>dp_routes := c\<rparr>"
  by (auto simp: route_finding_def routes_for_def Let_def split: option.splits if_splits prod.splits)
    (metis dispatcher.surjective dispatcher.update_convs(4))+

lemma suppressed_frame: "suppressed en e dp = (x, dp') \<Longrightarrow> \<exists>c. dp' = dp\<lparr>dp_sups := c\<rparr>"
  by (auto simp: suppressed_def Let_def split: option.splits if_splits prod.splits)
    (metis dispatcher.surjective dispatcher.update_convs(5))+

definition dispatch_frame :: "dispatcher \<Rightarrow> dispatcher \<Rightarrow> bool" where
  "dispatch_frame dp dp' \<longleftrightarrow> dp_groups dp' = dp_groups dp \<and> dp_routes dp' = dp_routes dp \<and>
     dp_sups dp' = dp_sups dp \<and> dp_kv dp' = dp_kv dp \<and> dp_orgs dp' = dp_orgs dp"

lemma make_ticket_frame:
  "make_ticket cfg en a dp = (a', dp') \<Longrightarrow> dispatch_frame dp dp' \<and> dp_policies dp' = dp_policies dp \<and>
     dp_deliveries dp' = dp_deliveries dp \<and> dp_published dp' = dp_published dp \<and> dp_rows dp' = dp_rows dp"
  by (auto simp: make_ticket_def dispatch_frame_def Let_def dp_frame split: if_splits prod.splits option.splits)

lemma deliver_frame:
  "dispatch_frame dp (deliver cfg en e dp)"
  "dp_deliveries (deliver cfg en e dp) = dp_deliveries dp @ map (delivery_of en) (ac_adapters cfg)"
  by (auto simp: deliver_def Let_def publish_alert_def dispatch_frame_def dp_frame split: prod.splits
      dest!: make_ticket_frame)

lemma dispatch_keeps: "dispatch_frame dp (dispatch cfg en e dp)"
  using deliver_frame(1)
  by (auto simp: dispatch_def Let_def dispatch_frame_def dp_frame split: prod.splits dest!: should_alert_frame)

lemma dispatch_fold_keeps: "dispatch_frame dp (foldl (\<lambda>dp x. dispatch cfg en (view x) dp) dp xs)"
proof (induction xs arbitrary: dp)
  case Nil
  then show ?case by (simp add: dispatch_frame_def)
next
  case (Cons x xs)
  from Cons.IH [of "dispatch cfg en (view x) dp"] dispatch_keeps [of dp cfg en "view x"] show ?case
    by (simp add: dispatch_frame_def)
qed

lemma flush_groups_keeps:
  "dp_kv (flush_groups cfg en view dp) = dp_kv dp" "dp_orgs (flush_groups cfg en view dp) = dp_orgs dp"
  "dp_groups (flush_groups cfg en view dp) = snd (flush_expired (ae_now en) (dp_groups dp))"
  using dispatch_fold_keeps [of "dp\<lparr>dp_groups := snd (flush_expired (ae_now en) (dp_groups dp))\<rparr>" cfg en view
      "fst (flush_expired (ae_now en) (dp_groups dp))"]
  by (auto simp: flush_groups_def dispatch_frame_def split: prod.splits)

lemma group_entry_keeps:
  "dp_kv (group_entry cfg en e dp) = dp_kv dp" "dp_orgs (group_entry cfg en e dp) = dp_orgs dp"
  "dp_groups (group_entry cfg en e dp) =
     snd (flush_expired (ae_now en) (add_finding (ac_hold cfg) e (ae_now en) (dp_groups dp)))"
  by (auto simp: group_entry_def flush_groups_keeps split: prod.splits dest!: route_finding_frame)

section \<open>Severity\<close>

lemma sev_lookup_le: "sev_lookup s = Some n \<Longrightarrow> n \<le> 4"
  by (auto simp: sev_lookup_def split: if_splits)

lemma min_sev_le: "min_sev cfg \<le> 4"
  by (auto simp: min_sev_def split: option.split dest: sev_lookup_le)

definition finding_severity :: "event \<Rightarrow> string" where
  "finding_severity e = value_text (or_val (severity_val (ev e)) (JStr ''info''))"

definition alert_threshold :: "alert_cfg \<Rightarrow> alert_env \<Rightarrow> event \<Rightarrow> dispatcher \<Rightarrow> nat" where
  "alert_threshold cfg en e dp =
     (case sev_lookup (pl_min_severity (fst (policy_for cfg en (org_of (ev e)) dp))) of
        Some n \<Rightarrow> n | None \<Rightarrow> min_sev cfg)"

lemma should_alert_iff:
  "fst (should_alert cfg en e dp) \<longleftrightarrow> alert_threshold cfg en e dp \<le> severity_order (finding_severity e)"
  by (simp add: should_alert_def alert_threshold_def finding_severity_def Let_def split: prod.split)

lemma alert_threshold_le: "alert_threshold cfg en e dp \<le> 4"
  using min_sev_le by (auto simp: alert_threshold_def split: option.split dest: sev_lookup_le)

lemma severity_critical: "severity_order ''critical'' = 4"
  by (simp add: severity_order_def dget_or_def)

lemma critical_is_grouped:
  assumes "finding_severity e = ''critical''"
  shows "\<exists>p s. let dp' = dp\<lparr>dp_policies := p, dp_sups := s\<rparr> in
    accept_finding cfg en e dp = count_up ''alerts_suppressed'' dp' \<or>
    accept_finding cfg en e dp = group_entry cfg en e dp'"
proof -
  obtain b dp1 where g: "should_alert cfg en e dp = (b, dp1)" by fastforce
  then have b
    using should_alert_iff [of cfg en e dp] alert_threshold_le [of cfg en e dp] assms
    by (simp add: severity_critical)
  obtain p where p: "dp1 = dp\<lparr>dp_policies := p\<rparr>" using should_alert_frame [OF g] by blast
  obtain h dp2 where h: "suppressed en e dp1 = (h, dp2)" by fastforce
  obtain s where s: "dp2 = dp1\<lparr>dp_sups := s\<rparr>" using suppressed_frame [OF h] by blast
  have "accept_finding cfg en e dp = (if h then count_up ''alerts_suppressed'' dp2 else group_entry cfg en e dp2)"
    using assms \<open>b\<close> by (simp add: accept_finding_def g h finding_severity_def severity_critical)
  with p s show ?thesis by (auto simp: Let_def)
qed

text \<open>C26: A critical finding passes every severity threshold and is never held back by quiet hours or a
  digest: no bucket in Redis changes, and unless an accepted risk covers it, it reaches the group buffer,
  where every group that is due goes out at once.\<close>

theorem critical_never_held:
  assumes "finding_severity e = ''critical''"
  shows "dp_kv (accept_finding cfg en e dp) = dp_kv dp \<and> dp_orgs (accept_finding cfg en e dp) = dp_orgs dp \<and>
    (dp_counters (accept_finding cfg en e dp) = dp_counters dp @ [''alerts_suppressed''] \<or>
     dp_groups (accept_finding cfg en e dp) =
       snd (flush_expired (ae_now en) (add_finding (ac_hold cfg) e (ae_now en) (dp_groups dp))))"
proof -
  obtain p s where "accept_finding cfg en e dp = count_up ''alerts_suppressed'' (dp\<lparr>dp_policies := p, dp_sups := s\<rparr>) \<or>
      accept_finding cfg en e dp = group_entry cfg en e (dp\<lparr>dp_policies := p, dp_sups := s\<rparr>)"
    using critical_is_grouped [OF assms, of dp cfg en] unfolding Let_def by blast
  then show ?thesis by (auto simp: group_entry_keeps dp_frame) (simp add: count_up_def)
qed

section \<open>Delivery\<close>

lemma send_one_iff: "fst (send_one out) \<longleftrightarrow> out 0 = Inr True \<or> out 1 = Inr True"
  by (auto simp: send_one_def Let_def send_tries.simps [of out 0 "Suc 0"] send_tries.simps [of out "Suc 0" 0]
      split: sum.split)

lemma delivery_of_sel:
  "dr_alert_id (delivery_of en c) = ae_id en" "dr_channel (delivery_of en c) = c"
  "dr_sent (delivery_of en c) = fst (send_one (ae_send en c))"
  by (simp_all add: delivery_of_def split: prod.split)

lemma dispatch_deliveries:
  "dp_deliveries (dispatch cfg en e dp) = dp_deliveries dp \<or>
   dp_deliveries (dispatch cfg en e dp) = dp_deliveries dp @ map (delivery_of en) (ac_adapters cfg)"
  by (auto simp: dispatch_def Let_def deliver_frame(2) dp_frame split: prod.splits dest!: should_alert_frame)

text \<open>An alert that passes severity, deduplication and the rate budget is tried on every configured
  channel, each independently of the others: one delivery row per channel in order, and it says sent
  exactly when the first try or the retry was accepted.\<close>

theorem every_channel_tried:
  "dp_deliveries (dispatch cfg en e dp) = dp_deliveries dp \<or>
   (\<exists>rows. dp_deliveries (dispatch cfg en e dp) = dp_deliveries dp @ rows \<and>
      map dr_channel rows = ac_adapters cfg \<and>
      list_all (\<lambda>r. dr_alert_id r = ae_id en \<and>
        (dr_sent r \<longleftrightarrow> ae_send en (dr_channel r) 0 = Inr True \<or> ae_send en (dr_channel r) 1 = Inr True)) rows)"
  using dispatch_deliveries [of cfg en e dp]
proof
  assume "dp_deliveries (dispatch cfg en e dp) = dp_deliveries dp @ map (delivery_of en) (ac_adapters cfg)"
  then show ?thesis
    by (intro disjI2 exI [of _ "map (delivery_of en) (ac_adapters cfg)"])
      (simp add: delivery_of_sel list_all_iff send_one_iff comp_def)
qed simp

section \<open>What the acknowledgement promises\<close>

text \<open>C27: Handling is said to be at least once, but a finding is acknowledged as soon as it sits in the
  memory of the process: after a critical finding has been handled with an empty group buffer, its entry is
  acknowledged and its attempts are cleared, while nothing was sent, published or stored. Unless an accepted
  risk covers it, it exists in the buffer only, and a restart before the hold time ends loses it.\<close>

theorem acked_before_alert:
  assumes "finding_severity e = ''critical''" "dp_groups dp = []" "0 < ac_hold cfg"
    and "handle_finding cfg en eid (Finding e) (dp, br) = (dp', br')"
  shows "br_acked br' = br_acked br @ [eid] \<and> dget (br_attempts br') eid = None \<and>
    dp_deliveries dp' = dp_deliveries dp \<and> dp_published dp' = dp_published dp \<and>
    dp_rows dp' = dp_rows dp \<and> dp_kv dp' = dp_kv dp \<and>
    (dp_counters dp' = dp_counters dp @ [''alerts_suppressed''] \<or>
     dget (dp_groups dp') (group_key_of (ev e)) \<noteq> None)"
proof -
  obtain p s where a: "accept_finding cfg en e dp = count_up ''alerts_suppressed'' (dp\<lparr>dp_policies := p, dp_sups := s\<rparr>) \<or>
      accept_finding cfg en e dp = group_entry cfg en e (dp\<lparr>dp_policies := p, dp_sups := s\<rparr>)"
    using critical_is_grouped [OF assms(1), of dp cfg en] unfolding Let_def by blast
  have "dp_deliveries (group_entry cfg en e d) = dp_deliveries d \<and> dp_published (group_entry cfg en e d) = dp_published d \<and>
      dp_rows (group_entry cfg en e d) = dp_rows d \<and> dget (dp_groups (group_entry cfg en e d)) (group_key_of (ev e)) \<noteq> None"
    if "dp_groups d = []" for d
    using that assms(3)
    by (auto simp: group_entry_def flush_groups_def add_finding_def flush_expired_def Let_def
        split: prod.splits dest!: route_finding_frame)
  with a assms(2,4) show ?thesis
    by (auto simp: handle_finding_def settle_def ack_entry_def clear_attempts_def dp_frame group_entry_keeps(1) delete_conv)
      (simp_all add: count_up_def)
qed

section \<open>Messages of the worker\<close>

lemma message_rule [simp]: "get_val (ev (message_event m)) ''rule_id'' = JNull"
  by (simp add: message_event_def get_val_def)

lemma message_org [simp]: "org_of (ev (message_event m)) = m_org_id m"
  by (simp add: message_event_def org_of_def get_val_def split: option.split)

lemma message_severity [simp]: "m_max_severity m \<noteq> '''' \<Longrightarrow> finding_severity (message_event m) = m_max_severity m"
  by (simp add: message_event_def finding_severity_def severity_val_def or_val_def get_val_def value_text_def)

text \<open>An accepted risk for one rule never silences a live alert: what the worker publishes has no rule at
  the top level, so only a suppression for every rule can match it.\<close>

theorem rule_suppression_never_applies:
  assumes "\<forall>s \<in> set sups. sup_rule_id s \<noteq> ''*'' \<and> sup_rule_id s \<noteq> ''''"
  shows "match_suppression now (text_or_empty (get_val (ev (message_event m)) ''rule_id'')) (message_event m) sups = Some None"
  using assms by (induction sups) (auto simp: text_or_empty_def)

text \<open>Nor does a route by rule ever match; and two messages about one server have one group and one
  deduplication key, whatever their findings.\<close>

lemma message_not_routed_by_rule: "\<not> route_hits (ev (message_event m)) ''rule'' r"
  by (simp add: route_hits_def)

lemma message_key:
  "group_key_of (ev (message_event m)) = ''unknown:'' @ server_host_of [(''five_tuple'', JStr (m_five_tuple m))]"
  by (simp add: group_key_of_def rule_text_def message_event_def server_host_of_def get_truthy_def)

text \<open>A session with a critical and a medium finding is announced as medium, so an organisation that
  alerts from high upwards is never told of it: the entry is acknowledged, and nothing is grouped, held,
  sent or published.\<close>

theorem critical_session_never_alerted:
  assumes "set (map f_severity (sa_findings sa)) = {CRITICAL, MEDIUM}"
    and "m = message_of now sc k org sa" "3 \<le> alert_threshold cfg en (message_event m) dp"
    and "handle_finding cfg en eid (Finding (message_event m)) (dp, br) = (dp', br')"
  shows "br_acked br' = br_acked br @ [eid] \<and> dp_groups dp' = dp_groups dp \<and> dp_kv dp' = dp_kv dp \<and>
    dp_deliveries dp' = dp_deliveries dp \<and> dp_published dp' = dp_published dp"
proof -
  have "m_max_severity m = ''medium''"
    using published_max_medium [OF assms(1), of now sc k org] assms(2) by simp
  then have "\<not> fst (should_alert cfg en (message_event m) dp)"
    using assms(3) by (simp add: should_alert_iff severity_order_def dget_or_def)
  then obtain dp1 where g: "should_alert cfg en (message_event m) dp = (False, dp1)"
    by (metis (full_types) prod.collapse)
  then have "accept_finding cfg en (message_event m) dp = dp1" by (simp add: accept_finding_def)
  with assms(4) should_alert_frame [OF g] show ?thesis
    by (auto simp: handle_finding_def settle_def ack_entry_def clear_attempts_def)
qed

section \<open>One key, one alert\<close>

definition blocked :: "string \<Rightarrow> alert_env \<Rightarrow> dispatcher \<Rightarrow> bool" where
  "blocked K en dp \<longleftrightarrow> ae_now en - dget_or (as_dedup (dp_alert dp)) K 0 < as_window (dp_alert dp)"

lemma dedup_memory:
  assumes "check_and_set_dedup None now key s = (ok, s')" "length (as_dedup s) < 5000"
  shows "as_window s' = as_window s" "length (as_dedup s') \<le> Suc (length (as_dedup s))"
    "dget (as_dedup s') K = dget (as_dedup s) K \<or> dget (as_dedup s') K = Some now"
    "ok \<Longrightarrow> dget (as_dedup s') key = Some now" "\<not> ok \<Longrightarrow> s' = s"
    "ok \<longleftrightarrow> \<not> now - dget_or (as_dedup s) key 0 < as_window s"
  using assms length_dset_le [of key now "as_dedup s"]
  by (auto simp: check_and_set_dedup_def trim_dedup_def split: if_splits)

lemma check_rate_keeps:
  "check_rate redis now s = (ok, s') \<Longrightarrow> as_dedup s' = as_dedup s \<and> as_window s' = as_window s"
  by (auto simp: check_rate_def Let_def split: option.splits if_splits)

lemma make_ticket_alert:
  \<comment> \<open>the shared alert state after a ticket: unchanged, or one more key\<close>
  assumes "make_ticket cfg en a dp = (a', dp')"
  shows "dp_alert dp' = dp_alert dp \<or>
    (\<exists>key ok. check_and_set_dedup (ae_dedup en key) (ae_now en) key (dp_alert dp) = (ok, dp_alert dp'))"
  using assms by (auto simp: make_ticket_def Let_def dp_frame split: if_splits prod.splits option.splits)

lemma make_ticket_memory:
  assumes "make_ticket cfg en a dp = (a', dp')" "ae_dedup en = (\<lambda>_. None)" "length (as_dedup (dp_alert dp)) < 5000"
  shows "as_window (dp_alert dp') = as_window (dp_alert dp)"
    "length (as_dedup (dp_alert dp')) \<le> Suc (length (as_dedup (dp_alert dp)))"
    "dget (as_dedup (dp_alert dp')) K = dget (as_dedup (dp_alert dp)) K \<or>
     dget (as_dedup (dp_alert dp')) K = Some (ae_now en)"
  using make_ticket_alert [OF assms(1)] assms(2,3) dedup_memory(1-3) [of "ae_now en" _ "dp_alert dp"]
  by (auto dest: dedup_memory(1-3))

lemma deliver_memory:
  assumes "ae_dedup en = (\<lambda>_. None)" "length (as_dedup (dp_alert dp)) < 5000"
  shows "as_window (dp_alert (deliver cfg en e dp)) = as_window (dp_alert dp)"
    "length (as_dedup (dp_alert (deliver cfg en e dp))) \<le> Suc (length (as_dedup (dp_alert dp)))"
    "dget (as_dedup (dp_alert dp)) K = Some (ae_now en) \<Longrightarrow>
     dget (as_dedup (dp_alert (deliver cfg en e dp))) K = Some (ae_now en)"
    "length (dp_published (deliver cfg en e dp)) \<le> Suc (length (dp_published dp))"
proof -
  let ?d = "(count_up (if list_ex dr_sent (map (delivery_of en) (ac_adapters cfg)) then ''alerts_dispatched''
       else ''alerts_failed'') dp)"
  let ?d = "?d\<lparr>dp_deliveries := dp_deliveries ?d @ map (delivery_of en) (ac_adapters cfg)\<rparr>"
  obtain a dp' where t: "make_ticket cfg en (alert_of en e) ?d = (a, dp')" by fastforce
  have d: "deliver cfg en e dp = publish_alert en a dp'" using t by (simp add: deliver_def Let_def)
  note m = make_ticket_memory [OF t assms(1)] make_ticket_frame [OF t]
  show "as_window (dp_alert (deliver cfg en e dp)) = as_window (dp_alert dp)"
    "length (as_dedup (dp_alert (deliver cfg en e dp))) \<le> Suc (length (as_dedup (dp_alert dp)))"
    "dget (as_dedup (dp_alert dp)) K = Some (ae_now en) \<Longrightarrow>
     dget (as_dedup (dp_alert (deliver cfg en e dp))) K = Some (ae_now en)"
    "length (dp_published (deliver cfg en e dp)) \<le> Suc (length (dp_published dp))"
    using m(1,2,4) m(3) [of K] assms(2) by (auto simp: d publish_alert_def dp_frame)
qed

lemma dispatch_memory:
  assumes none: "ae_dedup en = (\<lambda>_. None)" and room: "length (as_dedup (dp_alert dp)) + 2 \<le> 5000"
    and w: "0 < as_window (dp_alert dp)"
    and K: "group_key_of (ev e) = K"
  shows "as_window (dp_alert (dispatch cfg en e dp)) = as_window (dp_alert dp)"
    "length (as_dedup (dp_alert (dispatch cfg en e dp))) \<le> length (as_dedup (dp_alert dp)) + 2"
    "length (dp_published (dispatch cfg en e dp)) + (if blocked K en (dispatch cfg en e dp) then 0 else 1)
       \<le> length (dp_published dp) + (if blocked K en dp then 0 else 1)"
proof -
  let ?out = "dispatch cfg en e dp"
  obtain go dp1 where g: "should_alert cfg en e dp = (go, dp1)" by fastforce
  obtain c where dp1: "dp1 = dp\<lparr>dp_policies := c\<rparr>" using should_alert_frame [OF g] by blast
  obtain ok s1 where d: "check_and_set_dedup None (ae_now en) K (dp_alert dp) = (ok, s1)" by fastforce
  note dm = dedup_memory [OF d]
  obtain ok2 s2 where r: "check_rate (ae_rate en) (ae_now en) s1 = (ok2, s2)" by fastforce
  note rk = check_rate_keeps [OF r]
  let ?d2 = "dp1\<lparr>dp_alert := s2\<rparr>"
  have out: "?out = (if \<not> go then dp1 else if \<not> ok then count_up ''alerts_deduped'' (dp1\<lparr>dp_alert := s1\<rparr>)
      else if \<not> ok2 then count_up ''alerts_rate_limited'' ?d2 else deliver cfg en e ?d2)"
    using d r by (simp add: dispatch_def g none K dp1)
  have len: "length (as_dedup (dp_alert ?d2)) < 5000" using dm(2) rk room by auto
  note dl = deliver_memory [OF none len, where cfg = cfg and e = e]
  have dl3: "dget (as_dedup (dp_alert (deliver cfg en e ?d2))) K = Some (ae_now en)" if ok
    using dl(3) [where K = K] dm(4) that rk room by simp
  show "as_window (dp_alert ?out) = as_window (dp_alert dp)"
    "length (as_dedup (dp_alert ?out)) \<le> length (as_dedup (dp_alert dp)) + 2"
    using dl(1,2) dm(1,2) rk room by (auto simp: out dp1 dp_frame)
  show "length (dp_published ?out) + (if blocked K en ?out then 0 else 1)
       \<le> length (dp_published dp) + (if blocked K en dp then 0 else 1)"
    using dl(1,4) dl3 dm(1,4-6) rk room w by (auto simp: out dp1 dp_frame blocked_def dget_or_def)
qed

lemma same_key_once:
  assumes "ae_dedup en = (\<lambda>_. None)" "length (as_dedup (dp_alert dp)) + 2 * length xs \<le> 5000"
    "0 < as_window (dp_alert dp)" "\<forall>x \<in> set xs. group_key_of (ev (view x)) = K"
  shows "length (dp_published (foldl (\<lambda>dp x. dispatch cfg en (view x) dp) dp xs)) \<le> Suc (length (dp_published dp))"
proof -
  have "length (dp_published (foldl (\<lambda>dp x. dispatch cfg en (view x) dp) dp xs))
      \<le> length (dp_published dp) + (if blocked K en dp then 0 else 1)"
    using assms(2-)
  proof (induction xs arbitrary: dp)
    case Nil
    then show ?case by simp
  next
    case (Cons x xs)
    have "length (as_dedup (dp_alert dp)) + 2 \<le> 5000" "group_key_of (ev (view x)) = K" using Cons.prems by auto
    note m = dispatch_memory [OF assms(1) this(1) Cons.prems(2) this(2), where cfg = cfg]
    have "length (dp_published (foldl (\<lambda>dp x. dispatch cfg en (view x) dp) (dispatch cfg en (view x) dp) xs))
        \<le> length (dp_published (dispatch cfg en (view x) dp)) + (if blocked K en (dispatch cfg en (view x) dp) then 0 else 1)"
      using m(1,2) Cons.prems by (intro Cons.IH) auto
    with m(3) show ?case by simp
  qed
  then show ?thesis by (auto split: if_splits)
qed

section \<open>Expiring certificates\<close>

lemma expiry_key: "group_key_of (ev (expiry_event cfg now r)) = ''cert-expiry-forecast:unknown''"
  by (simp add: expiry_event_def plain_event_def group_key_of_def rule_text_def value_text_def server_host_of_def
      get_truthy_def first_of_def Let_def split: prod.split)

lemma mark_alerted_at:
  "(\<exists>r'. dget (mark_alerted now fps iv) fp = Some r' \<and> tc_alerted_at r' = Some now) \<longleftrightarrow>
     (\<exists>r. dget iv fp = Some r \<and> (fp \<in> set fps \<or> tc_alerted_at r = Some now))"
proof (induction fps arbitrary: iv)
  case Nil
  then show ?case by (simp add: mark_alerted_def)
next
  case (Cons f fps)
  then show ?case by (auto simp: mark_alerted_def split: option.splits)
qed

text \<open>One expiry sweep publishes at most one alert, whatever the number of certificates about to expire,
  because their alerts share one deduplication key; but every one of them is marked as alerted and is left
  out for a day.\<close>

theorem one_expiry_alert_per_sweep:
  assumes "ae_dedup en = (\<lambda>_. None)" "0 < as_window (dp_alert dp)"
    "length (as_dedup (dp_alert dp)) + 2 * length iv \<le> 5000" "\<forall>(fp, r) \<in> set iv. tc_fingerprint r = fp"
    and "expiry_sweep cfg en (iv, dp) = (iv', dp')"
  shows "length (dp_published dp') \<le> Suc (length (dp_published dp)) \<and>
    (\<forall>fp r. dget iv fp = Some r \<longrightarrow> not_alerted_today (ae_now en) r \<longrightarrow>
       expires_by (ae_now en + 86400 * real (ac_warn_days cfg)) r \<longrightarrow>
       (\<exists>r'. dget iv' fp = Some r' \<and> tc_alerted_at r' = Some (ae_now en)))"
proof -
  let ?rows = "find_expiring (ae_now en) None (ac_warn_days cfg) True iv"
  let ?fresh = "filter (not_alerted_today (ae_now en)) ?rows"
  have "length ?rows \<le> length iv"
    using length_filter_le [of _ "map snd iv"] by (simp add: find_expiring_def)
  then have "length ?fresh \<le> length iv" using length_filter_le le_trans by blast
  then have "length (as_dedup (dp_alert dp)) + 2 * length ?fresh \<le> 5000" using assms(3) by linarith
  from same_key_once [OF assms(1) this assms(2), of "expiry_event cfg (ae_now en)"]
  have "length (dp_published dp') \<le> Suc (length (dp_published dp))"
    using assms(5) by (auto simp: expiry_sweep_def expiry_key Let_def)
  moreover have "\<exists>r'. dget iv' fp = Some r' \<and> tc_alerted_at r' = Some (ae_now en)"
    if r: "dget iv fp = Some r" "not_alerted_today (ae_now en) r"
      "expires_by (ae_now en + 86400 * real (ac_warn_days cfg)) r" for fp r
  proof -
    have "(fp, r) \<in> set iv" using r(1) by (rule map_of_SomeD)
    with r have "r \<in> set ?fresh" by (force simp: find_expiring_mem visible_to_def no_text_def)
    moreover have "tc_fingerprint r = fp" using assms(4) \<open>(fp, r) \<in> set iv\<close> by auto
    ultimately have "fp \<in> set (map tc_fingerprint ?fresh)" by force
    then show ?thesis
      using r(1) assms(5) mark_alerted_at [of "ae_now en" "map tc_fingerprint ?fresh" iv fp]
      by (auto simp: expiry_sweep_def Let_def)
  qed
  ultimately show ?thesis by blast
qed

section \<open>Digests\<close>

lemma digest_key_shared: "group_key_of (ev (digest_event org items)) = ''digest-summary:unknown''"
  by (simp add: digest_event_def plain_event_def group_key_of_def rule_text_def value_text_def server_host_of_def
      get_truthy_def first_of_def Let_def split: prod.split)

text \<open>The digests of all organisations share one deduplication key, too: of those that are due in one round
  at most one is published, while the buckets of all are deleted.\<close>

lemma one_digest_for_all_tenants:
  assumes "ae_dedup en = (\<lambda>_. None)" "0 < as_window (dp_alert dp)"
    "length (as_dedup (dp_alert dp)) + 2 * length digests \<le> 5000"
  shows "length (dp_published (foldl (\<lambda>dp (org, items). dispatch cfg en (digest_event org items) dp) dp digests))
    \<le> Suc (length (dp_published dp))"
  using same_key_once [OF assms(1,3,2), of "\<lambda>(org, items). digest_event org items" "''digest-summary:unknown''" cfg]
  by (simp add: digest_key_shared split_beta')

text \<open>A weekly digest is due on Mondays only: when the dispatcher does not run on that day, the bucket of the
  week is never sent.\<close>

lemma week_turns:
  fixes k :: int
  shows "(k + 2) div 7 \<noteq> (k + 3) div 7 \<longleftrightarrow> (k + 3) mod 7 = 0"
proof -
  define q r where "q = (k + 3) div 7" and "r = (k + 3) mod 7"
  have k: "k + 3 = 7 * q + r" "0 \<le> r" "r < 7" by (simp_all add: q_def r_def)
  have "(k + 2) div 7 = (if r = 0 then q - 1 else q)"
    using k by (intro int_div_pos_eq [where r = "if r = 0 then 6 else r - 1"]) (auto split: if_splits)
  then show ?thesis by (simp flip: q_def r_def)
qed

lemma weekly_due_on_monday:
  assumes "pl_digest p = ''weekly''" "Digest_Key org d \<in> set (due_buckets cfg p org now)"
  shows "(\<lfloor>now\<rfloor> div 86400 + 3) mod 7 = 0"
proof -
  have "\<lfloor>now - 86400\<rfloor> = \<lfloor>now\<rfloor> - 86400" by linarith
  moreover have "(\<lfloor>now\<rfloor> - 86400) div 86400 = \<lfloor>now\<rfloor> div 86400 - 1"
    using div_mult_self1 [of 86400 "\<lfloor>now\<rfloor>" "- 1"] by simp
  ultimately have "(\<lfloor>now\<rfloor> div 86400 + 2) div 7 \<noteq> (\<lfloor>now\<rfloor> div 86400 + 3) div 7"
    using assms by (auto simp: due_buckets_def current_period_def Let_def split: if_splits)
  then show ?thesis by (simp add: week_turns)
qed

lemma digest_off_keeps_bucket:
  \<comment> \<open>a bucket is only ever looked at while the policy still asks for digests\<close>
  "pl_digest p = ''off'' \<Longrightarrow> Digest_Key org d \<notin> set (due_buckets cfg p org now)"
  by (auto simp: due_buckets_def Let_def)

section \<open>Buckets are bounded\<close>

definition kv_ok :: "dispatcher \<Rightarrow> bool" where
  "kv_ok dp \<longleftrightarrow> (\<forall>(k, t, items) \<in> set (dp_kv dp). length items \<le> 200)"

lemma kv_items_le: "kv_ok dp \<Longrightarrow> length (kv_items en key dp) \<le> 200"
  by (auto simp: kv_items_def kv_ok_def split: option.split dest!: map_of_SomeD)

lemma kv_ok_stash: "kv_ok dp \<Longrightarrow> kv_ok (stash_digest en e key dp)"
  by (fastforce simp: kv_ok_def stash_digest_def Let_def dp_frame keep_last_def dest: set_dset)

lemma stash_newest:
  \<comment> \<open>what is stashed is there, last\<close>
  assumes "ae_kv_set en" "ae_kv_get en"
  shows "\<exists>items. kv_items en key (stash_digest en e key dp) = items @ [stash_of (ae_now en) e]"
proof -
  have "keep_last 200 (xs @ [y]) = drop (Suc (length xs) - 200) xs @ [y]" if "200 < Suc (length xs)" for xs :: "stash list" and y
    using that by (simp add: keep_last_def)
  with assms show ?thesis by (auto simp: kv_items_def stash_digest_def Let_def dp_frame)
qed

lemma kv_ok_same [simp]:
  "kv_ok (count_up c dp) = kv_ok dp" "kv_ok (dp\<lparr>dp_policies := p\<rparr>) = kv_ok dp" "kv_ok (dp\<lparr>dp_sups := s\<rparr>) = kv_ok dp"
  "kv_ok (group_entry cfg en e dp) = kv_ok dp"
  by (simp_all add: kv_ok_def dp_frame group_entry_keeps)

lemma kv_ok_accept: "kv_ok dp \<Longrightarrow> kv_ok (accept_finding cfg en e dp)"
  by (auto simp: accept_finding_def Let_def kv_ok_stash split: prod.splits
      dest!: should_alert_frame suppressed_frame policy_for_frame)

section \<open>Text for the SIEM\<close>

lemma cef_levels: "dec_of 1 = ''1''" "dec_of 8 = ''8''"
  by code_simp+

lemma cef_injection:
  \<comment> \<open>nothing is escaped in a CEF line: a title can forge the severity field and the message\<close>
  assumes "al_severity a = JStr ''high''" "al_title a = JStr ''x|1|msg=ok''"
    "b = a\<lparr>al_severity := JStr ''info'', al_title := JStr ''x'', al_description := JStr (''ok|8|msg='' @ value_text (al_description a))\<rparr>"
  shows "cef_line a = cef_line b"
  using assms by (simp add: cef_line_def dget_or_def value_text_def cef_levels [simplified])

section \<open>Instances\<close>

definition demo_alert_cfg :: alert_cfg where
  "demo_alert_cfg = \<lparr>ALERT_MIN_SEVERITY = ''high'', STREAM_MAX_ATTEMPTS = 3, TICKET_MIN_SEVERITY = ''critical'',
     ac_ticketing = False, ac_adapters = [''webhook''], ac_tz_offset = (\<lambda>tz t. None), ac_hold = 10,
     ac_warn_days = 30, ac_date_text = (\<lambda>t. '''')\<rparr>"

definition demo_alert_env :: alert_env where
  "demo_alert_env = \<lparr>ae_now = 1000, ae_id = ''id'', ae_policy = (\<lambda>o'. None), ae_routes = (\<lambda>o'. None),
     ae_sups = (\<lambda>o'. None), ae_dedup = (\<lambda>k. None), ae_rate = None, ae_kv_get = True, ae_kv_set = True,
     ae_send = (\<lambda>c i. Inr True), ae_ticket = None, ae_bus_ok = 3\<rparr>"

definition demo_dispatcher :: dispatcher where
  "demo_dispatcher = \<lparr>dp_alert = \<lparr>as_dedup = [], as_rate = [], as_window = 300, as_per_minute = 30\<rparr>,
     dp_groups = [], dp_policies = [], dp_routes = [], dp_sups = [], dp_kv = [], dp_orgs = [], dp_deliveries = [],
     dp_published = [], dp_rows = [], dp_tickets = [], dp_counters = []\<rparr>"

definition demo_event :: event where
  "demo_event = plain_event [(''five_tuple'', JStr ''10.0.0.1:40000->10.0.0.2:25''), (''max_severity'', JStr ''critical'')]"

definition demo_broker :: "event option broker" where
  "demo_broker = \<lparr>br_attempts = [], br_acked = [], br_dlq = []\<rparr>"

definition demo_medium :: session_analysis where
  "demo_medium = extra_finding ''a'' ''a'' CRITICAL '''' (extra_finding ''b'' ''b'' MEDIUM '''' (new_analysis '''' '''' '''' False))"

lemma demo_event_critical: "finding_severity demo_event = ''critical''"
  by (simp add: demo_event_def plain_event_def finding_severity_def severity_val_def or_val_def get_val_def value_text_def)

lemma demo_threshold: "alert_threshold demo_alert_cfg demo_alert_env e demo_dispatcher = 3"
  by (simp add: alert_threshold_def policy_for_def demo_dispatcher_def load_policy_def demo_alert_env_def Let_def
      default_policy_def demo_alert_cfg_def sev_lookup_def split: option.split)

lemma demo_state: "ac_hold demo_alert_cfg = 10" "ae_dedup demo_alert_env = (\<lambda>k. None)" "dp_groups demo_dispatcher = []"
  "dp_kv demo_dispatcher = []" "dp_published demo_dispatcher = []" "dp_deliveries demo_dispatcher = []" "br_acked demo_broker = []"
  "as_window (dp_alert demo_dispatcher) = 300" "as_dedup (dp_alert demo_dispatcher) = []"
  by (simp_all add: demo_alert_cfg_def demo_alert_env_def demo_dispatcher_def demo_broker_def)

lemma critical_never_held_witness: "dp_kv (accept_finding demo_alert_cfg demo_alert_env demo_event demo_dispatcher) = []"
  using critical_never_held [OF demo_event_critical, of demo_alert_cfg demo_alert_env demo_dispatcher]
  by (simp add: demo_state)

lemma acked_before_alert_witness:
  "\<exists>dp br. handle_finding demo_alert_cfg demo_alert_env ''7-0'' (Finding demo_event) (demo_dispatcher, demo_broker) = (dp, br) \<and>
     br_acked br = [''7-0''] \<and> dp_published dp = []"
proof -
  obtain dp br where h: "handle_finding demo_alert_cfg demo_alert_env ''7-0'' (Finding demo_event)
      (demo_dispatcher, demo_broker) = (dp, br)" by fastforce
  from acked_before_alert [OF demo_event_critical _ _ h] show ?thesis by (simp add: h demo_state)
qed

lemma rule_suppression_never_applies_witness:
  "match_suppression 2000 (text_or_empty (get_val (ev (message_event (message_of 0 None ''k'' None demo_medium))) ''rule_id''))
     (message_event (message_of 0 None ''k'' None demo_medium)) [sup_example_row] = Some None"
  by (rule rule_suppression_never_applies) (simp add: sup_example_row_def)

lemma critical_session_never_alerted_witness:
  "\<exists>dp br. handle_finding demo_alert_cfg demo_alert_env ''7-0''
       (Finding (message_event (message_of 0 None ''k'' None demo_medium))) (demo_dispatcher, demo_broker) = (dp, br) \<and>
     br_acked br = [''7-0''] \<and> dp_groups dp = [] \<and> dp_published dp = []"
proof -
  let ?m = "message_of 0 None ''k'' None demo_medium"
  obtain dp br where h: "handle_finding demo_alert_cfg demo_alert_env ''7-0'' (Finding (message_event ?m))
      (demo_dispatcher, demo_broker) = (dp, br)" by fastforce
  have "set (map f_severity (sa_findings demo_medium)) = {CRITICAL, MEDIUM}"
    by (simp add: demo_medium_def extra_finding_def sa_add_def new_analysis_def insert_commute)
  from critical_session_never_alerted [OF this refl _ h] show ?thesis by (simp add: h demo_state demo_threshold)
qed

definition demo_cert :: "string \<Rightarrow> tracked_cert" where
  "demo_cert fp = \<lparr>tc_fingerprint = fp, tc_org_id = None, tc_subject_cn = fp, tc_issuer_cn = '''', tc_sans = [],
     tc_not_before = None, tc_not_after = Some 2000, tc_pubkey_alg = '''', tc_pubkey_bits = None,
     tc_signature_alg = '''', tc_self_signed = False, tc_chain_result = '''', tc_first_seen = 0, tc_last_seen = 0,
     tc_seen_count = 1, tc_alerted_at = None\<rparr>"

lemma one_expiry_alert_per_sweep_witness:
  "\<exists>iv dp. expiry_sweep demo_alert_cfg demo_alert_env ([(''a'', demo_cert ''a''), (''b'', demo_cert ''b'')], demo_dispatcher) = (iv, dp) \<and>
     length (dp_published dp) \<le> 1 \<and> (\<exists>r. dget iv ''b'' = Some r \<and> tc_alerted_at r = Some 1000)"
proof -
  let ?iv = "[(''a'', demo_cert ''a''), (''b'', demo_cert ''b'')]"
  obtain iv dp where s: "expiry_sweep demo_alert_cfg demo_alert_env (?iv, demo_dispatcher) = (iv, dp)" by fastforce
  have n: "ae_now demo_alert_env = 1000" by (simp add: demo_alert_env_def)
  have c: "tc_fingerprint (demo_cert x) = x" "not_alerted_today t (demo_cert x)"
    "1000 \<le> u \<Longrightarrow> expires_by (1000 + u) (demo_cert x)" for x t u
    by (simp_all add: demo_cert_def not_alerted_today_def expires_by_def)
  have k: "expires_by (1000 + 86400 * real (ac_warn_days demo_alert_cfg)) (demo_cert x)" for x
    by (rule c) (simp add: demo_alert_cfg_def)
  have "length (dp_published dp) \<le> Suc (length (dp_published demo_dispatcher)) \<and>
    (\<forall>fp r. dget ?iv fp = Some r \<longrightarrow> not_alerted_today (ae_now demo_alert_env) r \<longrightarrow>
       expires_by (ae_now demo_alert_env + 86400 * real (ac_warn_days demo_alert_cfg)) r \<longrightarrow>
       (\<exists>r'. dget iv fp = Some r' \<and> tc_alerted_at r' = Some (ae_now demo_alert_env)))"
    by (rule one_expiry_alert_per_sweep [OF _ _ _ _ s]) (simp_all add: demo_state c(1))
  then have "length (dp_published dp) \<le> 1" "\<exists>r'. dget iv ''b'' = Some r' \<and> tc_alerted_at r' = Some 1000"
    using c(2) k by (simp_all add: n demo_state)
  with s show ?thesis by blast
qed

end
