(* ===== verification/Org_Rows.thy ===== *)
theory Org_Rows
  imports Alerts
begin

text \<open>
  The rows that the users of an organisation manage through src/backend/app/api/main.py: fingerprint
  lists, alert routes, the alert policy, labels on findings, analysis jobs and legal holds, with the
  paging of the listings. A handler returns its response or the HTTP error, and the new tables.
  Every table has its own counter for new ids. Request bodies are flat JSON objects.
\<close>

section \<open>Tables\<close>

record fp_entry =
  fp_org_id :: string
  fp_kind :: string
  fp_type :: string
  fp_value :: string
  fp_source :: string
  fp_comment :: string
  fp_created_by :: string

record route_row =
  rr_org_id :: string
  rr_route :: route
  rr_created_by :: string

record feedback =
  fb_org_id :: string
  fb_finding_id :: nat
  fb_rule_id :: string
  fb_session_id :: string
  fb_verdict :: string
  fb_comment :: string
  fb_created_by :: string
  fb_created_at :: time

record job =
  jb_org_id :: "string option"
  jb_filename :: string
  jb_status :: string
  jb_file_size :: nat
  jb_legal_hold :: bool
  jb_created_at :: time

record finding_row =
  fr_session_id :: string
  fr_rule_id :: string
  fr_severity :: severity
  fr_legal_hold :: bool

record api_session =
  as_org_id :: "string option"
  as_job_id :: string
  as_protocol :: string
  as_five_tuple :: string
  as_cipher :: "string option"
  as_risk_score :: "real option"
  as_created_at :: "time option"

record org_tables =
  ot_lists :: "(nat, fp_entry) dict"
  ot_routes :: "(nat, route_row) dict"
  ot_policies :: "(string, policy_row) dict"
  ot_feedback :: "(nat, feedback) dict"
  ot_jobs :: "(string, job) dict"
  ot_findings :: "(nat, finding_row) dict"
  ot_sessions :: "(string, api_session) dict"
  ot_next_list :: nat
  ot_next_route :: nat
  ot_next_feedback :: nat
  ot_queued :: "string list"
  ot_db :: db

datatype row_reply = Row_Id nat | Saved | Deleted | Added nat | Labelled nat string "string option" | Held bool | Queued string

definition row_audit :: "env \<Rightarrow> auth_ctx \<Rightarrow> string \<Rightarrow> string \<Rightarrow> org_tables \<Rightarrow> org_tables" where
  "row_audit en ctx action resource st =
     st\<lparr>ot_db := log_audit (e_audit_ok en) (c_org_id ctx) (c_email ctx) action resource (ot_db st)\<rparr>"

definition stripped_or :: "claims \<Rightarrow> string \<Rightarrow> string \<Rightarrow> http_error + string" where
  \<comment> \<open>\<open>(body.get(k) or d).strip()\<close>\<close>
  "stripped_or body k d =
     (case or_val (get_val body k) (JStr d) of
        JStr s \<Rightarrow> Inr (str_strip s)
      | _ \<Rightarrow> Inl (Uncaught (RuntimeError [''AttributeError''])))"

definition text_field :: "claims \<Rightarrow> string \<Rightarrow> nat \<Rightarrow> string" where
  \<comment> \<open>\<open>str(body.get(k, ""))[:n]\<close>\<close>
  "text_field body k n = take n (value_text (dget_or body k (JStr [])))"

section \<open>Fingerprint lists\<close>

definition fp_kinds :: "string list" where "fp_kinds = [''allow'', ''deny'']"

definition fp_types :: "string list" where "fp_types = [''ja3'', ''ja4'', ''ja3s'', ''ja4s'']"

definition add_fp :: "fp_entry \<Rightarrow> org_tables \<Rightarrow> org_tables" where
  "add_fp e st = st\<lparr>ot_lists := dset (ot_next_list st) e (ot_lists st), ot_next_list := ot_next_list st + 1\<rparr>"

definition create_fp_list :: "env \<Rightarrow> claims \<Rightarrow> auth_ctx \<Rightarrow> org_tables \<Rightarrow> (http_error + row_reply) \<times> org_tables" where
  "create_fp_list en body ctx st =
     (case require_roles [ANALYST] ctx of
        Inl err \<Rightarrow> (Inl err, st)
      | Inr _ \<Rightarrow>
          (case bindR (stripped_or body ''kind'' '''') (\<lambda>k. bindR (stripped_or body ''fp_type'' '''')
                  (\<lambda>t. bindR (stripped_or body ''value'' '''') (\<lambda>v. Inr (k, t, v)))) of
             Inl err \<Rightarrow> (Inl err, st)
           | Inr (k, t, v) \<Rightarrow>
               if k \<notin> set fp_kinds \<or> t \<notin> set fp_types
               then (Inl (HTTPException 400 ''kind must be allow|deny, fp_type ja3|ja4|ja3s|ja4s''), st)
               else if v = '''' \<or> 128 < length v
               then (Inl (HTTPException 400 ''value is required (max 128 chars)''), st)
               else (Inr (Row_Id (ot_next_list st)), row_audit en ctx ''fplist.create'' v
                       (add_fp \<lparr>fp_org_id = c_org_id ctx, fp_kind = k, fp_type = t, fp_value = v,
                          fp_source = text_field body ''source'' 256, fp_comment = text_field body ''comment'' 2000,
                          fp_created_by = c_email ctx\<rparr> st))))"

definition delete_fp_list :: "env \<Rightarrow> nat \<Rightarrow> auth_ctx \<Rightarrow> org_tables \<Rightarrow> (http_error + row_reply) \<times> org_tables" where
  "delete_fp_list en i ctx st =
     (case require_roles [ANALYST] ctx of
        Inl err \<Rightarrow> (Inl err, st)
      | Inr _ \<Rightarrow>
          (case dget (ot_lists st) i of
             None \<Rightarrow> (Inl (HTTPException 404 ''List entry not found''), st)
           | Some e \<Rightarrow>
               if fp_org_id e \<noteq> c_org_id ctx then (Inl (HTTPException 404 ''List entry not found''), st)
               else (Inr Deleted, row_audit en ctx ''fplist.delete'' (fp_value e)
                       (st\<lparr>ot_lists := ddel i (ot_lists st)\<rparr>))))"

datatype entries_json = Not_List | Entry_List "claims option list"

definition imported :: "auth_ctx \<Rightarrow> claims option \<Rightarrow> fp_entry option" where
  \<comment> \<open>an entry that is skipped is \<open>None\<close>\<close>
  "imported ctx e =
     (case e of
        None \<Rightarrow> None
      | Some c \<Rightarrow>
          (case (get_val c ''kind'', get_val c ''fp_type'') of
             (JStr k, JStr t) \<Rightarrow>
               (let v = str_strip (value_text (dget_or c ''value'' (JStr [])))
                in if k \<notin> set fp_kinds \<or> t \<notin> set fp_types \<or> v = '''' \<or> 128 < length v then None
                   else Some \<lparr>fp_org_id = c_org_id ctx, fp_kind = k, fp_type = t, fp_value = v,
                          fp_source = text_field c ''source'' 256, fp_comment = text_field c ''comment'' 2000,
                          fp_created_by = c_email ctx\<rparr>)
           | _ \<Rightarrow> None))"

definition import_fp_lists :: "env \<Rightarrow> entries_json \<Rightarrow> auth_ctx \<Rightarrow> org_tables \<Rightarrow> (http_error + row_reply) \<times> org_tables" where
  "import_fp_lists en ej ctx st =
     (case require_roles [ANALYST] ctx of
        Inl err \<Rightarrow> (Inl err, st)
      | Inr _ \<Rightarrow>
          (case ej of
             Not_List \<Rightarrow> (Inl (HTTPException 400 ''entries must be a list (max 1000)''), st)
           | Entry_List es \<Rightarrow>
               if 1000 < length es then (Inl (HTTPException 400 ''entries must be a list (max 1000)''), st)
               else (let new = List.map_filter (imported ctx) es
                     in (Inr (Added (length new)),
                         row_audit en ctx ''fplist.import'' ''entries'' (foldl (\<lambda>st e. add_fp e st) st new)))))"

definition list_fp_lists :: "auth_ctx \<Rightarrow> org_tables \<Rightarrow> http_error + (nat \<times> fp_entry) list" where
  "list_fp_lists ctx st =
     bindR (require_roles [ANALYST] ctx)
       (\<lambda>_. Inr (filter (\<lambda>(i, e). fp_org_id e = c_org_id ctx) (rev (sort_key fst (ot_lists st)))))"

definition export_entry :: "fp_entry \<Rightarrow> claims" where
  "export_entry e = [(''kind'', JStr (fp_kind e)), (''fp_type'', JStr (fp_type e)), (''value'', JStr (fp_value e)),
     (''source'', JStr (fp_source e)), (''comment'', JStr (fp_comment e))]"

definition export_fp_lists :: "auth_ctx \<Rightarrow> org_tables \<Rightarrow> http_error + claims list" where
  "export_fp_lists ctx st =
     bindR (require_roles [ANALYST] ctx)
       (\<lambda>_. Inr (map (export_entry \<circ> snd) (filter (\<lambda>(i, e). fp_org_id e = c_org_id ctx) (sort_key fst (ot_lists st)))))"

section \<open>Alert routes and policy\<close>

definition create_alert_route :: "env \<Rightarrow> claims \<Rightarrow> auth_ctx \<Rightarrow> org_tables \<Rightarrow> (http_error + row_reply) \<times> org_tables" where
  "create_alert_route en body ctx st =
     (case require_roles [ADMIN] ctx of
        Inl err \<Rightarrow> (Inl err, st)
      | Inr _ \<Rightarrow>
          (case bindR (stripped_or body ''match_type'' '''') (\<lambda>t. bindR (stripped_or body ''match_value'' '''') (\<lambda>v. Inr (t, v))) of
             Inl err \<Rightarrow> (Inl err, st)
           | Inr (t, v) \<Rightarrow>
               if t \<notin> {''rule'', ''host'', ''domain''} \<or> v = '''' \<or> 256 < length v
               then (Inl (HTTPException 400 ''match_type must be rule|host|domain with a value''), st)
               else (Inr (Row_Id (ot_next_route st)), row_audit en ctx ''alertroute.create'' v
                       (st\<lparr>ot_routes := dset (ot_next_route st)
                             \<lparr>rr_org_id = c_org_id ctx,
                              rr_route = \<lparr>rt_match_type = t, rt_match_value = v, rt_owner = text_field body ''owner'' 256,
                                          rt_channel = text_field body ''channel'' 64\<rparr>,
                              rr_created_by = c_email ctx\<rparr> (ot_routes st),
                           ot_next_route := ot_next_route st + 1\<rparr>))))"

definition delete_alert_route :: "env \<Rightarrow> nat \<Rightarrow> auth_ctx \<Rightarrow> org_tables \<Rightarrow> (http_error + row_reply) \<times> org_tables" where
  "delete_alert_route en i ctx st =
     (case require_roles [ADMIN] ctx of
        Inl err \<Rightarrow> (Inl err, st)
      | Inr _ \<Rightarrow>
          (case dget (ot_routes st) i of
             None \<Rightarrow> (Inl (HTTPException 404 ''Route not found''), st)
           | Some r \<Rightarrow>
               if rr_org_id r \<noteq> c_org_id ctx then (Inl (HTTPException 404 ''Route not found''), st)
               else (Inr Deleted, row_audit en ctx ''alertroute.delete'' (rt_match_value (rr_route r))
                       (st\<lparr>ot_routes := ddel i (ot_routes st)\<rparr>))))"

definition list_alert_routes :: "auth_ctx \<Rightarrow> org_tables \<Rightarrow> http_error + (nat \<times> route) list" where
  "list_alert_routes ctx st =
     bindR (require_roles [ANALYST] ctx)
       (\<lambda>_. Inr (map (\<lambda>(i, r). (i, rr_route r)) (filter (\<lambda>(i, r). rr_org_id r = c_org_id ctx) (sort_key fst (ot_routes st)))))"

definition severity_names :: "string list" where
  "severity_names = [''info'', ''low'', ''medium'', ''high'', ''critical'']"

definition hour_field :: "claims \<Rightarrow> string \<Rightarrow> http_error + int option" where
  "hour_field body k =
     (case get_val body k of
        JNull \<Rightarrow> Inr None
      | v \<Rightarrow> (case int_claim v of
                Some h \<Rightarrow> if 0 \<le> h \<and> h \<le> 23 then Inr (Some h)
                          else Inl (HTTPException 400 (k @ '' must be 0-23 or null''))
              | None \<Rightarrow> Inl (HTTPException 400 (k @ '' must be 0-23 or null''))))"

definition policy_of_body :: "claims \<Rightarrow> http_error + policy_row" where
  "policy_of_body body =
     bindR (stripped_or body ''min_severity'' ''high'') (\<lambda>sev.
       guardR (sev \<notin> set severity_names) (HTTPException 400 ''min_severity must be info|low|medium|high|critical'')
       (bindR (stripped_or body ''digest'' ''off'') (\<lambda>dg.
         guardR (dg \<notin> {''off'', ''daily'', ''weekly''}) (HTTPException 400 ''digest must be off|daily|weekly'')
         (bindR (hour_field body ''quiet_start_hour'') (\<lambda>a.
           bindR (hour_field body ''quiet_end_hour'') (\<lambda>b.
             Inr \<lparr>pr_min_severity = Some sev, pr_digest = Some dg, pr_quiet_start = a, pr_quiet_end = b,
                  pr_tz = Some (take 64 (value_text (or_val (get_val body ''quiet_tz'') (JStr ''UTC''))))\<rparr>)))))) "

definition set_alert_policy :: "env \<Rightarrow> claims \<Rightarrow> auth_ctx \<Rightarrow> org_tables \<Rightarrow> (http_error + row_reply) \<times> org_tables" where
  \<comment> \<open>an error after the first assignments leaves the session uncommitted\<close>
  "set_alert_policy en body ctx st =
     (case bindR (require_roles [ADMIN] ctx) (\<lambda>_. policy_of_body body) of
        Inl err \<Rightarrow> (Inl err, st)
      | Inr row \<Rightarrow> (Inr Saved, row_audit en ctx ''alertpolicy.update'' ''policy''
                      (st\<lparr>ot_policies := dset (c_org_id ctx) row (ot_policies st)\<rparr>)))"

definition get_alert_policy :: "string \<Rightarrow> auth_ctx \<Rightarrow> org_tables \<Rightarrow> http_error + policy_row" where
  "get_alert_policy default_severity ctx st =
     bindR (require_roles [ANALYST] ctx)
       (\<lambda>_. Inr (case dget (ot_policies st) (c_org_id ctx) of
                   Some r \<Rightarrow> r
                 | None \<Rightarrow> \<lparr>pr_min_severity = Some default_severity, pr_digest = Some ''off'', pr_quiet_start = None,
                             pr_quiet_end = None, pr_tz = Some ''UTC''\<rparr>))"

section \<open>Labels on findings\<close>

definition verdicts :: "string list" where "verdicts = [''confirmed'', ''false_positive'', ''accepted_risk'']"

definition triage_categories :: "string list" where
  "triage_categories = [''bug'', ''noise'', ''expected-behavior'', ''documented-limitation'']"

definition label_target :: "nat \<Rightarrow> claims \<Rightarrow> auth_ctx \<Rightarrow> org_tables \<Rightarrow> http_error + (string \<times> string \<times> finding_row)" where
  "label_target fid body ctx st =
     bindR (stripped_or body ''verdict'' '''') (\<lambda>v.
       guardR (v \<notin> set verdicts) (HTTPException 400 ''verdict must be confirmed|false_positive|accepted_risk'')
       (bindR (stripped_or body ''triage_category'' '''') (\<lambda>t.
         guardR (t \<noteq> '''' \<and> t \<notin> set triage_categories)
           (HTTPException 400 ''triage_category must be bug|noise|expected-behavior|documented-limitation'')
         (case dget (ot_findings st) fid of
            None \<Rightarrow> Inl (HTTPException 404 ''Finding not found'')
          | Some f \<Rightarrow>
              (case dget (ot_sessions st) (fr_session_id f) of
                 None \<Rightarrow> Inl (HTTPException 404 ''Finding not found'')
               | Some s \<Rightarrow>
                   guardR (as_org_id s \<noteq> Some (c_org_id ctx)) (HTTPException 404 ''Finding not found'') (Inr (v, t, f)))))))"

definition label_row :: "env \<Rightarrow> nat \<Rightarrow> claims \<Rightarrow> auth_ctx \<Rightarrow> string \<times> string \<times> finding_row \<Rightarrow> feedback" where
  "label_row en fid body ctx =
     (\<lambda>(v, t, f). \<lparr>fb_org_id = c_org_id ctx, fb_finding_id = fid, fb_rule_id = fr_rule_id f,
        fb_session_id = fr_session_id f, fb_verdict = v,
        fb_comment = (if t \<noteq> '''' then ''[triage:'' @ t @ ''] '' else '''') @ text_field body ''comment'' 2000,
        fb_created_by = c_email ctx, fb_created_at = e_now en\<rparr>)"

definition submit_feedback :: "env \<Rightarrow> nat \<Rightarrow> claims \<Rightarrow> auth_ctx \<Rightarrow> org_tables \<Rightarrow> (http_error + row_reply) \<times> org_tables" where
  "submit_feedback en fid body ctx st =
     (case bindR (require_roles [ANALYST] ctx) (\<lambda>_. label_target fid body ctx st) of
        Inl err \<Rightarrow> (Inl err, st)
      | Inr (v, t, f) \<Rightarrow>
          (Inr (Labelled (ot_next_feedback st) v (if t = '''' then None else Some t)),
           row_audit en ctx ''finding.feedback'' (fr_rule_id f)
             (st\<lparr>ot_feedback := dset (ot_next_feedback st) (label_row en fid body ctx (v, t, f)) (ot_feedback st),
                 ot_next_feedback := ot_next_feedback st + 1\<rparr>)))"

definition own_feedback :: "auth_ctx \<Rightarrow> org_tables \<Rightarrow> (nat \<times> feedback) list" where
  \<comment> \<open>oldest first\<close>
  "own_feedback ctx st = filter (\<lambda>(i, f). fb_org_id f = c_org_id ctx) (sort_key fst (ot_feedback st))"

definition selects :: "string option \<Rightarrow> string \<Rightarrow> bool" where
  \<comment> \<open>a query parameter that is absent or empty does not select\<close>
  "selects q v \<longleftrightarrow> q = None \<or> q = Some '''' \<or> q = Some v"

definition list_feedback ::
  "string option \<Rightarrow> string option \<Rightarrow> nat \<Rightarrow> auth_ctx \<Rightarrow> org_tables \<Rightarrow> http_error + (nat \<times> feedback) list" where
  "list_feedback rule verdict n ctx st =
     bindR (require_roles [ANALYST] ctx)
       (\<lambda>_. Inr (take n (filter (\<lambda>(i, f). selects rule (fb_rule_id f) \<and> selects verdict (fb_verdict f))
                          (rev (own_feedback ctx st)))))"

record rule_labels =
  rl_confirmed :: nat
  rl_false_positive :: nat
  rl_accepted_risk :: nat

definition count_label :: "string \<Rightarrow> rule_labels \<Rightarrow> rule_labels" where
  "count_label v l =
     (if v = ''confirmed'' then l\<lparr>rl_confirmed := rl_confirmed l + 1\<rparr>
      else if v = ''false_positive'' then l\<lparr>rl_false_positive := rl_false_positive l + 1\<rparr>
      else if v = ''accepted_risk'' then l\<lparr>rl_accepted_risk := rl_accepted_risk l + 1\<rparr> else l)"

definition label_counts :: "feedback list \<Rightarrow> (string, rule_labels) dict" where
  "label_counts fs =
     foldl (\<lambda>d f. dset (fb_rule_id f)
              (count_label (fb_verdict f) (dget_or d (fb_rule_id f) \<lparr>rl_confirmed = 0, rl_false_positive = 0, rl_accepted_risk = 0\<rparr>)) d) [] fs"

definition precision_of :: "rule_labels \<Rightarrow> real option" where
  \<comment> \<open>before rounding to three places\<close>
  "precision_of l =
     (let n = rl_confirmed l + rl_false_positive l in if n = 0 then None else Some (real (rl_confirmed l) / real n))"

definition feedback_precision :: "auth_ctx \<Rightarrow> org_tables \<Rightarrow> http_error + (string \<times> rule_labels \<times> real option) list" where
  \<comment> \<open>one line per rule; the code sorts the lines by rule\<close>
  "feedback_precision ctx st =
     bindR (require_roles [ANALYST] ctx)
       (\<lambda>_. Inr (map (\<lambda>(r, l). (r, l, precision_of l)) (label_counts (map snd (own_feedback ctx st)))))"

definition export_feedback :: "env \<Rightarrow> auth_ctx \<Rightarrow> org_tables \<Rightarrow> (http_error + feedback list) \<times> org_tables" where
  "export_feedback en ctx st =
     (case require_roles [ANALYST] ctx of
        Inl err \<Rightarrow> (Inl err, st)
      | Inr _ \<Rightarrow> (Inr (map snd (own_feedback ctx st)), row_audit en ctx ''finding.feedback.export'' ''dataset'' st))"

section \<open>Jobs and legal holds\<close>

definition upload_pcap :: "nat \<Rightarrow> env \<Rightarrow> string \<Rightarrow> string \<Rightarrow> nat \<Rightarrow> auth_ctx \<Rightarrow> org_tables \<Rightarrow> (http_error + row_reply) \<times> org_tables" where
  \<comment> \<open>\<open>max_mb\<close> is the configured limit, \<open>i\<close> the random id of the job\<close>
  "upload_pcap max_mb en i filename size' ctx st =
     (case require_roles [ANALYST] ctx of
        Inl err \<Rightarrow> (Inl err, st)
      | Inr _ \<Rightarrow>
          if filename = '''' \<or> \<not> ends_with ''.pcap'' (str_lower filename)
          then (Inl (HTTPException 400 ''Only .pcap files are accepted''), st)
          else if max_mb * 1024 * 1024 < size'
          then (Inl (HTTPException 413 (''File exceeds '' @ dec_of max_mb @ ''MB limit'')), st)
          else (Inr (Queued i),
                (row_audit en ctx ''pcap.upload'' filename
                  (st\<lparr>ot_jobs := dset i \<lparr>jb_org_id = Some (c_org_id ctx), jb_filename = filename, jb_status = ''pending'',
                        jb_file_size = size', jb_legal_hold = False, jb_created_at = e_now en\<rparr> (ot_jobs st)\<rparr>))
                  \<lparr>ot_queued := ot_queued st @ [i]\<rparr>))"

definition get_org_job :: "string \<Rightarrow> auth_ctx \<Rightarrow> org_tables \<Rightarrow> http_error + job" where
  \<comment> \<open>a job without organisation belongs to everybody\<close>
  "get_org_job i ctx st =
     (case dget (ot_jobs st) i of
        None \<Rightarrow> Inl (HTTPException 404 ''Job not found'')
      | Some j \<Rightarrow> guardR (jb_org_id j \<noteq> None \<and> jb_org_id j \<noteq> Some (c_org_id ctx))
                   (HTTPException 404 ''Job not found'') (Inr j))"

definition hold_of :: "claims \<Rightarrow> bool" where
  \<comment> \<open>\<open>bool(body.get("hold", True))\<close>\<close>
  "hold_of body = truthy (dget_or body ''hold'' (JBool True))"

definition set_job_hold :: "env \<Rightarrow> string \<Rightarrow> claims \<Rightarrow> auth_ctx \<Rightarrow> org_tables \<Rightarrow> (http_error + row_reply) \<times> org_tables" where
  "set_job_hold en i body ctx st =
     (case bindR (require_roles [ANALYST] ctx) (\<lambda>_. get_org_job i ctx st) of
        Inl err \<Rightarrow> (Inl err, st)
      | Inr j \<Rightarrow> (Inr (Held (hold_of body)), row_audit en ctx ''job.legal_hold'' i
                    (st\<lparr>ot_jobs := dset i (j\<lparr>jb_legal_hold := hold_of body\<rparr>) (ot_jobs st)\<rparr>)))"

definition set_finding_hold :: "env \<Rightarrow> nat \<Rightarrow> claims \<Rightarrow> auth_ctx \<Rightarrow> org_tables \<Rightarrow> (http_error + row_reply) \<times> org_tables" where
  \<comment> \<open>a finding whose session is gone belongs to everybody; the role is checked last\<close>
  "set_finding_hold en fid body ctx st =
     (case dget (ot_findings st) fid of
        None \<Rightarrow> (Inl (HTTPException 404 ''Finding not found''), st)
      | Some f \<Rightarrow>
          if (case dget (ot_sessions st) (fr_session_id f) of None \<Rightarrow> False | Some s \<Rightarrow> as_org_id s \<noteq> Some (c_org_id ctx))
          then (Inl (HTTPException 404 ''Finding not found''), st)
          else if c_role ctx \<noteq> ADMIN \<and> c_role ctx \<noteq> ANALYST
          then (Inl (HTTPException 403 ''Analysts and admins only''), st)
          else (Inr (Held (hold_of body)), row_audit en ctx ''finding.legal_hold'' (dec_of fid)
                  (st\<lparr>ot_findings := dset fid (f\<lparr>fr_legal_hold := hold_of body\<rparr>) (ot_findings st)\<rparr>)))"

section \<open>Paging\<close>

definition paginate :: "int \<Rightarrow> int \<Rightarrow> int option \<Rightarrow> int option \<Rightarrow> int \<Rightarrow> int \<times> int" where
  "paginate limit offset page per_page maximum =
     (let maximum = max 1 maximum;
          limit = max 1 (min limit maximum);
          limit = (case per_page of None \<Rightarrow> limit | Some n \<Rightarrow> max 1 (min n maximum))
      in if offset \<noteq> 0 then (limit, max 0 offset)
         else (case page of
                 Some p \<Rightarrow> (limit, max 0 ((max 1 p - 1) * limit))
               | None \<Rightarrow> (limit, 0)))"

definition page_of :: "int \<times> int \<Rightarrow> 'a list \<Rightarrow> 'a list" where
  \<comment> \<open>\<open>.offset(o).limit(n)\<close>\<close>
  "page_of lo xs = take (nat (fst lo)) (drop (nat (snd lo)) xs)"

definition list_jobs :: "int \<Rightarrow> int \<Rightarrow> int option \<Rightarrow> int option \<Rightarrow> auth_ctx \<Rightarrow> org_tables \<Rightarrow> (string \<times> job) list" where
  "list_jobs limit offset page per_page ctx st =
     page_of (paginate limit offset page per_page 200)
       (filter (\<lambda>(i, j). jb_org_id j = Some (c_org_id ctx)) (rev (sort_key (\<lambda>(i, j). jb_created_at j) (ot_jobs st))))"

fun insort_id :: "string \<times> 'a \<Rightarrow> (string \<times> 'a) list \<Rightarrow> (string \<times> 'a) list" where
  "insort_id x [] = [x]"
| "insort_id x (y # ys) = (if text_less (fst x) (fst y) then y # insort_id x ys else x # y # ys)"

definition by_id_desc :: "(string \<times> 'a) list \<Rightarrow> (string \<times> 'a) list" where
  "by_id_desc xs = foldr insort_id xs []"

definition by_risk_desc :: "(string \<times> api_session) list \<Rightarrow> (string \<times> api_session) list" where
  \<comment> \<open>\<open>risk_score.desc().nullslast()\<close>\<close>
  "by_risk_desc xs =
     sort_key (\<lambda>(i, s). - the (as_risk_score s)) (filter (\<lambda>(i, s). as_risk_score s \<noteq> None) xs)
     @ filter (\<lambda>(i, s). as_risk_score s = None) xs"

definition joined_sessions :: "severity \<Rightarrow> org_tables \<Rightarrow> (string \<times> api_session) list" where
  \<comment> \<open>the join with the findings: one row for every finding of that severity\<close>
  "joined_sessions v st =
     List.map_filter (\<lambda>(k, f). if fr_severity f \<noteq> v then None
        else map_option (Pair (fr_session_id f)) (dget (ot_sessions st) (fr_session_id f))) (ot_findings st)"

definition list_sessions ::
  "string option \<Rightarrow> severity option \<Rightarrow> int \<times> int \<Rightarrow> auth_ctx \<Rightarrow> org_tables \<Rightarrow> (string \<times> api_session) list" where
  \<comment> \<open>the page comes from \<open>paginate\<close>\<close>
  "list_sessions protocol sev lo ctx st =
     page_of lo (filter (\<lambda>(i, s). as_org_id s = Some (c_org_id ctx) \<and> selects protocol (as_protocol s))
       (case sev of None \<Rightarrow> by_id_desc (ot_sessions st) | Some v \<Rightarrow> by_risk_desc (joined_sessions v st)))"

section \<open>Requests as steps\<close>

datatype row_cmd =
    New_List claims | Drop_List nat | Import_Lists entries_json
  | New_Route claims | Drop_Route nat | Set_Policy claims
  | Label_Finding nat claims | Export_Labels
  | Upload nat string string nat | Hold_Job string claims | Hold_Finding nat claims

definition row_step :: "env \<times> auth_ctx \<times> row_cmd \<Rightarrow> org_tables \<Rightarrow> org_tables" where
  "row_step rq st =
     (case rq of (en, ctx, cmd) \<Rightarrow>
        (case cmd of
           New_List body \<Rightarrow> snd (create_fp_list en body ctx st)
         | Drop_List i \<Rightarrow> snd (delete_fp_list en i ctx st)
         | Import_Lists ej \<Rightarrow> snd (import_fp_lists en ej ctx st)
         | New_Route body \<Rightarrow> snd (create_alert_route en body ctx st)
         | Drop_Route i \<Rightarrow> snd (delete_alert_route en i ctx st)
         | Set_Policy body \<Rightarrow> snd (set_alert_policy en body ctx st)
         | Label_Finding i body \<Rightarrow> snd (submit_feedback en i body ctx st)
         | Export_Labels \<Rightarrow> snd (export_feedback en ctx st)
         | Upload mb i filename n \<Rightarrow> snd (upload_pcap mb en i filename n ctx st)
         | Hold_Job i body \<Rightarrow> snd (set_job_hold en i body ctx st)
         | Hold_Finding i body \<Rightarrow> snd (set_finding_hold en i body ctx st)))"

section \<open>Every row is well formed\<close>

definition fp_ok :: "fp_entry \<Rightarrow> bool" where
  "fp_ok e \<longleftrightarrow> fp_kind e \<in> set fp_kinds \<and> fp_type e \<in> set fp_types \<and> fp_value e \<noteq> '''' \<and> length (fp_value e) \<le> 128 \<and>
     length (fp_source e) \<le> 256 \<and> length (fp_comment e) \<le> 2000"

definition route_ok :: "route_row \<Rightarrow> bool" where
  "route_ok r \<longleftrightarrow> rt_match_type (rr_route r) \<in> {''rule'', ''host'', ''domain''} \<and> rt_match_value (rr_route r) \<noteq> '''' \<and>
     length (rt_match_value (rr_route r)) \<le> 256 \<and> length (rt_owner (rr_route r)) \<le> 256 \<and> length (rt_channel (rr_route r)) \<le> 64"

definition hour_ok :: "int option \<Rightarrow> bool" where
  "hour_ok h \<longleftrightarrow> (case h of None \<Rightarrow> True | Some n \<Rightarrow> 0 \<le> n \<and> n \<le> 23)"

definition policy_ok :: "policy_row \<Rightarrow> bool" where
  "policy_ok r \<longleftrightarrow> (\<exists>s \<in> set severity_names. pr_min_severity r = Some s) \<and>
     pr_digest r \<in> {Some ''off'', Some ''daily'', Some ''weekly''} \<and> hour_ok (pr_quiet_start r) \<and> hour_ok (pr_quiet_end r) \<and>
     (\<exists>z. pr_tz r = Some z \<and> z \<noteq> '''' \<and> length z \<le> 64)"

definition feedback_ok :: "org_tables \<Rightarrow> feedback \<Rightarrow> bool" where
  \<comment> \<open>a label is on a finding of a session of the own organisation; 32 symbols are enough for the triage mark\<close>
  "feedback_ok st f \<longleftrightarrow> fb_verdict f \<in> set verdicts \<and> length (fb_comment f) \<le> 2032 \<and>
     (\<exists>r s. dget (ot_findings st) (fb_finding_id f) = Some r \<and> fr_session_id r = fb_session_id f \<and> fr_rule_id r = fb_rule_id f \<and>
        dget (ot_sessions st) (fb_session_id f) = Some s \<and> as_org_id s = Some (fb_org_id f))"

definition rows_ok :: "org_tables \<Rightarrow> bool" where
  "rows_ok st \<longleftrightarrow>
     (\<forall>(i, e) \<in> set (ot_lists st). i < ot_next_list st \<and> fp_ok e) \<and>
     (\<forall>(i, r) \<in> set (ot_routes st). i < ot_next_route st \<and> route_ok r) \<and>
     (\<forall>(o', r) \<in> set (ot_policies st). policy_ok r) \<and>
     (\<forall>(i, f) \<in> set (ot_feedback st). i < ot_next_feedback st \<and> feedback_ok st f)"

lemma row_audit_frame [simp]:
  "ot_lists (row_audit en ctx a r st) = ot_lists st" "ot_routes (row_audit en ctx a r st) = ot_routes st"
  "ot_policies (row_audit en ctx a r st) = ot_policies st" "ot_feedback (row_audit en ctx a r st) = ot_feedback st"
  "ot_jobs (row_audit en ctx a r st) = ot_jobs st" "ot_findings (row_audit en ctx a r st) = ot_findings st"
  "ot_sessions (row_audit en ctx a r st) = ot_sessions st" "ot_next_list (row_audit en ctx a r st) = ot_next_list st"
  "ot_next_route (row_audit en ctx a r st) = ot_next_route st" "ot_next_feedback (row_audit en ctx a r st) = ot_next_feedback st"
  by (simp_all add: row_audit_def)

lemma feedback_ok_cong:
  "ot_findings st' = ot_findings st \<Longrightarrow> ot_sessions st' = ot_sessions st \<Longrightarrow> feedback_ok st' f = feedback_ok st f"
  by (simp add: feedback_ok_def)

lemma rows_ok_audit [simp]: "rows_ok (row_audit en ctx a r st) = rows_ok st"
  by (simp add: rows_ok_def feedback_ok_cong [of "row_audit en ctx a r st" st])

lemma text_field_le [simp]: "length (text_field b k n) \<le> n"
  by (simp add: text_field_def)

lemma rows_ok_add_fp: "rows_ok st \<Longrightarrow> fp_ok e \<Longrightarrow> rows_ok (add_fp e st)"
  unfolding rows_ok_def add_fp_def
  by (auto dest!: set_dset simp: feedback_ok_def)

lemma rows_ok_add_fps: "rows_ok st \<Longrightarrow> list_all fp_ok es \<Longrightarrow> rows_ok (foldl (\<lambda>st e. add_fp e st) st es)"
  by (induction es arbitrary: st) (auto intro: rows_ok_add_fp)

lemma imported_ok: "imported ctx e = Some x \<Longrightarrow> fp_ok x \<and> fp_org_id x = c_org_id ctx"
  by (auto simp: imported_def fp_ok_def Let_def split: option.splits jval.splits if_splits)

lemma rows_ok_delete:
  "rows_ok st \<Longrightarrow> rows_ok (st\<lparr>ot_lists := ddel i (ot_lists st)\<rparr>)"
  "rows_ok st \<Longrightarrow> rows_ok (st\<lparr>ot_routes := ddel i (ot_routes st)\<rparr>)"
  by (fastforce simp: rows_ok_def feedback_ok_def AList.delete_eq)+

lemma hour_field_ok: "hour_field body k = Inr h \<Longrightarrow> hour_ok h"
  by (auto simp: hour_field_def hour_ok_def split: jval.splits option.splits if_splits)

lemma policy_of_body_ok: "policy_of_body body = Inr r \<Longrightarrow> policy_ok r"
proof -
  assume r: "policy_of_body body = Inr r"
  have "value_text (or_val v (JStr ''UTC'')) \<noteq> ''''" for v
    by (cases v) (auto simp: or_val_def value_text_def dec_int_def)
  with r show ?thesis
    by (fastforce simp: policy_of_body_def bindR_eq_Inr guardR_eq_Inr policy_ok_def dest: hour_field_ok)
qed

lemma set_policy_ok:
  assumes "rows_ok st"
  shows "rows_ok (snd (set_alert_policy en body ctx st))"
proof -
  have "rows_ok (st\<lparr>ot_policies := dset k r (ot_policies st)\<rparr>)" if "policy_ok r" for k r
    using assms that unfolding rows_ok_def by (auto dest!: set_dset simp: feedback_ok_def)
  then show ?thesis
    using assms policy_of_body_ok by (auto simp: set_alert_policy_def bindR_eq_Inr split: sum.split)
qed

lemma create_route_ok: "rows_ok st \<Longrightarrow> rows_ok (snd (create_alert_route en body ctx st))"
proof -
  assume ok: "rows_ok st"
  have "rows_ok (st\<lparr>ot_routes := dset (ot_next_route st) r (ot_routes st), ot_next_route := ot_next_route st + 1\<rparr>)"
    if "route_ok r" for r
    using ok that unfolding rows_ok_def by (auto dest!: set_dset simp: feedback_ok_def)
  with ok show ?thesis
    by (auto simp: create_alert_route_def route_ok_def split: sum.split)
qed

lemma create_fp_ok: "rows_ok st \<Longrightarrow> rows_ok (snd (create_fp_list en body ctx st))"
  by (auto simp: create_fp_list_def fp_ok_def intro!: rows_ok_add_fp split: sum.split)

lemma import_fp_ok: "rows_ok st \<Longrightarrow> rows_ok (snd (import_fp_lists en ej ctx st))"
proof -
  have "list_all fp_ok (List.map_filter (imported ctx) es)" for es
    using imported_ok by (fastforce simp: list_all_iff map_filter_def)
  then show "rows_ok st \<Longrightarrow> rows_ok (snd (import_fp_lists en ej ctx st))"
    by (simp add: import_fp_lists_def Let_def rows_ok_add_fps split: sum.split entries_json.split)
qed

lemma label_target_ok:
  "label_target fid body ctx st = Inr tg \<Longrightarrow> feedback_ok st (label_row en fid body ctx tg)"
proof -
  assume t: "label_target fid body ctx st = Inr tg"
  obtain v t' f where tg: "tg = (v, t', f)" by (cases tg)
  have f: "v \<in> set verdicts" "t' = '''' \<or> t' \<in> set triage_categories" "dget (ot_findings st) fid = Some f"
    "\<exists>s. dget (ot_sessions st) (fr_session_id f) = Some s \<and> as_org_id s = Some (c_org_id ctx)"
    using t by (auto simp: tg label_target_def bindR_eq_Inr guardR_eq_Inr split: option.splits)
  have "length (if t' \<noteq> '''' then ''[triage:'' @ t' @ ''] '' else '''') \<le> 32"
    using f(2) by (auto simp: triage_categories_def)
  then have "length (fb_comment (label_row en fid body ctx tg)) \<le> 2032"
    using text_field_le [of body "''comment''" 2000] by (simp only: tg label_row_def prod.case feedback.simps length_append)
  with f show ?thesis by (auto simp: feedback_ok_def label_row_def tg)
qed

lemma submit_ok:
  assumes "rows_ok st"
  shows "rows_ok (snd (submit_feedback en fid body ctx st))"
proof -
  have "rows_ok (st\<lparr>ot_feedback := dset (ot_next_feedback st) f (ot_feedback st), ot_next_feedback := ot_next_feedback st + 1\<rparr>)"
    if "feedback_ok st f" for f
    using assms that unfolding rows_ok_def by (auto dest!: set_dset simp: feedback_ok_def)
  with assms label_target_ok show ?thesis by (auto simp: submit_feedback_def bindR_eq_Inr split: sum.split)
qed

lemma hold_ok:
  assumes "rows_ok st"
  shows "rows_ok (snd (set_finding_hold en fid body ctx st))"
proof (cases "dget (ot_findings st) fid")
  case None
  with assms show ?thesis by (simp add: set_finding_hold_def)
next
  case (Some f)
  have "feedback_ok (st\<lparr>ot_findings := dset fid (f\<lparr>fr_legal_hold := h\<rparr>) (ot_findings st)\<rparr>) fb" if "feedback_ok st fb" for fb h
    using that Some by (auto simp: feedback_ok_def)
  with assms have "rows_ok (st\<lparr>ot_findings := dset fid (f\<lparr>fr_legal_hold := h\<rparr>) (ot_findings st)\<rparr>)" for h
    by (fastforce simp: rows_ok_def)
  with assms Some show ?thesis by (auto simp: set_finding_hold_def)
qed

lemma rows_ok_frame [simp]:
  "rows_ok (st\<lparr>ot_jobs := js\<rparr>) = rows_ok st" "rows_ok (st\<lparr>ot_queued := qs\<rparr>) = rows_ok st"
  by (simp_all add: rows_ok_def feedback_ok_def)

lemma row_step_ok: "rows_ok st \<Longrightarrow> rows_ok (row_step rq st)"
  by (auto simp: row_step_def delete_fp_list_def delete_alert_route_def export_feedback_def upload_pcap_def set_job_hold_def
      intro: create_fp_ok import_fp_ok create_route_ok set_policy_ok submit_ok hold_ok rows_ok_delete
      split: prod.split row_cmd.split sum.split option.split)

text \<open>C8: Every row stays well formed over any sequence of requests by any callers: kinds, types, verdicts, severities and
  digests are of the allowed values, quiet hours are hours, texts keep their limits, new ids are fresh, and a
  label belongs to a finding of a session of the organisation that gave it.\<close>

theorem rows_well_formed:
  assumes "rows_ok st"
  shows "rows_ok (fold row_step rqs st)"
  using assms by (induction rqs arbitrary: st) (simp_all add: row_step_ok)

section \<open>Nobody changes the rows of another organisation\<close>

definition seen_by :: "('v \<Rightarrow> bool) \<Rightarrow> ('k, 'v) dict \<Rightarrow> 'k \<Rightarrow> 'v option" where
  "seen_by P d k = (case dget d k of None \<Rightarrow> None | Some v \<Rightarrow> if P v then Some v else None)"

definition finding_org :: "org_tables \<Rightarrow> finding_row \<Rightarrow> string option" where
  "finding_org st f = (case dget (ot_sessions st) (fr_session_id f) of None \<Rightarrow> None | Some s \<Rightarrow> as_org_id s)"

definition same_rows :: "string \<Rightarrow> org_tables \<Rightarrow> org_tables \<Rightarrow> bool" where
  \<comment> \<open>the rows of an organisation are the same in both\<close>
  "same_rows o' st st' \<longleftrightarrow>
     seen_by (\<lambda>e. fp_org_id e = o') (ot_lists st') = seen_by (\<lambda>e. fp_org_id e = o') (ot_lists st) \<and>
     seen_by (\<lambda>r. rr_org_id r = o') (ot_routes st') = seen_by (\<lambda>r. rr_org_id r = o') (ot_routes st) \<and>
     dget (ot_policies st') o' = dget (ot_policies st) o' \<and>
     seen_by (\<lambda>f. fb_org_id f = o') (ot_feedback st') = seen_by (\<lambda>f. fb_org_id f = o') (ot_feedback st) \<and>
     seen_by (\<lambda>j. jb_org_id j = Some o') (ot_jobs st') = seen_by (\<lambda>j. jb_org_id j = Some o') (ot_jobs st) \<and>
     seen_by (\<lambda>f. finding_org st' f = Some o') (ot_findings st') = seen_by (\<lambda>f. finding_org st f = Some o') (ot_findings st) \<and>
     ot_sessions st' = ot_sessions st"

lemma same_rows_refl [simp]: "same_rows o' st st"
  by (simp add: same_rows_def)

lemma same_rows_trans: "same_rows o' a b \<Longrightarrow> same_rows o' b c \<Longrightarrow> same_rows o' a c"
  by (simp add: same_rows_def)

lemma same_rows_audit [simp]: "same_rows o' st (row_audit en ctx a r st') = same_rows o' st st'"
  by (simp add: same_rows_def finding_org_def)

lemma seen_dset:
  "\<not> P v \<Longrightarrow> (\<And>w. dget d k = Some w \<Longrightarrow> \<not> P w) \<Longrightarrow> seen_by P (dset k v d) = seen_by P d"
  by (rule ext) (auto simp: seen_by_def split: option.split)

lemma seen_ddel: "(\<And>w. dget d k = Some w \<Longrightarrow> \<not> P w) \<Longrightarrow> seen_by P (ddel k d) = seen_by P d"
  by (rule ext) (auto simp: seen_by_def split: option.split)

lemma fresh_get: "\<forall>(i, e) \<in> set d. i < (n :: nat) \<and> Q e \<Longrightarrow> dget d n = None"
  using map_of_SomeD by (metis (mono_tags, lifting) case_prodD less_irrefl not_None_eq)

lemma fresh_ids:
  assumes "rows_ok st"
  shows "dget (ot_lists st) (ot_next_list st) = None" "dget (ot_routes st) (ot_next_route st) = None"
    "dget (ot_feedback st) (ot_next_feedback st) = None"
  using assms unfolding rows_ok_def by (blast intro: fresh_get)+

lemma same_rows_add_fp: "rows_ok st \<Longrightarrow> fp_org_id e \<noteq> o' \<Longrightarrow> same_rows o' st (add_fp e st)"
  by (auto simp: same_rows_def add_fp_def fresh_ids finding_org_def intro!: seen_dset)

lemma same_rows_add_fps:
  assumes "rows_ok st" "list_all (\<lambda>e. fp_ok e \<and> fp_org_id e \<noteq> o') es"
  shows "same_rows o' st (foldl (\<lambda>st e. add_fp e st) st es)"
  using assms
proof (induction es arbitrary: st)
  case (Cons e es)
  then show ?case
    using Cons.IH [of "add_fp e st"] same_rows_add_fp [of st e o'] rows_ok_add_fp [of st e]
    by (auto intro: same_rows_trans)
qed simp

lemma create_fp_other:
  "rows_ok st \<Longrightarrow> c_org_id ctx \<noteq> o' \<Longrightarrow> same_rows o' st (snd (create_fp_list en body ctx st))"
  by (simp add: create_fp_list_def same_rows_add_fp split: sum.split prod.split)

lemma import_fp_other:
  assumes "rows_ok st" "c_org_id ctx \<noteq> o'"
  shows "same_rows o' st (snd (import_fp_lists en ej ctx st))"
proof -
  have "list_all (\<lambda>e. fp_ok e \<and> fp_org_id e \<noteq> o') (List.map_filter (imported ctx) es)" for es
    using imported_ok assms(2) by (fastforce simp: list_all_iff map_filter_def)
  then show ?thesis
    using assms by (simp add: import_fp_lists_def Let_def same_rows_add_fps split: sum.split entries_json.split)
qed

lemma delete_other:
  "c_org_id ctx \<noteq> o' \<Longrightarrow> same_rows o' st (snd (delete_fp_list en i ctx st))"
  "c_org_id ctx \<noteq> o' \<Longrightarrow> same_rows o' st (snd (delete_alert_route en i ctx st))"
  by (auto simp: delete_fp_list_def delete_alert_route_def same_rows_def finding_org_def intro!: seen_ddel
      split: sum.split option.split)

lemma add_other:
  assumes "rows_ok st" "c_org_id ctx \<noteq> o'"
  shows "same_rows o' st (snd (create_alert_route en body ctx st))"
    "same_rows o' st (snd (set_alert_policy en body ctx st))"
    "same_rows o' st (snd (submit_feedback en fid body ctx st))"
  using assms
  by (auto simp: create_alert_route_def set_alert_policy_def submit_feedback_def same_rows_def finding_org_def
      label_row_def fresh_ids intro!: seen_dset split: sum.split)

lemma hold_other:
  assumes "c_org_id ctx \<noteq> o'"
  shows "same_rows o' st (snd (set_job_hold en i body ctx st))"
    "same_rows o' st (snd (set_finding_hold en fid body ctx st))"
  using assms
  by (auto simp: set_job_hold_def get_org_job_def set_finding_hold_def same_rows_def finding_org_def bindR_eq_Inr
      guardR_eq_Inr intro!: seen_dset split: sum.split option.splits)

lemma upload_other:
  "c_org_id ctx \<noteq> o' \<Longrightarrow> dget (ot_jobs st) i = None \<Longrightarrow> same_rows o' st (snd (upload_pcap mb en i filename n ctx st))"
  by (auto simp: upload_pcap_def same_rows_def finding_org_def row_audit_def intro!: seen_dset split: sum.split)


section \<open>Pages\<close>

lemma paginate_bounds:
  "1 \<le> fst (paginate limit offset page per_page maximum) \<and>
   fst (paginate limit offset page per_page maximum) \<le> max 1 maximum \<and>
   0 \<le> snd (paginate limit offset page per_page maximum)"
  by (auto simp: paginate_def Let_def split: option.split)

lemma take_pages: "concat (map (\<lambda>k. take n (drop (k * n) xs)) [0..<m]) = take (m * n) xs"
proof (induction m)
  case (Suc m)
  have "take (Suc m * n) xs = take (m * n) xs @ take n (drop (m * n) xs)"
    using take_add [of "m * n" n xs] by (simp add: add.commute)
  with Suc show ?case by simp
qed simp

text \<open>The numbered pages of a listing, one after the other, are the listing itself, without gap or repetition, for
  every page size up to the maximum; the page size is within its bounds and the offset is never negative for
  any parameters.\<close>

theorem pages_cover:
  assumes "1 \<le> n" "int n \<le> maximum"
  shows "concat (map (\<lambda>k. page_of (paginate limit 0 (Some (int k + 1)) (Some (int n)) maximum) xs) [0..<m]) = take (m * n) xs \<and>
    1 \<le> fst (paginate l off pg pp mx) \<and> fst (paginate l off pg pp mx) \<le> max 1 mx \<and> 0 \<le> snd (paginate l off pg pp mx)"
proof -
  have "page_of (paginate limit 0 (Some (int k + 1)) (Some (int n)) maximum) xs = take n (drop (k * n) xs)" for k
    using assms by (simp add: paginate_def page_of_def Let_def min_absorb1 max_absorb2 nat_mult_distrib)
  then show ?thesis using take_pages [of n xs m] paginate_bounds by simp
qed

section \<open>Where the rows take effect\<close>

text \<open>The policy that an administrator stores is, field by field, the one the dispatcher loads for the organisation.\<close>

lemma stored_policy_takes_effect:
  assumes "set_alert_policy en body ctx st = (Inr Saved, st')" "c_org_id ctx \<noteq> ''''"
    and "ae_policy aen (c_org_id ctx) = Some (dget (ot_policies st') (c_org_id ctx))"
  shows "\<exists>r. policy_of_body body = Inr r \<and> load_policy cfg aen (Some (c_org_id ctx)) =
     \<lparr>pl_min_severity = the (pr_min_severity r), pl_digest = the (pr_digest r), pl_quiet_start = pr_quiet_start r,
      pl_quiet_end = pr_quiet_end r, pl_tz = the (pr_tz r)\<rparr>"
proof -
  obtain r where r: "policy_of_body body = Inr r" "dget (ot_policies st') (c_org_id ctx) = Some r"
    using assms(1) by (auto simp: set_alert_policy_def bindR_eq_Inr split: sum.splits)
  from policy_of_body_ok [OF r(1)] have "policy_ok r" .
  with r assms(2,3) show ?thesis
    by (auto simp: load_policy_def row_policy_def or_text_def policy_ok_def severity_names_def)
qed

text \<open>A finding whose session is gone belongs to no organisation, and every analyst may release its legal hold.\<close>

lemma orphan_finding_held_by_anyone:
  assumes "dget (ot_findings st) i = Some f" "dget (ot_sessions st) (fr_session_id f) = None" "c_role ctx = ANALYST"
  shows "fst (set_finding_hold en i [(''hold'', JBool False)] ctx st) = Inr (Held False)"
  using assms by (simp add: set_finding_hold_def hold_of_def dget_or_def)

text \<open>A hold that is sent as the text \<open>false\<close> is set.\<close>

lemma hold_false_as_text: "hold_of [(''hold'', JStr ''false'')]"
  by (simp add: hold_of_def dget_or_def)

text \<open>The listing by severity has a session once for every finding of that severity.\<close>

lemma session_listed_twice:
  assumes "dget (ot_sessions st) i = Some s" "as_org_id s = Some (c_org_id ctx)" "as_risk_score s = None"
    and "ot_findings st = [(0, f), (1, f)]" "fr_session_id f = i" "fr_severity f = CRITICAL"
  shows "list_sessions None (Some CRITICAL) (50, 0) ctx st = [(i, s), (i, s)]"
  using assms by (simp add: list_sessions_def joined_sessions_def by_risk_desc_def page_of_def selects_def map_filter_simps)

section \<open>Instances\<close>

definition demo_ctx :: "string \<Rightarrow> user_role \<Rightarrow> auth_ctx" where
  "demo_ctx org role = \<lparr>c_user_id = ''u'', c_email = ''u@x'', c_org_id = org, c_role = role, c_via = JWT\<rparr>"

definition demo_row_env :: env where
  "demo_row_env = \<lparr>e_now = 0, e_jti = '''', e_random = [], e_audit_ok = True, e_get = (\<lambda>k. None), e_incr = (\<lambda>k. None),
     e_setnx = None, e_redis = False\<rparr>"

definition no_rows :: org_tables where
  "no_rows = \<lparr>ot_lists = [], ot_routes = [], ot_policies = [], ot_feedback = [], ot_jobs = [], ot_findings = [],
     ot_sessions = [], ot_next_list = 0, ot_next_route = 0, ot_next_feedback = 0, ot_queued = [],
     ot_db = \<lparr>db_users = [], db_api_keys = [], db_agent_tokens = [], db_orgs = [], db_audit = []\<rparr>\<rparr>"

lemma no_rows_ok: "rows_ok no_rows"
  by (simp add: rows_ok_def no_rows_def)

definition demo_entry :: "row_cmd" where
  "demo_entry = New_List [(''kind'', JStr ''deny''), (''fp_type'', JStr ''ja4''), (''value'', JStr ''t13'')]"

lemma rows_well_formed_witness:
  "rows_ok (fold row_step [(demo_row_env, demo_ctx ''a'' ANALYST, demo_entry), (demo_row_env, demo_ctx ''b'' ADMIN, Drop_List 0)] no_rows)"
  by (rule rows_well_formed [OF no_rows_ok])

lemma demo_entry_stored: "ot_lists (row_step (demo_row_env, demo_ctx ''a'' ANALYST, demo_entry) no_rows) \<noteq> []"
  by (simp add: row_step_def demo_entry_def create_fp_list_def require_roles_def role_rank_def demo_ctx_def stripped_or_def
      or_val_def get_val_def str_strip_def is_space_def fp_kinds_def fp_types_def add_fp_def)


lemma pages_cover_witness:
  "concat (map (\<lambda>k. page_of (paginate 50 0 (Some (int k + 1)) (Some (int 2)) 200) [1, 2, 3 :: nat]) [0..<2]) = [1, 2, 3]"
  using pages_cover [of 2 200 50 "[1, 2, 3 :: nat]" 2] by simp

end
