(* ===== verification/Splits.thy ===== *)
theory Splits
  imports Org_Rows
begin

text \<open>
  Splitting labelled sessions into a training and a test side (src/backend/app/ml/splits.py): whole
  groups, the groups with the newest items to the test side. Times are numbers; a group without any
  time counts as time 0.
\<close>

definition group_items :: "('a \<Rightarrow> 'g) \<Rightarrow> 'a list \<Rightarrow> ('g, 'a list) dict" where
  \<comment> \<open>\<open>groups.setdefault(group_key(it), []).append(it)\<close>\<close>
  "group_items gk items = foldl (\<lambda>d x. dset (gk x) (dget_or d (gk x) [] @ [x]) d) [] items"

definition group_time :: "('a \<Rightarrow> time option) \<Rightarrow> 'a list \<Rightarrow> time" where
  "group_time tk ms = (case List.map_filter tk ms of [] \<Rightarrow> 0 | t # ts \<Rightarrow> fold max ts t)"

definition ordered_groups :: "('a \<Rightarrow> 'g) \<Rightarrow> ('a \<Rightarrow> time option) \<Rightarrow> 'a list \<Rightarrow> ('g \<times> 'a list) list" where
  \<comment> \<open>by newest time, then by size; both sorts are stable\<close>
  "ordered_groups gk tk items =
     sort_key (\<lambda>(g, ms). group_time tk ms) (sort_key (\<lambda>(g, ms). length ms) (group_items gk items))"

definition test_size :: "real \<Rightarrow> nat \<Rightarrow> nat \<Rightarrow> nat" where
  "test_size share min_groups n = min (max min_groups (nat \<lfloor>real n * share + 1 / 2\<rfloor>)) (max (n - 1) 1)"

definition last_n :: "nat \<Rightarrow> 'a list \<Rightarrow> 'a list" where
  \<comment> \<open>\<open>xs[-n:]\<close>; \<open>xs[-0:]\<close> is the whole list\<close>
  "last_n n xs = (if n = 0 then xs else drop (length xs - n) xs)"

definition grouped_time_split ::
  "('a \<Rightarrow> 'g) \<Rightarrow> ('a \<Rightarrow> time option) \<Rightarrow> real \<Rightarrow> nat \<Rightarrow> 'a list \<Rightarrow> 'a list \<times> 'a list" where
  "grouped_time_split gk tk share min_groups items =
     (let ordered = ordered_groups gk tk items;
          tests = map fst (last_n (test_size share min_groups (length ordered)) ordered)
      in (concat (map snd (filter (\<lambda>(g, ms). g \<notin> set tests) ordered)),
          concat (map snd (filter (\<lambda>(g, ms). g \<in> set tests) ordered))))"

definition leaked_groups :: "('a \<Rightarrow> 'g) \<Rightarrow> 'a list \<Rightarrow> 'a list \<Rightarrow> 'g set" where
  \<comment> \<open>\<open>leaked_groups\<close> of the report, before sorting\<close>
  "leaked_groups gk train test = set (map gk train) \<inter> set (map gk test)"

section \<open>Groups\<close>

lemma group_items_snoc:
  "group_items gk (xs @ [x]) = dset (gk x) (dget_or (group_items gk xs) (gk x) [] @ [x]) (group_items gk xs)"
  by (simp add: group_items_def)

lemma dict_ok_group_items [simp]: "dict_ok (group_items gk items)"
  by (induction items rule: rev_induct) (simp_all add: group_items_snoc, simp add: group_items_def)

lemma dget_group_items:
  "dget (group_items gk items) g = (if g \<in> gk ` set items then Some (filter (\<lambda>x. gk x = g) items) else None)"
proof (induction items rule: rev_induct)
  case Nil
  then show ?case by (simp add: group_items_def)
next
  case (snoc x xs)
  have "filter (\<lambda>y. gk y = gk x) xs = []" if "gk x \<notin> gk ` set xs"
    using that by (intro filter_False) (metis imageI)
  with snoc show ?case by (auto simp: group_items_snoc dget_or_def)
qed

lemma group_items_mem:
  "(g, ms) \<in> set (group_items gk items) \<Longrightarrow> ms = filter (\<lambda>x. gk x = g) items \<and> ms \<noteq> []"
proof -
  assume "(g, ms) \<in> set (group_items gk items)"
  then have "dget (group_items gk items) g = Some ms"
    using dict_ok_group_items unfolding dict_ok_def by (rule map_of_is_SomeI [rotated])
  then show ?thesis by (auto simp: dget_group_items filter_empty_conv split: if_splits)
qed

lemma mset_concat_members:
  assumes "distinct (map fst d)" "\<And>g ms. (g, ms) \<in> set d \<Longrightarrow> ms = filter (\<lambda>x. gk x = g) items"
  shows "mset (concat (map snd d)) = mset (filter (\<lambda>x. gk x \<in> fst ` set d) items)"
  using assms
proof (induction d)
  case (Cons p d)
  obtain g ms where p: "p = (g, ms)" by (cases p)
  have g: "g \<notin> fst ` set d" using Cons.prems(1) by (simp add: p)
  have "mset (filter (\<lambda>x. gk x \<in> fst ` set (p # d)) items)
      = mset (filter (\<lambda>x. gk x = g) items) + mset (filter (\<lambda>x. gk x \<in> fst ` set d) items)"
    using g by (induction items) (auto simp: p)
  moreover have "ms = filter (\<lambda>x. gk x = g) items" using Cons.prems(2) [of g ms] by (simp add: p)
  moreover have "mset (concat (map snd d)) = mset (filter (\<lambda>x. gk x \<in> fst ` set d) items)"
    using Cons.prems by (intro Cons.IH) (auto simp: p)
  ultimately show ?case by (simp add: p)
qed simp

lemma ordered_groups_mset [simp]: "mset (ordered_groups gk tk items) = mset (group_items gk items)"
  by (simp add: ordered_groups_def)

lemma ordered_groups_facts:
  "set (ordered_groups gk tk items) = set (group_items gk items)"
  "distinct (map fst (ordered_groups gk tk items))"
  "length (ordered_groups gk tk items) = length (group_items gk items)"
proof -
  have m: "mset (ordered_groups gk tk items) = mset (group_items gk items)" by simp
  show "set (ordered_groups gk tk items) = set (group_items gk items)" using m by (metis set_mset_mset)
  show "length (ordered_groups gk tk items) = length (group_items gk items)" using m by (metis size_mset)
  from m have "mset (map fst (ordered_groups gk tk items)) = mset (map fst (group_items gk items))" by (metis mset_map)
  then show "distinct (map fst (ordered_groups gk tk items))"
    using dict_ok_group_items [of gk items] unfolding dict_ok_def by (metis mset_eq_imp_distinct_iff)
qed

lemma fst_group_items: "fst ` set (group_items gk items) = gk ` set items"
proof -
  have "fst ` set (group_items gk items) = dom (dget (group_items gk items))"
    by (simp add: dom_map_of_conv_image_fst)
  also have "\<dots> = gk ` set items" by (auto simp: dget_group_items dom_def split: if_splits)
  finally show ?thesis .
qed

section \<open>The split\<close>

definition test_groups :: "('a \<Rightarrow> 'g) \<Rightarrow> ('a \<Rightarrow> time option) \<Rightarrow> real \<Rightarrow> nat \<Rightarrow> 'a list \<Rightarrow> 'g list" where
  "test_groups gk tk share min_groups items =
     map fst (last_n (test_size share min_groups (length (ordered_groups gk tk items))) (ordered_groups gk tk items))"

lemma split_sides:
  "mset (fst (grouped_time_split gk tk share m items)) = mset (filter (\<lambda>x. gk x \<notin> set (test_groups gk tk share m items)) items)"
  "mset (snd (grouped_time_split gk tk share m items)) = mset (filter (\<lambda>x. gk x \<in> set (test_groups gk tk share m items)) items)"
proof -
  have side: "mset (concat (map snd (filter (\<lambda>(g, ms). P g) (ordered_groups gk tk items)))) = mset (filter (\<lambda>x. P (gk x)) items)" for P
  proof -
    let ?d = "filter (\<lambda>(g, ms). P g) (ordered_groups gk tk items)"
    have "distinct (map fst ?d)"
      using ordered_groups_facts(2) by (rule distinct_map_filter)
    moreover have "ms = filter (\<lambda>x. gk x = g) items" if "(g, ms) \<in> set ?d" for g ms
      using that group_items_mem [of g ms gk items] by (simp add: ordered_groups_facts(1))
    ultimately have "mset (concat (map snd ?d)) = mset (filter (\<lambda>x. gk x \<in> fst ` set ?d) items)"
      by (rule mset_concat_members)
    moreover have "fst ` set ?d = {g \<in> gk ` set items. P g}"
      using fst_group_items [of gk items] ordered_groups_facts(1) [of gk tk items] by force
    moreover have "filter (\<lambda>x. gk x \<in> {g \<in> gk ` set items. P g}) items = filter (\<lambda>x. P (gk x)) items"
      by (rule filter_cong) auto
    ultimately show ?thesis by (simp only:)
  qed
  show "mset (fst (grouped_time_split gk tk share m items)) = mset (filter (\<lambda>x. gk x \<notin> set (test_groups gk tk share m items)) items)"
    "mset (snd (grouped_time_split gk tk share m items)) = mset (filter (\<lambda>x. gk x \<in> set (test_groups gk tk share m items)) items)"
    unfolding grouped_time_split_def Let_def test_groups_def fst_conv snd_conv by (rule side)+
qed

lemma ordered_groups_sorted:
  "sorted (map (\<lambda>(g, ms). group_time tk ms) (ordered_groups gk tk items))"
  by (simp add: ordered_groups_def)

lemma last_n_split: "\<exists>ys. xs = ys @ last_n n xs \<and> (1 \<le> n \<longrightarrow> n < length xs \<longrightarrow> ys \<noteq> [] \<and> last_n n xs \<noteq> [])"
proof (cases "n = 0")
  case False
  then have "xs = take (length xs - n) xs @ last_n n xs" by (simp add: last_n_def)
  moreover have "n < length xs \<Longrightarrow> take (length xs - n) xs \<noteq> [] \<and> last_n n xs \<noteq> []"
    using False by (auto simp: last_n_def)
  ultimately show ?thesis by blast
qed (simp add: last_n_def)

lemma test_size_bounds: "1 \<le> m \<Longrightarrow> 2 \<le> n \<Longrightarrow> 1 \<le> test_size share m n \<and> test_size share m n < n"
  by (auto simp: test_size_def)

lemma test_groups_newest:
  assumes "x \<in> set items" "gk x \<notin> set (test_groups gk tk share m items)" "y \<in> set items" "gk y \<in> set (test_groups gk tk share m items)"
  shows "group_time tk (filter (\<lambda>z. gk z = gk x) items) \<le> group_time tk (filter (\<lambda>z. gk z = gk y) items)"
proof -
  let ?o = "ordered_groups gk tk items" and ?n = "test_size share m (length (ordered_groups gk tk items))"
  obtain ys where o: "?o = ys @ last_n ?n ?o" using last_n_split by blast
  have mem: "\<exists>ms. (gk z, ms) \<in> set ?o \<and> ms = filter (\<lambda>u. gk u = gk z) items" if "z \<in> set items" for z
  proof -
    have "gk z \<in> fst ` set ?o" using that fst_group_items [of gk items] by (simp add: ordered_groups_facts(1))
    then obtain ms where "(gk z, ms) \<in> set ?o" by auto
    then show ?thesis using group_items_mem [of "gk z" ms gk items] by (auto simp: ordered_groups_facts(1))
  qed
  from mem [OF assms(1)] obtain a where a: "(gk x, a) \<in> set ?o" "a = filter (\<lambda>u. gk u = gk x) items" by blast
  from mem [OF assms(3)] obtain b where b: "(gk y, b) \<in> set ?o" "b = filter (\<lambda>u. gk u = gk y) items" by blast
  have T: "set (test_groups gk tk share m items) = fst ` set (last_n ?n ?o)" by (simp add: test_groups_def)
  have so: "set ?o = set ys \<union> set (last_n ?n ?o)" using arg_cong [OF o, of set] by (simp only: set_append)
  have "(gk x, a) \<notin> set (last_n ?n ?o)" using assms(2) unfolding T by force
  with a(1) so have "(gk x, a) \<in> set ys" by blast
  moreover have "(gk y, b) \<in> set (last_n ?n ?o)"
  proof -
    from assms(4) obtain c where c: "(gk y, c) \<in> set (last_n ?n ?o)" unfolding T by auto
    then have "(gk y, c) \<in> set ?o" using so by blast
    with b(1) ordered_groups_facts(2) have "c = b" by (metis eq_key_imp_eq_value)
    with c show ?thesis by simp
  qed
  moreover have "sorted (map (\<lambda>(g, ms). group_time tk ms) ys @ map (\<lambda>(g, ms). group_time tk ms) (last_n ?n ?o))"
    using ordered_groups_sorted [of tk gk items] o by (metis map_append)
  ultimately have "group_time tk a \<le> group_time tk b"
    unfolding sorted_append by fastforce
  with a(2) b(2) show ?thesis by simp
qed

text \<open>The split loses and invents nothing, never puts one server on both sides, gives the test side the groups
  with the newest sessions, and leaves neither side empty as soon as there are two groups.\<close>

theorem split_without_leak:
  assumes "grouped_time_split gk tk share m items = (train, test)"
  shows "mset train + mset test = mset items \<and> leaked_groups gk train test = {} \<and>
    list_all (\<lambda>x. list_all (\<lambda>y. group_time tk (filter (\<lambda>z. gk z = gk x) items) \<le> group_time tk (filter (\<lambda>z. gk z = gk y) items)) test) train \<and>
    (1 \<le> m \<longrightarrow> 2 \<le> card (gk ` set items) \<longrightarrow> train \<noteq> [] \<and> test \<noteq> [])"
proof -
  let ?T = "set (test_groups gk tk share m items)"
  have train: "mset train = mset (filter (\<lambda>x. gk x \<notin> ?T) items)" and test: "mset test = mset (filter (\<lambda>x. gk x \<in> ?T) items)"
    using split_sides [of gk tk share m items] assms by simp_all
  have sets: "set train = {x \<in> set items. gk x \<notin> ?T}" "set test = {x \<in> set items. gk x \<in> ?T}"
    using arg_cong [OF train, of set_mset] arg_cong [OF test, of set_mset] by auto
  have "mset train + mset test = mset items" by (simp add: train test)
  moreover have "leaked_groups gk train test = {}" by (auto simp: leaked_groups_def sets)
  moreover have "train \<noteq> [] \<and> test \<noteq> []" if "1 \<le> m" "2 \<le> card (gk ` set items)"
  proof -
    let ?o = "ordered_groups gk tk items"
    have fo: "fst ` set ?o = gk ` set items"
      using fst_group_items [of gk items] by (simp add: ordered_groups_facts(1))
    have "length ?o = card (gk ` set items)"
      using distinct_card [OF ordered_groups_facts(2) [of gk tk items]] fo by simp
    with that have "2 \<le> length ?o" by simp
    from test_size_bounds [OF that(1) this, of share] obtain ys where
      o: "?o = ys @ last_n (test_size share m (length ?o)) ?o" "ys \<noteq> []" "last_n (test_size share m (length ?o)) ?o \<noteq> []"
      using last_n_split by meson
    obtain g where g: "g \<in> fst ` set ys" using o(2) by (cases ys) auto
    have "distinct (map fst ys @ test_groups gk tk share m items)"
      using ordered_groups_facts(2) [of gk tk items] o(1) unfolding test_groups_def by (metis map_append)
    with g have "g \<notin> ?T" by auto
    moreover have "g \<in> gk ` set items" using g o(1) fo by (metis UnCI image_Un set_append)
    ultimately have "\<exists>x. x \<in> set train" by (auto simp: sets)
    moreover have "\<exists>h. h \<in> ?T \<and> h \<in> gk ` set items"
    proof -
      obtain p where "p \<in> set (last_n (test_size share m (length ?o)) ?o)" using o(3) by (meson last_in_set)
      then have "fst p \<in> ?T" "p \<in> set ?o" using o(1) by (auto simp: test_groups_def) (metis UnCI set_append)
      then show ?thesis using fo by blast
    qed
    then have "\<exists>y. y \<in> set test" by (auto simp: sets)
    ultimately show ?thesis by auto
  qed
  moreover have "list_all (\<lambda>x. list_all (\<lambda>y. group_time tk (filter (\<lambda>z. gk z = gk x) items) \<le> group_time tk (filter (\<lambda>z. gk z = gk y) items)) test) train"
    using test_groups_newest [of _ items gk tk share m] by (auto simp: list_all_iff sets)
  ultimately show ?thesis by blast
qed

text \<open>The side of a group is decided by its newest item alone, so a session of the test side can be older than every
  session of the training side: the periods are not separated.\<close>

lemma test_may_precede_training:
  "grouped_time_split fst (\<lambda>(g, t). Some t) (1 / 5) 1 [(1 :: nat, 0 :: real), (2, 3), (1, 5)] = ([(2, 3)], [(1, 0), (1, 5)])"
  by (simp add: grouped_time_split_def ordered_groups_def group_items_def dget_or_def group_time_def map_filter_simps
      test_size_def last_n_def Let_def)

lemma split_without_leak_witness:
  "leaked_groups fst [(2 :: nat, 3 :: real)] [(1, 0), (1, 5)] = {}"
  using split_without_leak [OF test_may_precede_training] by simp

text \<open>With a single server everything is test data.\<close>

lemma single_group_is_test:
  "1 \<le> m \<Longrightarrow> fst (grouped_time_split (\<lambda>x. g) tk share m items) = []"
proof -
  assume m: "1 \<le> m"
  have sub: "fst ` set (ordered_groups (\<lambda>x. g) tk items) \<subseteq> {g}"
    using fst_group_items [of "\<lambda>x. g" items] by (auto simp: ordered_groups_facts(1))
  have "length (ordered_groups (\<lambda>x. g) tk items) \<le> 1"
    using card_mono [OF _ sub] distinct_card [OF ordered_groups_facts(2) [of "\<lambda>x. g" tk items]] by simp
  then have "last_n (test_size share m (length (ordered_groups (\<lambda>x. g) tk items))) (ordered_groups (\<lambda>x. g) tk items)
      = ordered_groups (\<lambda>x. g) tk items"
    using m by (auto simp: last_n_def test_size_def le_Suc_eq)
  then show ?thesis
    unfolding grouped_time_split_def Let_def fst_conv by (force simp: filter_empty_conv)
qed

end
