(* ===== verification/MTA_STS.thy ===== *)
theory MTA_STS
  imports IP_Address Digest512
begin

text \<open>
  Transport policy of a mail domain (src/backend/app/proactive/mta_sts.py): the bounded DNS cache, the
  MTA-STS record and policy, the guarded HTTPS fetch, the TLSA records with their DNSSEC verdict, the
  status of a domain and the findings about an observed session. Answers of DNS and HTTP, resolved
  addresses, the validation of a signature and the extraction of a public key are inputs; texts are
  ASCII.
\<close>

section \<open>The cache\<close>

record 'a ttl_cache =
  tl_max :: nat
  tl_data :: "(string, time \<times> 'a) dict"

definition cache_get :: "time \<Rightarrow> string \<Rightarrow> 'a ttl_cache \<Rightarrow> 'a option \<times> 'a ttl_cache" where
  "cache_get now key c =
     (case dget (tl_data c) key of
        None \<Rightarrow> (None, c)
      | Some (till, v) \<Rightarrow>
          if till < now then (None, c\<lparr>tl_data := ddel key (tl_data c)\<rparr>) else (Some v, c))"

definition evict :: "'a ttl_cache \<Rightarrow> 'a ttl_cache" where
  \<comment> \<open>a tenth of the capacity, at least one, the earliest expiries first\<close>
  "evict c =
     c\<lparr>tl_data := foldl (\<lambda>d (k, e). ddel k d) (tl_data c)
         (take (max 1 (tl_max c div 10)) (sort_key (\<lambda>(k, e). fst e) (tl_data c)))\<rparr>"

definition cache_put :: "time \<Rightarrow> string \<Rightarrow> 'a \<Rightarrow> time \<Rightarrow> 'a ttl_cache \<Rightarrow> 'a ttl_cache" where
  "cache_put now key v ttl c =
     (if ttl \<le> 0 then c
      else (let c = (if tl_max c \<le> length (tl_data c) then evict c else c)
            in c\<lparr>tl_data := dset key (now + ttl, v) (tl_data c)\<rparr>))"

definition cache_drop :: "string \<Rightarrow> 'a ttl_cache \<Rightarrow> 'a ttl_cache" where
  "cache_drop key c = c\<lparr>tl_data := ddel key (tl_data c)\<rparr>"

section \<open>DNS\<close>

datatype rdata = MX_Rdata nat string | TXT_Rdata "string list"

datatype dns_answer = No_Data string | Dns_Fails string | Answers "(rdata \<times> int option) list"

type_synonym dns_cache = "rdata list ttl_cache"

record net_env =
  ne_now :: time
  ne_dns :: "string \<Rightarrow> string \<Rightarrow> dns_answer"
  ne_addresses :: "string \<Rightarrow> string + string list"

datatype query_error = NoData string | DnsError string

definition dns_query :: "net_env \<Rightarrow> string \<Rightarrow> string \<Rightarrow> dns_cache \<Rightarrow> (query_error + rdata list) \<times> dns_cache" where
  "dns_query en name rdtype c =
     (let key = rdtype @ '':'' @ str_lower name
      in case cache_get (ne_now en) key c of
           (Some v, c) \<Rightarrow> (Inr v, c)
         | (None, c) \<Rightarrow>
             (case ne_dns en name rdtype of
                No_Data e \<Rightarrow> (Inl (NoData e), c)
              | Dns_Fails e \<Rightarrow> (Inl (DnsError e), c)
              | Answers rrs \<Rightarrow>
                  (let ttl = Min (set (map (\<lambda>(r, t). case t of Some n \<Rightarrow> n | None \<Rightarrow> 300) rrs @ [300]))
                   in (Inr (map fst rrs), cache_put (ne_now en) key (map fst rrs) (real_of_int (min ttl 3600)) c))))"

section \<open>The policy\<close>

definition rstrip_dots :: "string \<Rightarrow> string" where
  "rstrip_dots s = rev (dropWhile (\<lambda>c. c = CHR ''.'') (rev s))"

definition sts_id_at :: "string \<Rightarrow> string option" where
  \<comment> \<open>the pattern \<open>v=STSv1;\s*id=([^;\s]+)\<close> at the start of a text\<close>
  "sts_id_at s =
     (let r = dropWhile is_space (drop 8 s); v = takeWhile (\<lambda>c. c \<noteq> CHR '';'' \<and> \<not> is_space c) (drop 3 r)
      in if str_lower (take 8 s) = ''v=stsv1;'' \<and> str_lower (take 3 r) = ''id='' \<and> v \<noteq> [] then Some v else None)"

fun sts_id :: "string \<Rightarrow> string option" where
  "sts_id [] = sts_id_at []"
| "sts_id (c # cs) = (case sts_id_at (c # cs) of Some v \<Rightarrow> Some v | None \<Rightarrow> sts_id cs)"

definition is_line_end :: "char \<Rightarrow> bool" where
  "is_line_end c \<longleftrightarrow> (let n = (of_char c :: nat) in 10 \<le> n \<and> n \<le> 13 \<or> 28 \<le> n \<and> n \<le> 30)"

fun policy_lines :: "string \<Rightarrow> string list" where
  \<comment> \<open>\<open>splitlines()\<close>; the additional empty lines of a two-character line end are skipped by the reader\<close>
  "policy_lines [] = [[]]"
| "policy_lines (c # cs) =
     (if is_line_end c then [] # policy_lines cs
      else (case policy_lines cs of [] \<Rightarrow> [[c]] | l # ls \<Rightarrow> (c # l) # ls))"

record sts =
  s_mx_hosts :: "string list"
  s_txt :: "string option"
  s_policy :: "string option"
  s_policy_id :: "string option"
  s_mode :: "string option"
  s_max_age :: "int option"
  s_mx_patterns :: "string list"
  s_error :: "string option"

definition no_sts :: sts where
  "no_sts = \<lparr>s_mx_hosts = [], s_txt = None, s_policy = None, s_policy_id = None, s_mode = None, s_max_age = None,
     s_mx_patterns = [], s_error = None\<rparr>"

definition quoted :: "string \<Rightarrow> string" where
  \<comment> \<open>\<open>repr\<close> of a text without quotes and control characters\<close>
  "quoted s = CHR 0x27 # s @ [CHR 0x27]"

definition policy_line :: "string \<Rightarrow> sts \<Rightarrow> sts" where
  "policy_line line p =
     (let line = str_strip line; (k, found, v) = partition_str '':'' line;
          k = str_lower (str_strip k); v = str_strip v
      in if line = [] \<or> hd line = CHR ''#'' \<or> \<not> found then p
         else if k = ''mode'' then p\<lparr>s_mode := Some (str_lower v)\<rparr>
         else if k = ''max_age'' then
           (case py_int v of
              Some n \<Rightarrow> p\<lparr>s_max_age := Some n\<rparr>
            | None \<Rightarrow> p\<lparr>s_error := Some (''malformed max_age: '' @ quoted v)\<rparr>)
         else if k = ''mx'' then p\<lparr>s_mx_patterns := s_mx_patterns p @ [v]\<rparr>
         else p)"

definition known_mode :: "string option \<Rightarrow> bool" where
  "known_mode m \<longleftrightarrow> m \<in> {Some ''enforce'', Some ''testing'', Some ''none''}"

definition read_policy :: "string \<Rightarrow> sts \<Rightarrow> sts" where
  "read_policy policy p =
     (let p = foldl (\<lambda>p l. policy_line l p) p (policy_lines policy)
      in if known_mode (s_mode p) then p
         else p\<lparr>s_error := Some (''malformed mode: '' @
                (case s_mode p of None \<Rightarrow> ''None'' | Some m \<Rightarrow> quoted m))\<rparr>)"

section \<open>The guarded fetch\<close>

record url =
  url_scheme :: string
  url_host :: string
  url_rest :: string

datatype http_reply = Http_Raises string | Redirect_To string | Http_Status nat | Http_Body string

record fetch_cfg =
  fc_max_bytes :: nat
  fc_max_redirects :: nat
  fc_get :: "url \<Rightarrow> http_reply"
  fc_join :: "url \<Rightarrow> string \<Rightarrow> url"

datatype target = Public | Refused string | Lookup_Fails string

definition bad_address :: "string \<Rightarrow> bool" where
  "bad_address a = (case ip_address a of None \<Rightarrow> True | Some i \<Rightarrow> \<not> is_public_ip i)"

definition public_target :: "net_env \<Rightarrow> string \<Rightarrow> target" where
  \<comment> \<open>a refusal is a \<open>ValueError\<close>, a failing lookup an \<open>OSError\<close>\<close>
  "public_target en host =
     (case ne_addresses en host of
        Inl e \<Rightarrow> Lookup_Fails e
      | Inr [] \<Rightarrow> Refused ''no addresses''
      | Inr as \<Rightarrow>
          (case find bad_address as of
             Some a \<Rightarrow> Refused (if ip_address a = None then quoted a @ '' does not appear to be an IPv4 or IPv6 address''
                               else ''non-public address '' @ a)
           | None \<Rightarrow> Public))"

definition safe_redirect :: "net_env \<Rightarrow> fetch_cfg \<Rightarrow> url \<Rightarrow> string \<Rightarrow> string + url option" where
  \<comment> \<open>\<open>None\<close> is an unsafe target; a failing lookup raises\<close>
  "safe_redirect en fc current location =
     (let nxt = fc_join fc current location
      in if url_scheme nxt \<noteq> ''https'' then Inr None
         else (case public_target en (url_host nxt) of
                 Lookup_Fails e \<Rightarrow> Inl e | Refused e \<Rightarrow> Inr None | Public \<Rightarrow> Inr (Some nxt)))"

fun fetch_loop :: "net_env \<Rightarrow> fetch_cfg \<Rightarrow> nat \<Rightarrow> url \<Rightarrow> (string + string) \<times> url list" where
  \<comment> \<open>error or policy text, and the requests that were made\<close>
  "fetch_loop en fc 0 current = (Inl ''too many redirects'', [])"
| "fetch_loop en fc (Suc n) current =
     (case fc_get fc current of
        Http_Raises e \<Rightarrow> (Inl (''policy fetch failed: '' @ e), [current])
      | Redirect_To location \<Rightarrow>
          (case safe_redirect en fc current location of
             Inl e \<Rightarrow> (Inl (''policy fetch failed: '' @ e), [current])
           | Inr None \<Rightarrow> (Inl ''policy fetch refused: unsafe redirect'', [current])
           | Inr (Some nxt) \<Rightarrow> (let (r, rs) = fetch_loop en fc n nxt in (r, current # rs)))
      | Http_Status code \<Rightarrow> (Inl (''policy HTTP '' @ dec_of code), [current])
      | Http_Body body \<Rightarrow>
          (if fc_max_bytes fc < length body then Inl ''policy too large'' else Inr body, [current]))"

definition policy_url :: "string \<Rightarrow> url" where
  "policy_url d = \<lparr>url_scheme = ''https'', url_host = ''mta-sts.'' @ d, url_rest = ''/.well-known/mta-sts.txt''\<rparr>"

definition fetch_policy :: "net_env \<Rightarrow> fetch_cfg \<Rightarrow> string \<Rightarrow> (string + (string + string)) \<times> url list" where
  \<comment> \<open>the outer \<open>Inl\<close> is an exception: the first lookup is outside the \<open>try\<close> that turns errors into text\<close>
  "fetch_policy en fc d =
     (case public_target en (''mta-sts.'' @ d) of
        Lookup_Fails e \<Rightarrow> (Inl e, [])
      | Refused e \<Rightarrow> (Inr (Inl (''policy fetch refused: '' @ e)), [])
      | Public \<Rightarrow> (let (r, rs) = fetch_loop en fc (fc_max_redirects fc + 1) (policy_url d) in (Inr r, rs)))"

section \<open>Looking a domain up\<close>

fun insort_mx :: "nat \<times> string \<Rightarrow> (nat \<times> string) list \<Rightarrow> (nat \<times> string) list" where
  \<comment> \<open>tuples compare by preference, then by name\<close>
  "insort_mx x [] = [x]"
| "insort_mx x (y # ys) =
     (if fst y < fst x \<or> fst y = fst x \<and> text_less (snd y) (snd x) then y # insort_mx x ys else x # y # ys)"

definition mx_hosts :: "rdata list \<Rightarrow> string list" where
  "mx_hosts rrs =
     map snd (foldr insort_mx (List.map_filter (\<lambda>r. case r of MX_Rdata n h \<Rightarrow> Some (n, rstrip_dots h) | _ \<Rightarrow> None) rrs) [])"

definition txt_of :: "rdata list \<Rightarrow> string" where
  "txt_of rrs = concat (map (\<lambda>r. case r of TXT_Rdata ss \<Rightarrow> concat ss | _ \<Rightarrow> []) rrs)"

definition fetch_mta_sts :: "net_env \<Rightarrow> fetch_cfg \<Rightarrow> string \<Rightarrow> dns_cache \<Rightarrow> (string + sts) \<times> dns_cache" where
  "fetch_mta_sts en fc d c =
     (case dns_query en d ''MX'' c of
        (Inl (NoData e), c) \<Rightarrow> (Inr (no_sts\<lparr>s_error := Some (''no MX: '' @ e)\<rparr>), c)
      | (Inl (DnsError e), c) \<Rightarrow> (Inr (no_sts\<lparr>s_error := Some (''dns-error MX: '' @ e)\<rparr>), c)
      | (Inr mxs, c) \<Rightarrow>
          (let p = no_sts\<lparr>s_mx_hosts := mx_hosts mxs\<rparr>
           in case dns_query en (''_mta-sts.'' @ d) ''TXT'' c of
                (Inl (NoData e), c) \<Rightarrow> (Inr p, c)
              | (Inl (DnsError e), c) \<Rightarrow> (Inr (p\<lparr>s_error := Some (''dns-error TXT: '' @ e)\<rparr>), c)
              | (Inr rrs, c) \<Rightarrow>
                  (let p = p\<lparr>s_txt := Some (txt_of rrs)\<rparr>
                   in case sts_id (txt_of rrs) of
                        None \<Rightarrow> (Inr (p\<lparr>s_error := Some ''malformed _mta-sts TXT (missing v=STSv1/id)''\<rparr>), c)
                      | Some i \<Rightarrow>
                          (case fst (fetch_policy en fc d) of
                             Inl e \<Rightarrow> (Inl e, c)
                           | Inr (Inl e) \<Rightarrow> (Inr (p\<lparr>s_error := Some e\<rparr>), c)
                           | Inr (Inr policy) \<Rightarrow>
                               (Inr (read_policy policy (p\<lparr>s_policy := Some policy, s_policy_id := Some i\<rparr>)), c)))))"

section \<open>DANE\<close>

record tlsa =
  ta_usage :: nat
  ta_selector :: nat
  ta_mtype :: nat
  ta_cert :: bytes

datatype tlsa_answer = Tlsa_Absent | Tlsa_Fails string | Tlsa_Found "tlsa list" bool bool

record tlsa_result =
  tr_records :: "tlsa list"
  tr_dnssec :: string
  tr_error :: "string option"

definition fetch_tlsa :: "bool \<Rightarrow> tlsa_answer \<Rightarrow> tlsa_result" where
  \<comment> \<open>\<open>anchored\<close>: a trust anchor is configured; an answer says whether it is signed and whether the
     signature validates against the anchor\<close>
  "fetch_tlsa anchored ans =
     (case ans of
        Tlsa_Absent \<Rightarrow> \<lparr>tr_records = [], tr_dnssec = ''not-published'', tr_error = None\<rparr>
      | Tlsa_Fails e \<Rightarrow> \<lparr>tr_records = [], tr_dnssec = ''unknown'', tr_error = Some (''dns-error TLSA: '' @ e)\<rparr>
      | Tlsa_Found rs has_sig valid \<Rightarrow>
          if \<not> has_sig then \<lparr>tr_records = rs, tr_dnssec = ''insecure'', tr_error = None\<rparr>
          else if \<not> anchored then \<lparr>tr_records = rs, tr_dnssec = ''dnssec-failed'',
                                 tr_error = Some ''signed TLSA but no trust anchor configured''\<rparr>
          else if valid then \<lparr>tr_records = rs, tr_dnssec = ''secure'', tr_error = None\<rparr>
          else \<lparr>tr_records = rs, tr_dnssec = ''bogus'', tr_error = Some ''RRSIG validation failed''\<rparr>)"

definition tlsa_matches :: "(bytes \<Rightarrow> bytes option) \<Rightarrow> tlsa \<Rightarrow> bytes \<Rightarrow> bool" where
  \<comment> \<open>\<open>spki\<close> extracts the public key of a certificate, \<open>None\<close> when that raises\<close>
  "tlsa_matches spki r der =
     (if ta_usage r \<noteq> 2 \<and> ta_usage r \<noteq> 3 then False
      else (case (if ta_selector r = 0 then Some der else if ta_selector r = 1 then spki der else None) of
              None \<Rightarrow> False
            | Some data \<Rightarrow>
                let expect = str_lower (hexdigest (ta_cert r))
                in if ta_mtype r = 0 then hexdigest data = expect
                   else if ta_mtype r = 1 then hexdigest (sha256 data) = expect
                   else if ta_mtype r = 2 then hexdigest (sha512 data) = expect else False))"

section \<open>The posture of a domain\<close>

record posture =
  po_domain :: string
  po_status :: string
  po_mode :: "string option"
  po_error :: "string option"
  po_mx_patterns :: "string list"
  po_mx_hosts :: "string list"
  po_tlsa :: "(string \<times> tlsa_result) list"

definition norm_domain :: "string \<Rightarrow> string" where
  "norm_domain s = rstrip_dots (str_lower (str_strip s))"

definition sts_status :: "sts \<Rightarrow> string" where
  "sts_status p =
     (case (if s_error p = Some '''' then None else s_error p) of
        Some err \<Rightarrow>
          if starts_with ''dns-error'' err then ''dns-error''
          else if contains ''malformed'' err \<or> contains ''policy'' err then ''misconfigured''
          else ''dns-error''
      | None \<Rightarrow>
          if s_mode p = Some ''enforce'' \<or> s_mode p = Some ''testing'' then ''ok''
          else if s_mode p = Some ''none'' then ''not-published''
          else if s_txt p = None \<and> s_mx_hosts p = [] then ''dns-error''
          else ''not-published'')"

definition posture_status :: "sts \<Rightarrow> (string \<times> tlsa_result) list \<Rightarrow> string" where
  "posture_status p tlsas =
     (let status = sts_status p;
          failed = list_ex (\<lambda>(mx, t). tr_dnssec t = ''bogus'' \<or>
             tr_dnssec t = ''dnssec-failed'' \<and> tr_error t \<notin> {None, Some ''''}) tlsas
      in if failed \<and> (status = ''not-published'' \<or> status = ''ok'') then ''dnssec-failed'' else status)"

definition tlsa_results :: "bool \<Rightarrow> (string \<Rightarrow> tlsa_answer) \<Rightarrow> string list \<Rightarrow> (string \<times> tlsa_result) list" where
  "tlsa_results anchored tlsa_of hosts = foldl (\<lambda>ts mx. dset mx (fetch_tlsa anchored (tlsa_of mx)) ts) [] (take 8 hosts)"

definition posture_of :: "string \<Rightarrow> (string \<times> tlsa_result) list \<Rightarrow> sts \<Rightarrow> posture" where
  "posture_of d tlsas p =
     \<lparr>po_domain = d, po_status = posture_status p tlsas, po_mode = s_mode p, po_error = s_error p,
      po_mx_patterns = s_mx_patterns p, po_mx_hosts = s_mx_hosts p, po_tlsa = tlsas\<rparr>"

definition check_domain ::
  "net_env \<Rightarrow> fetch_cfg \<Rightarrow> bool \<Rightarrow> (string \<Rightarrow> tlsa_answer) \<Rightarrow> string \<Rightarrow> bool \<Rightarrow> dns_cache \<Rightarrow> posture \<times> dns_cache" where
  "check_domain en fc anchored tlsa_of domain refresh c =
     (let d = norm_domain domain;
          blank = \<lparr>po_domain = d, po_status = '''', po_mode = None, po_error = None, po_mx_patterns = [],
                   po_mx_hosts = [], po_tlsa = []\<rparr>
      in if d = '''' \<or> CHR ''.'' \<notin> set d \<or> 253 < length d then (blank\<lparr>po_status := ''invalid-domain''\<rparr>, c)
         else (let c = (if refresh
                        then foldl (\<lambda>c k. cache_drop k c) c
                               (concat (map (\<lambda>t. [t @ '':'' @ d, t @ '':_mta-sts.'' @ d]) [''MX'', ''TXT'', ''TLSA'']))
                        else c)
               in case fetch_mta_sts en fc d c of
                    (Inl e, c) \<Rightarrow> (blank\<lparr>po_status := ''dns-error'', po_error := Some (take 200 e)\<rparr>, c)
                  | (Inr p, c) \<Rightarrow>
                      (posture_of d (tlsa_results anchored tlsa_of (s_mx_hosts p)) p, c)))"

section \<open>Judging a session\<close>

record session_info =
  si_used_tls :: bool
  si_mx_host :: "string option"
  si_cert_der :: "bytes option"
  si_cert_ok :: "bool option"

datatype transport_finding = Enforce_Plaintext | Enforce_Bad_Cert | Tlsa_Mismatch string

definition host_findings ::
  "(bytes \<Rightarrow> bytes option) \<Rightarrow> session_info \<Rightarrow> string \<Rightarrow> tlsa_result \<Rightarrow> transport_finding list" where
  "host_findings spki si mx t =
     (if tr_dnssec t \<noteq> ''secure'' \<or> tr_records t = [] then []
      else if si_mx_host si \<notin> {None, Some '''', Some mx} then []
      else (case si_cert_der si of
              None \<Rightarrow> []
            | Some der \<Rightarrow>
                if der = [] \<or> list_ex (\<lambda>r. tlsa_matches spki r der) (tr_records t) then [] else [Tlsa_Mismatch mx]))"

definition evaluate_session :: "(bytes \<Rightarrow> bytes option) \<Rightarrow> posture \<Rightarrow> session_info \<Rightarrow> transport_finding list" where
  "evaluate_session spki po si =
     (if po_mode po = Some ''enforce''
      then (if \<not> si_used_tls si then [Enforce_Plaintext]
            else if si_cert_ok si = Some False then [Enforce_Bad_Cert] else [])
      else []) @ concat (map (\<lambda>(mx, t). host_findings spki si mx t) (po_tlsa po))"

lemma host_findings_iff:
  "f \<in> set (host_findings spki si mx t) \<longleftrightarrow>
     f = Tlsa_Mismatch mx \<and> tr_dnssec t = ''secure'' \<and> tr_records t \<noteq> [] \<and>
     si_mx_host si \<in> {None, Some '''', Some mx} \<and>
     (\<exists>der. si_cert_der si = Some der \<and> der \<noteq> [] \<and> \<not> list_ex (\<lambda>r. tlsa_matches spki r der) (tr_records t))"
proof (cases "tr_dnssec t = ''secure'' \<and> tr_records t \<noteq> [] \<and> si_mx_host si \<in> {None, Some '''', Some mx}")
  case True
  then show ?thesis by (cases "si_cert_der si") (simp_all add: host_findings_def)
next
  case False
  then have "host_findings spki si mx t = []" by (simp only: host_findings_def) auto
  then have "f \<notin> set (host_findings spki si mx t)" by simp
  with False show ?thesis by blast
qed

definition mismatch_for_session :: "(bytes \<Rightarrow> bytes option) \<Rightarrow> posture \<Rightarrow> bool \<Rightarrow> transport_finding option" where
  "mismatch_for_session spki po used_tls =
     (case evaluate_session spki po \<lparr>si_used_tls = used_tls, si_mx_host = None, si_cert_der = None, si_cert_ok = None\<rparr> of
        [] \<Rightarrow> None | f # fs \<Rightarrow> Some f)"

section \<open>The cache is bounded and never stale\<close>

datatype 'a cache_op = Put_At time string 'a time | Get_At time string

fun cache_step :: "'a cache_op \<Rightarrow> 'a ttl_cache \<Rightarrow> 'a ttl_cache" where
  "cache_step (Put_At now key v ttl) c = cache_put now key v ttl c"
| "cache_step (Get_At now key) c = snd (cache_get now key c)"

fun latest :: "string \<Rightarrow> 'a cache_op list \<Rightarrow> (time \<times> 'a) option" where
  \<comment> \<open>expiry and value of the last effective write of a key; the newest operation is first\<close>
  "latest key [] = None"
| "latest key (Put_At now k v ttl # ops) = (if k = key \<and> 0 < ttl then Some (now + ttl, v) else latest key ops)"
| "latest key (Get_At now k # ops) = latest key ops"

lemma foldl_ddel:
  "dget (foldl (\<lambda>d (k, e). ddel k d) d ks) key = (if key \<in> fst ` set ks then None else dget d key)"
  by (induction ks arbitrary: d) auto

lemma length_foldl_ddel: "length (foldl (\<lambda>d (k, e). ddel k d) d ks) \<le> length d"
proof (induction ks arbitrary: d)
  case Nil
  then show ?case by simp
next
  case (Cons x ks)
  obtain k e where "x = (k, e)" by fastforce
  with Cons [of "ddel k d"] length_delete_le [of k d] show ?case by simp
qed

lemma evict_get: "dget (tl_data (evict c)) key = Some e \<Longrightarrow> dget (tl_data c) key = Some e"
  by (auto simp: evict_def foldl_ddel split: if_splits)

lemma evict_shorter:
  assumes "tl_data c \<noteq> []"
  shows "length (tl_data (evict c)) < length (tl_data c)"
proof -
  let ?s = "sort_key (\<lambda>(k, e). fst e) (tl_data c)"
  have "length ?s \<noteq> 0" using assms by simp
  then obtain k e r where s: "?s = (k, e) # r" by (cases ?s) auto
  then have "(k, e) \<in> set (tl_data c)" using set_sort [of "\<lambda>(k, e). fst e" "tl_data c"] by auto
  then obtain v where "dget (tl_data c) k = Some v" using weak_map_of_SomeI by metis
  then have "length (ddel k (tl_data c)) < length (tl_data c)" by (rule length_ddel_less)
  moreover have "take (max 1 (tl_max c div 10)) ?s = (k, e) # take (max 1 (tl_max c div 10) - 1) r"
    by (simp add: s take_Cons')
  ultimately show ?thesis
    using length_foldl_ddel [of "ddel k (tl_data c)" "take (max 1 (tl_max c div 10) - 1) r"]
    by (simp add: evict_def)
qed

lemma evict_max [simp]: "tl_max (evict c) = tl_max c"
  by (simp add: evict_def)

lemma put_bound:
  assumes "0 < tl_max c" "length (tl_data c) \<le> tl_max c"
  shows "length (tl_data (cache_put now key v ttl c)) \<le> tl_max c"
proof (cases "tl_max c \<le> length (tl_data c)")
  case True
  then have "length (tl_data (evict c)) < length (tl_data c)" using assms by (intro evict_shorter) auto
  then show ?thesis
    using assms(2) True length_dset_le [of key "(now + ttl, v)" "tl_data (evict c)"]
    by (simp add: cache_put_def Let_def)
next
  case False
  then show ?thesis
    using assms length_dset_le [of key "(now + ttl, v)" "tl_data c"] by (auto simp: cache_put_def Let_def)
qed

lemma cache_step_max [simp]: "tl_max (cache_step op c) = tl_max c"
  by (cases op) (auto simp: cache_put_def cache_get_def Let_def split: option.split)

lemma cache_run_max [simp]: "tl_max (foldr cache_step ops c) = tl_max c"
  by (induction ops) simp_all

lemma cache_step_bound:
  "0 < tl_max c \<Longrightarrow> length (tl_data c) \<le> tl_max c \<Longrightarrow> length (tl_data (cache_step op c)) \<le> tl_max c"
  by (cases op) (auto simp: put_bound cache_get_def split: option.split intro: le_trans [OF length_delete_le])

lemma cache_step_latest:
  assumes "\<And>t v. dget (tl_data c) key = Some (t, v) \<Longrightarrow> latest key ops = Some (t, v)"
    and "dget (tl_data (cache_step op c)) key = Some (t, v)"
  shows "latest key (op # ops) = Some (t, v)"
  using assms
  by (cases op) (auto simp: cache_put_def cache_get_def Let_def dest: evict_get split: if_splits option.splits)

text \<open>The DNS cache never exceeds its capacity, and what a lookup returns is the value of the last write
  of that key, not yet expired, over any sequence of writes and lookups.\<close>

theorem cache_bounded_and_fresh:
  assumes "0 < n"
  shows "case foldr cache_step ops \<lparr>tl_max = n, tl_data = []\<rparr> of c \<Rightarrow>
    length (tl_data c) \<le> n \<and>
    (\<forall>now key v. fst (cache_get now key c) = Some v \<longrightarrow> (\<exists>till. latest key ops = Some (till, v) \<and> now \<le> till))"
proof -
  have "length (tl_data (foldr cache_step ops \<lparr>tl_max = n, tl_data = []\<rparr>)) \<le> n"
  proof (induction ops)
    case Nil
    then show ?case by simp
  next
    case (Cons op ops)
    then show ?case
      using cache_step_bound [of "foldr cache_step ops \<lparr>tl_max = n, tl_data = []\<rparr>" op] assms by simp
  qed
  moreover have "dget (tl_data (foldr cache_step ops \<lparr>tl_max = n, tl_data = []\<rparr>)) key = Some (t, v) \<Longrightarrow>
      latest key ops = Some (t, v)" for key t v
  proof (induction ops arbitrary: t v)
    case Nil
    then show ?case by simp
  next
    case (Cons op ops)
    from cache_step_latest [OF Cons.IH] Cons.prems show ?case by simp
  qed
  ultimately show ?thesis by (fastforce simp: cache_get_def split: option.splits if_splits)
qed

lemma cache_bounded_and_fresh_witness:
  "length (tl_data (foldr cache_step [Put_At 2 ''b'' (7 :: nat) 5, Put_At 1 ''a'' 6 5] \<lparr>tl_max = 1, tl_data = []\<rparr>)) \<le> 1"
  using cache_bounded_and_fresh [of 1 "[Put_At 2 ''b'' (7 :: nat) 5, Put_At 1 ''a'' 6 5]"] by simp

section \<open>Where the policy may come from\<close>

definition safe_url :: "net_env \<Rightarrow> url \<Rightarrow> bool" where
  "safe_url en u \<longleftrightarrow> url_scheme u = ''https'' \<and> public_target en (url_host u) = Public"

lemma fetch_loop_safe:
  assumes "safe_url en current"
  shows "\<forall>u \<in> set (snd (fetch_loop en fc n current)). safe_url en u"
    "length (snd (fetch_loop en fc n current)) \<le> n"
    "fst (fetch_loop en fc n current) = Inr body \<Longrightarrow> length body \<le> fc_max_bytes fc"
proof -
  have "(\<forall>u \<in> set (snd (fetch_loop en fc n current)). safe_url en u) \<and>
      length (snd (fetch_loop en fc n current)) \<le> n \<and>
      (\<forall>body. fst (fetch_loop en fc n current) = Inr body \<longrightarrow> length body \<le> fc_max_bytes fc)"
    using assms
  proof (induction en fc n current rule: fetch_loop.induct)
    case (1 en fc current)
    then show ?case by simp
  next
    case (2 en fc n current)
    show ?case
    proof (cases "fc_get fc current")
      case (Redirect_To location)
      show ?thesis
      proof (cases "\<exists>nxt. safe_redirect en fc current location = Inr (Some nxt)")
        case True
        then obtain nxt where nxt: "safe_redirect en fc current location = Inr (Some nxt)" by blast
        then have "safe_url en nxt"
          by (auto simp: safe_redirect_def safe_url_def Let_def split: if_splits target.splits)
        from "2.IH" [OF Redirect_To nxt refl this] "2.prems" show ?thesis
          by (auto simp: Redirect_To nxt split: prod.split)
      next
        case False
        with "2.prems" show ?thesis by (auto simp: Redirect_To split: sum.split option.split)
      qed
    qed (use "2.prems" in auto)
  qed
  then show "\<forall>u \<in> set (snd (fetch_loop en fc n current)). safe_url en u"
    "length (snd (fetch_loop en fc n current)) \<le> n"
    "fst (fetch_loop en fc n current) = Inr body \<Longrightarrow> length body \<le> fc_max_bytes fc" by blast+
qed


section \<open>Findings need proof\<close>

lemma tlsa_results_mem:
  assumes "(mx, t) \<in> set (tlsa_results anchored tlsa_of hosts)"
  shows "t = fetch_tlsa anchored (tlsa_of mx) \<and> mx \<in> set hosts"
proof -
  have "\<forall>(mx, t) \<in> set (foldl (\<lambda>ts mx. dset mx (fetch_tlsa anchored (tlsa_of mx)) ts) ts hs).
      t = fetch_tlsa anchored (tlsa_of mx) \<and> (mx \<in> set hs \<or> mx \<in> fst ` set ts)"
    if "\<forall>(mx, t) \<in> set ts. t = fetch_tlsa anchored (tlsa_of mx)" for ts hs
    using that
  proof (induction hs arbitrary: ts)
    case Nil
    then show ?case by force
  next
    case (Cons h hs)
    have st: "p = (h, fetch_tlsa anchored (tlsa_of h)) \<or> p \<in> set ts"
      if "p \<in> set (dset h (fetch_tlsa anchored (tlsa_of h)) ts)" for p
      using that by (rule set_dset)
    with Cons.prems have "\<forall>(mx, t) \<in> set (dset h (fetch_tlsa anchored (tlsa_of h)) ts). t = fetch_tlsa anchored (tlsa_of mx)"
      by fastforce
    from Cons.IH [OF this] st show ?case by force
  qed
  from this [of "[]" "take 8 hosts"] assms show ?thesis
    by (auto simp: tlsa_results_def dest: in_set_takeD)
qed

lemma check_domain_cases:
  assumes "fst (check_domain en fc anchored tlsa_of domain refresh c) = po" "po_mode po \<noteq> None \<or> po_tlsa po \<noteq> []"
  shows "\<exists>p c c'. fetch_mta_sts en fc (norm_domain domain) c = (Inr p, c') \<and>
    po = posture_of (norm_domain domain) (tlsa_results anchored tlsa_of (s_mx_hosts p)) p"
  using assms
  by (auto simp: check_domain_def Let_def split: if_splits prod.splits sum.splits)

text \<open>C29: Nothing is guessed: a finding about plaintext or a bad certificate is made only for a domain whose
  fetched policy says enforce; a TLSA mismatch only for a mail host whose records are signed and validated
  against the configured anchor, and then no record matches the certificate of the session.\<close>

theorem findings_need_proof:
  assumes "fst (check_domain en fc anchored tlsa_of domain refresh c) = po"
    and "f \<in> set (evaluate_session spki po si)"
  shows "(f = Enforce_Plaintext \<and> po_mode po = Some ''enforce'' \<and> \<not> si_used_tls si) \<or>
    (f = Enforce_Bad_Cert \<and> po_mode po = Some ''enforce'' \<and> si_used_tls si \<and> si_cert_ok si = Some False) \<or>
    (\<exists>mx rs der. f = Tlsa_Mismatch mx \<and> anchored \<and> tlsa_of mx = Tlsa_Found rs True True \<and>
       si_cert_der si = Some der \<and> der \<noteq> [] \<and> \<not> list_ex (\<lambda>r. tlsa_matches spki r der) rs)"
proof (cases "po_mode po \<noteq> None \<or> po_tlsa po \<noteq> []")
  case False
  with assms(2) show ?thesis by (auto simp: evaluate_session_def)
next
  case True
  from check_domain_cases [OF assms(1) True] obtain p where
    po: "po = posture_of (norm_domain domain) (tlsa_results anchored tlsa_of (s_mx_hosts p)) p" by blast
  have "\<exists>rs. tlsa_of mx = Tlsa_Found rs True True \<and> anchored \<and> tr_records t = rs"
    if "(mx, t) \<in> set (po_tlsa po)" "tr_dnssec t = ''secure''" for mx t
  proof -
    have "t = fetch_tlsa anchored (tlsa_of mx)"
      using tlsa_results_mem that(1) by (simp add: po posture_of_def)
    with that(2) show ?thesis
      by (auto simp: fetch_tlsa_def split: tlsa_answer.splits if_splits)
  qed
  note secure = this
  consider "f = Enforce_Plaintext" "po_mode po = Some ''enforce''" "\<not> si_used_tls si"
    | "f = Enforce_Bad_Cert" "po_mode po = Some ''enforce''" "si_used_tls si" "si_cert_ok si = Some False"
    | mx t where "(mx, t) \<in> set (po_tlsa po)" "f \<in> set (host_findings spki si mx t)"
    using assms(2) by (auto simp: evaluate_session_def split: if_splits)
  then show ?thesis
  proof cases
    case (3 mx t)
    then show ?thesis using secure [of mx t] by (auto simp: host_findings_iff)
  qed simp_all
qed

section \<open>Where it does guess\<close>

lemma pkix_usage_never_matches: "ta_usage r \<in> {0, 1} \<Longrightarrow> \<not> tlsa_matches spki r der"
  by (auto simp: tlsa_matches_def)

text \<open>Records with the usages 0 and 1, whose check needs the whole chain and is declared out of scope, are
  reported as a mismatch for every certificate, the right one included.\<close>

lemma pkix_usage_is_a_mismatch:
  assumes "(mx, \<lparr>tr_records = rs, tr_dnssec = ''secure'', tr_error = None\<rparr>) \<in> set (po_tlsa po)" "rs \<noteq> []"
    "\<forall>r \<in> set rs. ta_usage r \<in> {0, 1}" "si_mx_host si = Some mx" "si_cert_der si = Some der" "der \<noteq> []"
  shows "Tlsa_Mismatch mx \<in> set (evaluate_session spki po si)"
proof -
  have "\<not> list_ex (\<lambda>r. tlsa_matches spki r der) rs"
    using assms(3) pkix_usage_never_matches by (auto simp: list_ex_iff)
  with assms(2,4-6) have "Tlsa_Mismatch mx \<in> set (host_findings spki si mx \<lparr>tr_records = rs, tr_dnssec = ''secure'', tr_error = None\<rparr>)"
    by (simp add: host_findings_iff)
  with assms(1) show ?thesis by (force simp: evaluate_session_def)
qed

lemma mx_patterns_are_ignored:
  \<comment> \<open>the hosts that the policy allows are never compared with the MX records\<close>
  "posture_status (p\<lparr>s_mx_patterns := xs\<rparr>) ts = posture_status p ts"
proof -
  have "sts_status (p\<lparr>s_mx_patterns := xs\<rparr>) = sts_status p"
    by (cases p) (simp only: sts_status_def sts.select_convs sts.update_convs)
  then show ?thesis by (simp only: posture_status_def)
qed

text \<open>A domain without MX records is reported as misconfigured, which raises an alert, when the resolver's
  message contains the word policy, as it does for a domain that has it in its name.\<close>

theorem no_mx_by_name_is_misconfigured:
  assumes "norm_domain domain = d" "d \<noteq> ''''" "CHR ''.'' \<in> set d" "length d \<le> 253"
    and "dget (tl_data c) (''MX:'' @ str_lower d) = None" "ne_dns en d ''MX'' = No_Data msg" "contains ''policy'' msg"
  shows "po_status (fst (check_domain en fc anchored tlsa_of domain False c)) = ''misconfigured''"
proof -
  have q: "dns_query en d ''MX'' c = (Inl (NoData msg), c)"
    using assms(5,6) by (simp add: dns_query_def cache_get_def)
  have "contains ''policy'' (''no MX: '' @ msg)"
    using assms(7) unfolding contains_iff by (metis append.assoc)
  then have "posture_status (no_sts\<lparr>s_error := Some (''no MX: '' @ msg)\<rparr>) [] = ''misconfigured''"
    by (simp add: posture_status_def sts_status_def starts_with_def)
  with assms(1-4) q show ?thesis
    by (simp add: check_domain_def fetch_mta_sts_def Let_def tlsa_results_def no_sts_def posture_of_def)
qed

section \<open>Instances\<close>

definition demo_net :: net_env where
  "demo_net = \<lparr>ne_now = 0,
     ne_dns = (\<lambda>name t. if t = ''MX'' then Answers [(MX_Rdata 10 ''mx.a.b.'', None)] else No_Data ''no answer for policy.b''),
     ne_addresses = (\<lambda>h. Inl ''none'')\<rparr>"

definition demo_fetch :: fetch_cfg where
  "demo_fetch = \<lparr>fc_max_bytes = 65536, fc_max_redirects = 3, fc_get = (\<lambda>u. Http_Status 404), fc_join = (\<lambda>u l. u)\<rparr>"

definition demo_tlsa :: tlsa where
  "demo_tlsa = \<lparr>ta_usage = 1, ta_selector = 0, ta_mtype = 0, ta_cert = [1]\<rparr>"

definition demo_session :: session_info where
  "demo_session = \<lparr>si_used_tls = True, si_mx_host = Some ''mx.a.b'', si_cert_der = Some [1], si_cert_ok = Some True\<rparr>"

definition empty_cache :: dns_cache where
  "empty_cache = \<lparr>tl_max = 512, tl_data = []\<rparr>"

lemma demo_posture:
  "po_tlsa (fst (check_domain demo_net demo_fetch True (\<lambda>mx. Tlsa_Found [demo_tlsa] True True) ''a.b'' False empty_cache))
   = [(''mx.a.b'', \<lparr>tr_records = [demo_tlsa], tr_dnssec = ''secure'', tr_error = None\<rparr>)]"
  by (simp add: check_domain_def norm_domain_def str_strip_def is_space_def str_lower_def char_lower_def rstrip_dots_def
      fetch_mta_sts_def dns_query_def cache_get_def empty_cache_def demo_net_def mx_hosts_def map_filter_simps
      cache_put_def posture_of_def tlsa_results_def fetch_tlsa_def no_sts_def Let_def)

lemma findings_need_proof_witness:
  "Tlsa_Mismatch ''mx.a.b'' \<in> set (evaluate_session (\<lambda>d. None)
     (fst (check_domain demo_net demo_fetch True (\<lambda>mx. Tlsa_Found [demo_tlsa] True True) ''a.b'' False empty_cache)) demo_session) \<and>
   si_cert_der demo_session = Some [1]"
proof -
  let ?po = "fst (check_domain demo_net demo_fetch True (\<lambda>mx. Tlsa_Found [demo_tlsa] True True) ''a.b'' False empty_cache)"
  have "Tlsa_Mismatch ''mx.a.b'' \<in> set (evaluate_session (\<lambda>d. None) ?po demo_session)"
    by (rule pkix_usage_is_a_mismatch [where rs = "[demo_tlsa]" and der = "[1]"])
      (simp_all add: demo_posture demo_session_def, simp add: demo_tlsa_def)
  with findings_need_proof [OF refl this] show ?thesis by (simp add: demo_session_def)
qed

lemma no_mx_by_name_is_misconfigured_witness:
  "po_status (fst (check_domain (demo_net\<lparr>ne_dns := (\<lambda>name t. No_Data ''no answer for policy.b'')\<rparr>) demo_fetch True
     (\<lambda>mx. Tlsa_Absent) ''policy.b'' False empty_cache)) = ''misconfigured''"
  by (rule no_mx_by_name_is_misconfigured [where d = "''policy.b''" and msg = "''no answer for policy.b''"])
    (simp_all add: norm_domain_def str_strip_def is_space_def str_lower_def char_lower_def rstrip_dots_def
      empty_cache_def contains_def)

end
