(* ===== verification/ML_Registry.thy ===== *)
theory ML_Registry
  imports Splits MTA_STS
begin

text \<open>
  The registry of models (src/backend/app/ml/registry.py), retraining on the labels of analysts
  (src/backend/app/ml/retraining.py), and their handlers in src/backend/app/api/main.py. The registry is a
  JSON file that every operation reads and writes as a whole; \<open>None\<close> is a missing or unreadable file.
  Fitting a model and the metrics of scikit-learn are parameters.
\<close>

section \<open>The registry file\<close>

record metrics =
  mt_n :: nat
  mt_positives :: nat
  mt_precision :: real
  mt_recall :: real
  mt_f1 :: real
  mt_auc :: "real option"
  mt_fp_rate :: "real option"

record model_entry =
  me_version :: string
  me_org_id :: string
  me_status :: string
  me_promoted_reason :: "string option"
  me_reason :: "string option"
  me_dataset_size :: nat
  me_metrics :: "metrics option"
  me_artifact :: "string option"

record slot =
  sl_current :: "model_entry option"
  sl_history :: "model_entry list"

record training =
  tn_version :: string
  tn_n_samples :: nat
  tn_features :: "string list"

record reg_doc =
  rg_training :: "(training \<times> training list) option"
  rg_orgs :: "(string, slot) dict"

type_synonym reg_file = "reg_doc option"

definition empty_doc :: reg_doc where "empty_doc = \<lparr>rg_training = None, rg_orgs = []\<rparr>"

definition load_doc :: "reg_file \<Rightarrow> reg_doc" where
  "load_doc f = (case f of None \<Rightarrow> empty_doc | Some d \<Rightarrow> d)"

definition save_doc :: "bool \<Rightarrow> reg_doc \<Rightarrow> reg_file \<Rightarrow> reg_file" where
  \<comment> \<open>a failing write is swallowed\<close>
  "save_doc ok d f = (if ok then Some d else f)"

definition base_version :: string where "base_version = ''0.1.0''"

definition feature_hash :: "string list \<Rightarrow> string" where
  "feature_hash names = take 8 (sha256_hex (ascii (join '','' names)))"

definition record_training :: "bool \<Rightarrow> nat \<Rightarrow> string list \<Rightarrow> reg_file \<Rightarrow> string \<times> reg_file" where
  \<comment> \<open>the written document has the keys \<open>current\<close> and \<open>history\<close> only\<close>
  "record_training ok n names f =
     (let version = base_version @ ''-'' @ dec_of n @ ''-'' @ feature_hash names;
          entry = \<lparr>tn_version = version, tn_n_samples = n, tn_features = names\<rparr>;
          past = (case rg_training (load_doc f) of None \<Rightarrow> [] | Some (c, h) \<Rightarrow> h)
      in (version, save_doc ok \<lparr>rg_training = Some (entry, last_n 20 (past @ [entry])), rg_orgs = []\<rparr> f))"

definition current_version :: "reg_file \<Rightarrow> string" where
  "current_version f = (case rg_training (load_doc f) of None \<Rightarrow> base_version | Some (c, h) \<Rightarrow> tn_version c)"

definition org_key :: "string option \<Rightarrow> string" where
  "org_key org = or_text org ''global''"

definition slot_of :: "string option \<Rightarrow> reg_doc \<Rightarrow> slot" where
  "slot_of org d = dget_or (rg_orgs d) (org_key org) \<lparr>sl_current = None, sl_history = []\<rparr>"

definition put_slot :: "string option \<Rightarrow> slot \<Rightarrow> reg_doc \<Rightarrow> reg_doc" where
  "put_slot org sl d = d\<lparr>rg_orgs := dset (org_key org) sl (rg_orgs d)\<rparr>"

definition record_candidate :: "bool \<Rightarrow> string option \<Rightarrow> string \<Rightarrow> model_entry \<Rightarrow> reg_file \<Rightarrow> reg_file" where
  \<comment> \<open>version, organisation and status of the given entry are overwritten\<close>
  "record_candidate ok org version e f =
     (let d = load_doc f; sl = slot_of org d;
          e = e\<lparr>me_version := version, me_org_id := org_key org, me_status := ''candidate''\<rparr>
      in save_doc ok (put_slot org (sl\<lparr>sl_history := last_n 20 (sl_history sl @ [e])\<rparr>) d) f)"

definition org_current :: "string option \<Rightarrow> reg_file \<Rightarrow> model_entry option" where
  "org_current org f = sl_current (slot_of org (load_doc f))"

definition org_history :: "string option \<Rightarrow> nat \<Rightarrow> reg_file \<Rightarrow> model_entry list" where
  "org_history org n f = last_n n (sl_history (slot_of org (load_doc f)))"

fun index_of :: "('a \<Rightarrow> bool) \<Rightarrow> 'a list \<Rightarrow> nat option" where
  "index_of P [] = None"
| "index_of P (x # xs) = (if P x then Some 0 else map_option Suc (index_of P xs))"

definition activate :: "bool \<Rightarrow> string option \<Rightarrow> nat \<Rightarrow> string \<Rightarrow> reg_file \<Rightarrow> model_entry option \<times> reg_file" where
  \<comment> \<open>the entry at a position becomes the current one; the document was read from JSON, so the current entry and
     its copy in the history are different objects, and marking the former \<open>superseded\<close> is lost when it is
     replaced\<close>
  "activate ok org i reason f =
     (let d = load_doc f; sl = slot_of org d;
          e = (sl_history sl ! i)\<lparr>me_status := ''active'', me_promoted_reason := Some reason\<rparr>
      in (Some e, save_doc ok (put_slot org (sl\<lparr>sl_current := Some e, sl_history := (sl_history sl)[i := e]\<rparr>) d) f))"

definition promote_candidate :: "bool \<Rightarrow> string option \<Rightarrow> string \<Rightarrow> string \<Rightarrow> reg_file \<Rightarrow> model_entry option \<times> reg_file" where
  "promote_candidate ok org version reason f =
     (case index_of (\<lambda>e. me_version e = version \<and> me_status e = ''candidate'') (sl_history (slot_of org (load_doc f))) of
        None \<Rightarrow> (None, f)
      | Some i \<Rightarrow> activate ok org i reason f)"

definition rollback_org :: "bool \<Rightarrow> string option \<Rightarrow> reg_file \<Rightarrow> model_entry option \<times> reg_file" where
  \<comment> \<open>the newest entry of another version\<close>
  "rollback_org ok org f =
     (let h = sl_history (slot_of org (load_doc f)); cur = map_option me_version (org_current org f)
      in case index_of (\<lambda>e. me_status e \<in> {''active'', ''candidate'', ''superseded''} \<and> Some (me_version e) \<noteq> cur) (rev h) of
           None \<Rightarrow> (None, f)
         | Some i \<Rightarrow> activate ok org (length h - 1 - i) ''rollback'' f)"

section \<open>Labels\<close>

record labelled =
  lb_session_id :: string
  lb_y :: bool
  lb_five_tuple :: string
  lb_created_at :: "time option"
  lb_findings :: "finding_row list"
  lb_cipher :: "string option"

definition label_of :: "string list \<Rightarrow> bool option" where
  \<comment> \<open>\<open>None\<close>: only accepted risks, excluded\<close>
  "label_of vs = (if ''confirmed'' \<in> set vs then Some True else if ''false_positive'' \<in> set vs then Some False else None)"

definition build_analyst_dataset :: "string option \<Rightarrow> org_tables \<Rightarrow> labelled list" where
  "build_analyst_dataset org st =
     (let mine = (\<lambda>v. org \<in> {None, Some ''''} \<or> org = v);
          fbs = filter (\<lambda>f. mine (Some (fb_org_id f)) \<and> fb_session_id f \<noteq> '''') (map snd (ot_feedback st))
      in List.map_filter (\<lambda>(sid, fs).
           case dget (ot_sessions st) sid of
             None \<Rightarrow> None
           | Some s \<Rightarrow>
               if \<not> mine (as_org_id s) then None
               else map_option (\<lambda>y. \<lparr>lb_session_id = sid, lb_y = y, lb_five_tuple = as_five_tuple s,
                      lb_created_at = as_created_at s,
                      lb_findings = filter (\<lambda>r. fr_session_id r = sid) (map snd (ot_findings st)),
                      lb_cipher = as_cipher s\<rparr>) (label_of (map fb_verdict fs)))
         (group_items fb_session_id fbs))"

definition check_threshold :: "int \<Rightarrow> labelled list \<Rightarrow> string option" where
  \<comment> \<open>\<open>None\<close> when there are enough labels of both classes\<close>
  "check_threshold minimum es =
     (let need = nat (max 1 minimum); pos = length (filter lb_y es); neg = length (filter (\<lambda>e. \<not> lb_y e) es)
      in if pos < need \<or> neg < need
         then Some (''below threshold: need >='' @ dec_of need @ ''/class, have pos='' @ dec_of pos @
                    '' neg='' @ dec_of neg @ '' (ranking-only mode)'')
         else None)"

definition server_key :: "string \<Rightarrow> string" where
  "server_key ft = (case split_five_tuple ft of (client, cport, server, sport) \<Rightarrow> server @ '':'' @ dec_int sport)"

definition grouped_entries :: "labelled list \<Rightarrow> pyerr + labelled list \<times> labelled list" where
  \<comment> \<open>the key of a group without any time is the number 0, which does not compare with a date\<close>
  "grouped_entries es =
     (let timed = map (\<lambda>(g, ms). list_ex (\<lambda>e. lb_created_at e \<noteq> None) ms) (group_items (\<lambda>e. server_key (lb_five_tuple e)) es)
      in if True \<in> set timed \<and> False \<in> set timed then Inl (RuntimeError [''TypeError''])
         else Inr (grouped_time_split (\<lambda>e. server_key (lb_five_tuple e)) lb_created_at (1 / 5) 1 es))"

section \<open>Metrics\<close>

record sklearn =
  sk_precision :: "bool list \<Rightarrow> bool list \<Rightarrow> real"
  sk_recall :: "bool list \<Rightarrow> bool list \<Rightarrow> real"
  sk_f1 :: "bool list \<Rightarrow> bool list \<Rightarrow> real"
  sk_auc :: "bool list \<Rightarrow> real list \<Rightarrow> real option"

definition py_round :: "real \<Rightarrow> int" where
  \<comment> \<open>half to even\<close>
  "py_round x = (let n = \<lfloor>x\<rfloor>; d = x - of_int n in if d < 1 / 2 then n else if 1 / 2 < d then n + 1 else if even n then n else n + 1)"

definition round4 :: "real \<Rightarrow> real" where
  "round4 x = of_int (py_round (x * 10000)) / 10000"

definition score_threshold :: real where "score_threshold = 50"

definition metrics_dict :: "sklearn \<Rightarrow> bool list \<Rightarrow> real list \<Rightarrow> metrics" where
  "metrics_dict sk ys scores =
     (let ps = map (\<lambda>s. score_threshold \<le> s) scores; neg = length (filter Not ys)
      in \<lparr>mt_n = length ys, mt_positives = length (filter id ys),
          mt_precision = round4 (sk_precision sk ys ps), mt_recall = round4 (sk_recall sk ys ps), mt_f1 = round4 (sk_f1 sk ys ps),
          mt_auc = (if True \<in> set ys \<and> False \<in> set ys then map_option round4 (sk_auc sk ys scores) else None),
          mt_fp_rate = (if neg = 0 then None
                        else Some (round4 (real (length (filter (\<lambda>(y, p). \<not> y \<and> p) (zip ys ps))) / real neg)))\<rparr>)"

section \<open>Training a candidate\<close>

record train_env =
  te_write :: bool
  te_now :: nat
  te_fit :: "labelled list \<Rightarrow> labelled list \<Rightarrow> real list"
  te_artifact :: string
  te_min_labels :: int
  te_opt_in :: "string list"

definition dataset_hash :: "labelled list \<Rightarrow> string" where
  \<comment> \<open>\<open>repr\<close> of the sorted triples; session ids have no quotes\<close>
  "dataset_hash es =
     take 16 (sha256_hex (ascii (''['' @ join '', ''
       (map (\<lambda>(i, y). ''('' @ quoted i @ '', '' @ (if y then ''1'' else ''0'') @ '', '' @ quoted ''analyst'' @ '')'')
         (rev (by_id_desc (map (\<lambda>e. (lb_session_id e, lb_y e)) es)))) @ '']'')))"

datatype train_result = Train_Rejected string | Candidate model_entry

definition training_entries :: "train_env \<Rightarrow> string option \<Rightarrow> bool \<Rightarrow> org_tables \<Rightarrow> string + labelled list" where
  "training_entries te org pooled st =
     (if pooled then
        (if org \<notin> Some ` (set (te_opt_in te) - {''''}) then Inl ''global training requires explicit org opt-in''
         else Inr (concat (map (\<lambda>i. build_analyst_dataset (Some i) st)
                (rev (map fst (by_id_desc (map (\<lambda>i. (i, ())) (remdups (te_opt_in te)))))))))
      else Inr (build_analyst_dataset org st))"

definition blank_entry :: "nat \<Rightarrow> model_entry" where
  "blank_entry n = \<lparr>me_version = '''', me_org_id = '''', me_status = ''rejected'', me_promoted_reason = None, me_reason = None,
     me_dataset_size = n, me_metrics = None, me_artifact = None\<rparr>"

definition train_candidate ::
  "sklearn \<Rightarrow> train_env \<Rightarrow> string option \<Rightarrow> bool \<Rightarrow> org_tables \<Rightarrow> reg_file \<Rightarrow> (pyerr + train_result) \<times> reg_file" where
  "train_candidate sk te org pooled st f =
     (case training_entries te org pooled st of
        Inl reason \<Rightarrow> (Inr (Train_Rejected reason), f)
      | Inr es \<Rightarrow>
          (case check_threshold (te_min_labels te) es of
             Some reason \<Rightarrow>
               (Inr (Train_Rejected reason),
                record_candidate (te_write te) org (''rejected-'' @ dec_of (te_now te))
                  ((blank_entry (length es))\<lparr>me_reason := Some reason\<rparr>) f)
           | None \<Rightarrow>
               (case grouped_entries es of
                  Inl e \<Rightarrow> (Inl e, f)
                | Inr (train, test) \<Rightarrow>
                    if train = [] \<or> test = [] then (Inr (Train_Rejected ''split produced an empty side''), f)
                    else (let e = (blank_entry (length es))\<lparr>me_status := ''candidate'',
                                    me_metrics := Some (metrics_dict sk (map lb_y test) (te_fit te train test)),
                                    me_artifact := Some (te_artifact te)\<rparr>;
                              version = ''analyst-'' @ dec_of (length es) @ ''-'' @ dataset_hash es
                          in (Inr (Candidate (e\<lparr>me_version := version\<rparr>)), record_candidate (te_write te) org version e f)))))"

section \<open>Promotion\<close>

definition f1_of :: "metrics option \<Rightarrow> real" where
  "f1_of m = (case m of None \<Rightarrow> 0 | Some m \<Rightarrow> mt_f1 m)"

definition promotion_gate :: "real \<Rightarrow> model_entry \<Rightarrow> metrics option \<Rightarrow> bool" where
  \<comment> \<open>the verdict; its reason is prose\<close>
  "promotion_gate margin cand now_metrics =
     (case now_metrics of
        None \<Rightarrow> True
      | Some m \<Rightarrow>
          if f1_of (me_metrics cand) < mt_f1 m + margin then False
          else (case (Option.bind (me_metrics cand) mt_fp_rate, mt_fp_rate m) of
                  (Some a, Some b) \<Rightarrow> \<not> b < a
                | _ \<Rightarrow> True))"

definition current_metrics_for :: "string option \<Rightarrow> reg_file \<Rightarrow> metrics option" where
  "current_metrics_for org f = Option.bind (org_current (Some (org_key org)) f) me_metrics"

datatype ml_reply = Trained train_result | Promoted "model_entry option" | Promotion_Rejected | Rolled_Back model_entry

type_synonym ml_outcome = "(http_error + ml_reply) \<times> reg_file \<times> org_tables"

definition trained_version :: "train_result \<Rightarrow> string" where
  "trained_version r = (case r of Train_Rejected reason \<Rightarrow> '''' | Candidate e \<Rightarrow> me_version e)"

definition ml_retrain :: "sklearn \<Rightarrow> train_env \<Rightarrow> env \<Rightarrow> auth_ctx \<Rightarrow> reg_file \<Rightarrow> org_tables \<Rightarrow> ml_outcome" where
  "ml_retrain sk te en ctx f st =
     (case require_roles [ADMIN] ctx of
        Inl err \<Rightarrow> (Inl err, f, st)
      | Inr _ \<Rightarrow>
          (case train_candidate sk te (Some (c_org_id ctx)) False st f of
             (Inl e, f) \<Rightarrow> (Inl (Uncaught e), f, st)
           | (Inr r, f) \<Rightarrow> (Inr (Trained r), f, row_audit en ctx ''ml.retrain'' (trained_version r) st)))"

definition ml_promote ::
  "bool \<Rightarrow> real \<Rightarrow> string \<Rightarrow> claims \<Rightarrow> env \<Rightarrow> auth_ctx \<Rightarrow> reg_file \<Rightarrow> org_tables \<Rightarrow> ml_outcome" where
  "ml_promote ok margin reason body en ctx f st =
     (case bindR (require_roles [ADMIN] ctx) (\<lambda>_. stripped_or body ''version'' '''') of
        Inl err \<Rightarrow> (Inl err, f, st)
      | Inr version \<Rightarrow>
          let org = Some (c_org_id ctx)
          in if version = '''' then (Inl (HTTPException 400 ''version is required''), f, st)
             else (case find (\<lambda>e. me_version e = version) (rev (org_history org 20 f)) of
                     None \<Rightarrow> (Inl (HTTPException 404 ''Candidate not found''), f, st)
                   | Some cand \<Rightarrow>
                       if me_status cand \<noteq> ''candidate'' then (Inl (HTTPException 404 ''Candidate not found''), f, st)
                       else if \<not> promotion_gate margin cand (current_metrics_for org f)
                       then (Inr Promotion_Rejected, f, row_audit en ctx ''ml.promote.rejected'' version st)
                       else (let (e, f) = promote_candidate ok org version reason f
                             in (Inr (Promoted e), f, row_audit en ctx ''ml.promote'' version st))))"

definition ml_rollback :: "bool \<Rightarrow> env \<Rightarrow> auth_ctx \<Rightarrow> reg_file \<Rightarrow> org_tables \<Rightarrow> ml_outcome" where
  "ml_rollback ok en ctx f st =
     (case require_roles [ADMIN] ctx of
        Inl err \<Rightarrow> (Inl err, f, st)
      | Inr _ \<Rightarrow>
          (case rollback_org ok (Some (c_org_id ctx)) f of
             (None, f) \<Rightarrow> (Inl (HTTPException 404 ''No prior version to restore''), f, st)
           | (Some e, f) \<Rightarrow> (Inr (Rolled_Back e), f, row_audit en ctx ''ml.rollback'' (me_version e) st)))"

definition ml_status :: "int \<Rightarrow> auth_ctx \<Rightarrow> org_tables \<Rightarrow> reg_file \<Rightarrow> http_error + (bool \<times> nat \<times> model_entry option)" where
  \<comment> \<open>whether the mode is \<open>active\<close>, the number of labels and the current entry\<close>
  "ml_status minimum ctx st f =
     bindR (require_roles [ANALYST] ctx)
       (\<lambda>_. let es = build_analyst_dataset (Some (c_org_id ctx)) st; cur = org_current (Some (c_org_id ctx)) f
            in Inr (check_threshold minimum es = None \<and> cur \<noteq> None, length es, cur))"

section \<open>The registry over any sequence of requests\<close>

datatype ml_cmd =
    Retrain train_env | Promote bool real string claims | Rollback bool | Score_Training bool nat "string list"

definition ml_step :: "sklearn \<Rightarrow> env \<times> auth_ctx \<times> ml_cmd \<Rightarrow> reg_file \<times> org_tables \<Rightarrow> reg_file \<times> org_tables" where
  \<comment> \<open>\<open>Score_Training\<close> is the training of the default scorer, which every analysis job runs\<close>
  "ml_step sk rq s =
     (case rq of (en, ctx, cmd) \<Rightarrow>
        (case cmd of
           Retrain te \<Rightarrow> snd (ml_retrain sk te en ctx (fst s) (snd s))
         | Promote ok margin reason body \<Rightarrow> snd (ml_promote ok margin reason body en ctx (fst s) (snd s))
         | Rollback ok \<Rightarrow> snd (ml_rollback ok en ctx (fst s) (snd s))
         | Score_Training ok n names \<Rightarrow> (snd (record_training ok n names (fst s)), snd s)))"

definition entries_of :: "slot \<Rightarrow> model_entry list" where
  "entries_of sl = sl_history sl @ (case sl_current sl of None \<Rightarrow> [] | Some e \<Rightarrow> [e])"

definition reg_inv :: "(model_entry \<Rightarrow> bool) \<Rightarrow> reg_file \<Rightarrow> bool" where
  \<comment> \<open>short histories, and a property of all entries\<close>
  "reg_inv P f \<longleftrightarrow>
     (\<forall>(o', sl) \<in> set (rg_orgs (load_doc f)). length (sl_history sl) \<le> 20 \<and> list_all P (entries_of sl)) \<and>
     (case rg_training (load_doc f) of None \<Rightarrow> True | Some (c, h) \<Rightarrow> length h \<le> 20)"

definition activating :: "(model_entry \<Rightarrow> bool) \<Rightarrow> bool" where
  "activating P \<longleftrightarrow> (\<forall>e reason. P e \<longrightarrow> P (e\<lparr>me_status := ''active'', me_promoted_reason := Some reason\<rparr>))"

lemma length_last_n: "1 \<le> n \<Longrightarrow> length (last_n n xs) \<le> n"
  by (simp add: last_n_def)

lemma set_last_n: "set (last_n n xs) \<subseteq> set xs"
  by (auto simp: last_n_def dest: in_set_dropD)

lemma load_save: "load_doc (save_doc ok d f) = (if ok then d else load_doc f)"
  by (simp add: save_doc_def load_doc_def)

lemma reg_inv_slot:
  assumes "reg_inv P f"
  shows "length (sl_history (slot_of org (load_doc f))) \<le> 20 \<and> list_all P (entries_of (slot_of org (load_doc f)))"
proof (cases "dget (rg_orgs (load_doc f)) (org_key org)")
  case None
  then show ?thesis by (simp add: slot_of_def dget_or_def entries_of_def)
next
  case (Some sl)
  then have "(org_key org, sl) \<in> set (rg_orgs (load_doc f))" by (rule map_of_SomeD)
  with assms Some show ?thesis by (auto simp: reg_inv_def slot_of_def dget_or_def)
qed

lemma reg_inv_put:
  assumes "reg_inv P f" "length (sl_history sl) \<le> 20" "list_all P (entries_of sl)"
  shows "reg_inv P (save_doc ok (put_slot org sl (load_doc f)) f)"
  using assms by (auto simp: reg_inv_def load_save put_slot_def dest!: set_dset)

lemma index_of_Some: "index_of Q xs = Some i \<Longrightarrow> i < length xs \<and> Q (xs ! i)"
  by (induction xs arbitrary: i) (auto split: if_splits)

lemma activate_inv:
  assumes "reg_inv P f" "activating P" "i < length (sl_history (slot_of org (load_doc f)))"
  shows "reg_inv P (snd (activate ok org i reason f))"
proof -
  let ?sl = "slot_of org (load_doc f)"
  let ?e = "(sl_history ?sl ! i)\<lparr>me_status := ''active'', me_promoted_reason := Some reason\<rparr>"
  from reg_inv_slot [OF assms(1), of org] have h: "length (sl_history ?sl) \<le> 20" "list_all P (sl_history ?sl)"
    by (auto simp: entries_of_def)
  then have "P ?e" using assms(2,3) by (simp add: activating_def list_all_iff)
  moreover have "list_all P ((sl_history ?sl)[i := ?e])"
    using h(2) \<open>P ?e\<close> set_update_subset_insert by (fastforce simp: list_all_iff)
  ultimately show ?thesis
    using assms(1) h(1) by (auto simp: activate_def Let_def entries_of_def intro!: reg_inv_put)
qed

lemma promote_inv: "reg_inv P f \<Longrightarrow> activating P \<Longrightarrow> reg_inv P (snd (promote_candidate ok org version reason f))"
  by (auto simp: promote_candidate_def dest: index_of_Some intro: activate_inv split: option.split)

lemma rollback_inv: "reg_inv P f \<Longrightarrow> activating P \<Longrightarrow> reg_inv P (snd (rollback_org ok org f))"
  by (auto simp: rollback_org_def Let_def dest!: index_of_Some intro!: activate_inv split: option.split)

lemma record_candidate_inv:
  assumes "reg_inv P f" "P (e\<lparr>me_version := v, me_org_id := org_key org, me_status := ''candidate''\<rparr>)"
  shows "reg_inv P (record_candidate ok org v e f)"
proof -
  let ?sl = "slot_of org (load_doc f)"
  let ?e = "e\<lparr>me_version := v, me_org_id := org_key org, me_status := ''candidate''\<rparr>"
  from reg_inv_slot [OF assms(1), of org] have "list_all P (sl_history ?sl @ [?e])" "list_all P (entries_of ?sl)"
    using assms(2) by (auto simp: entries_of_def)
  then have "list_all P (entries_of (?sl\<lparr>sl_history := last_n 20 (sl_history ?sl @ [?e])\<rparr>))"
    using set_last_n [of 20 "sl_history ?sl @ [?e]"] by (auto simp: entries_of_def list_all_iff)
  with assms(1) show ?thesis
    using length_last_n [of 20] by (auto simp: record_candidate_def Let_def intro!: reg_inv_put)
qed

lemma record_training_inv: "reg_inv P (snd (record_training ok n names f)) \<or> \<not> reg_inv P f"
  using length_last_n [of 20] by (auto simp: record_training_def Let_def reg_inv_def load_save)

definition trained_entry :: "sklearn \<Rightarrow> train_env \<Rightarrow> model_entry \<Rightarrow> bool" where
  \<comment> \<open>a candidate that was fitted, or one of a run without enough labels\<close>
  "trained_entry sk te e \<longleftrightarrow> me_status e = ''candidate'' \<and>
     (me_metrics e = None \<and> me_artifact e = None \<or>
      (\<exists>train test. me_metrics e = Some (metrics_dict sk (map lb_y test) (te_fit te train test))))"

lemma train_inv:
  assumes "reg_inv P f" "\<And>e. trained_entry sk te e \<Longrightarrow> P e"
  shows "reg_inv P (snd (train_candidate sk te org pooled st f))"
proof -
  have "P ((blank_entry n)\<lparr>me_reason := a, me_version := v, me_org_id := b, me_status := ''candidate''\<rparr>)" for n a v b
    by (rule assms(2)) (simp add: trained_entry_def blank_entry_def)
  moreover have "P ((blank_entry n)\<lparr>me_metrics := Some (metrics_dict sk (map lb_y test) (te_fit te train test)),
      me_artifact := b, me_version := v, me_org_id := c, me_status := ''candidate''\<rparr>)" for n test train b c v
    by (rule assms(2)) (auto simp: trained_entry_def blank_entry_def)
  ultimately show ?thesis
    using assms(1)
    by (auto simp: train_candidate_def Let_def intro!: record_candidate_inv split: sum.split option.split prod.split)
qed

lemma ml_step_inv:
  assumes "reg_inv P (fst s)" "activating P" "\<And>te e. cmd = Retrain te \<Longrightarrow> trained_entry sk te e \<Longrightarrow> P e"
  shows "reg_inv P (fst (ml_step sk (en, ctx, cmd) s))"
proof (cases cmd)
  case (Retrain te)
  with assms(1,3) have "reg_inv P (snd (train_candidate sk te (Some (c_org_id ctx)) False (snd s) (fst s)))"
    by (intro train_inv) auto
  with assms(1) Retrain show ?thesis
    by (auto simp: ml_step_def ml_retrain_def split: sum.split prod.split)
next
  case (Promote ok margin reason body)
  with assms(1,2) show ?thesis
    by (auto simp: ml_step_def ml_promote_def Let_def case_prod_beta intro!: promote_inv split: sum.split option.split)
next
  case (Rollback ok)
  with assms(1) rollback_inv [OF assms(1,2), of ok "Some (c_org_id ctx)"] show ?thesis
    by (auto simp: ml_step_def ml_rollback_def split: sum.split option.split prod.split)
next
  case (Score_Training ok n names)
  with assms(1) record_training_inv [of P ok n names "fst s"] show ?thesis by (simp add: ml_step_def)
qed

lemma ml_run_inv:
  assumes "reg_inv P (fst s)" "activating P" "\<And>en ctx te e. (en, ctx, Retrain te) \<in> set rqs \<Longrightarrow> trained_entry sk te e \<Longrightarrow> P e"
  shows "reg_inv P (fst (fold (ml_step sk) rqs s))"
  using assms
proof (induction rqs arbitrary: s)
  case (Cons rq rqs)
  obtain en ctx cmd where rq: "rq = (en, ctx, cmd)" by (cases rq)
  have "reg_inv P (fst (ml_step sk rq s))"
    unfolding rq using Cons.prems by (intro ml_step_inv) (auto simp: rq)
  then have "reg_inv P (fst (fold (ml_step sk) rqs (ml_step sk rq s)))"
    using Cons.prems by (intro Cons.IH) auto
  then show ?case by simp
qed simp

lemma reg_inv_missing: "reg_inv P None"
  by (simp add: reg_inv_def load_doc_def empty_doc_def)

definition entry_status_ok :: "model_entry \<Rightarrow> bool" where
  "entry_status_ok e \<longleftrightarrow> me_status e \<in> {''candidate'', ''active''}"

text \<open>Over any sequence of trainings, retrainings, promotions and rollbacks by any callers, every history holds at
  most twenty entries, and no entry is ever marked as superseded or rejected: each is a candidate or active.\<close>

theorem registry_bounded:
  "reg_inv entry_status_ok (fst (fold (ml_step sk) rqs (None, st)))"
proof (rule ml_run_inv)
  show "reg_inv entry_status_ok (fst (None, st))" by (simp add: reg_inv_missing)
qed (auto simp: activating_def entry_status_ok_def trained_entry_def)

section \<open>The gate\<close>

definition f1_law :: "sklearn \<Rightarrow> bool" where
  \<comment> \<open>\<open>zero_division=0\<close>: without a positive prediction the score is 0\<close>
  "f1_law sk \<longleftrightarrow> (\<forall>ys ps. True \<notin> set ps \<longrightarrow> sk_f1 sk ys ps = 0)"

definition probabilities :: "train_env \<Rightarrow> bool" where
  "probabilities te \<longleftrightarrow> (\<forall>train test. list_all (\<lambda>p. 0 \<le> p \<and> p \<le> 1) (te_fit te train test))"

definition f1_zero :: "model_entry \<Rightarrow> bool" where
  "f1_zero e \<longleftrightarrow> f1_of (me_metrics e) = 0"

lemma f1_of_probabilities:
  assumes "f1_law sk" "probabilities te"
  shows "mt_f1 (metrics_dict sk ys (te_fit te train test)) = 0"
proof -
  have "True \<notin> set (map (\<lambda>s. score_threshold \<le> s) (te_fit te train test))"
    using assms(2) by (force simp: probabilities_def list_all_iff score_threshold_def)
  with assms(1) have "sk_f1 sk ys (map (\<lambda>s. score_threshold \<le> s) (te_fit te train test)) = 0"
    unfolding f1_law_def by blast
  then show ?thesis by (simp add: metrics_dict_def Let_def round4_def py_round_def)
qed

lemma org_key_Some [simp]: "org_current (Some (org_key org)) f = org_current org f"
  by (auto simp: org_current_def slot_of_def org_key_def or_text_def split: option.split)

lemma find_in: "find Q xs = Some x \<Longrightarrow> x \<in> set xs"
  by (auto simp: find_Some_iff)

lemma promote_rejects:
  assumes "reg_inv f1_zero f" "org_current (Some (c_org_id ctx)) f = Some e" "me_metrics e \<noteq> None" "0 < margin"
  shows "fst (snd (ml_promote ok margin reason body en ctx f st)) = f"
proof -
  let ?org = "Some (c_org_id ctx)"
  have all: "list_all f1_zero (entries_of (slot_of ?org (load_doc f)))"
    using reg_inv_slot [OF assms(1), of ?org] by simp
  have "f1_zero e" using all assms(2) by (auto simp: entries_of_def org_current_def)
  then obtain m where m: "me_metrics e = Some m" "mt_f1 m = 0"
    using assms(3) by (auto simp: f1_zero_def f1_of_def)
  have "\<not> promotion_gate margin c (current_metrics_for ?org f)" if "c \<in> set (org_history ?org 20 f)" for c
  proof -
    have "f1_zero c"
      using that all set_last_n [of 20 "sl_history (slot_of ?org (load_doc f))"]
      by (auto simp: org_history_def entries_of_def list_all_iff)
    moreover have "current_metrics_for ?org f = Some m"
      by (simp add: current_metrics_for_def assms(2) m(1))
    ultimately show ?thesis using m(2) assms(4) by (simp add: promotion_gate_def f1_zero_def)
  qed
  then show ?thesis
    by (auto simp: ml_promote_def Let_def dest!: find_in split: sum.split option.split)
qed

text \<open>C32: The gate never lets a second model pass: the scores of a candidate are probabilities, the threshold that turns
  them into verdicts is 50, so every F1 is 0 and none exceeds another by the margin. Once the current model of an
  organisation has metrics, no promotion changes the registry, after any sequence of requests.\<close>

theorem second_model_never_promoted:
  assumes "f1_law sk" "\<And>en ctx te. (en, ctx, Retrain te) \<in> set rqs \<Longrightarrow> probabilities te" "0 < margin"
    and "fold (ml_step sk) rqs (None, st) = (f, st')"
    and "org_current (Some (c_org_id ctx)) f = Some e" "me_metrics e \<noteq> None"
  shows "fst (snd (ml_promote ok margin reason body en ctx f st'')) = f"
proof (rule promote_rejects [OF _ assms(5,6,3)])
  have "reg_inv f1_zero (fst (fold (ml_step sk) rqs (None, st)))"
  proof (rule ml_run_inv)
    show "f1_zero e" if "(en, ctx, Retrain te) \<in> set rqs" "trained_entry sk te e" for en ctx te e
      using that(2) f1_of_probabilities [OF assms(1) assms(2) [OF that(1)]]
      by (auto simp: trained_entry_def f1_zero_def f1_of_def)
  qed (auto simp: reg_inv_missing activating_def f1_zero_def)
  then show "reg_inv f1_zero f" by (simp add: assms(4))
qed

section \<open>What becomes active\<close>

lemma index_of_last:
  "\<not> list_ex Q xs \<Longrightarrow> Q x \<Longrightarrow> index_of Q (xs @ [x]) = Some (length xs)"
  by (induction xs) auto

lemma rejected_run_recorded:
  assumes "check_threshold (te_min_labels te) (build_analyst_dataset org st) = Some reason" "te_write te"
    and "length (sl_history (slot_of org (load_doc f))) < 20"
  shows "train_candidate sk te org False st f =
     (Inr (Train_Rejected reason),
      Some (put_slot org ((slot_of org (load_doc f))\<lparr>sl_history := sl_history (slot_of org (load_doc f)) @
        [(blank_entry (length (build_analyst_dataset org st)))\<lparr>me_reason := Some reason, me_version := ''rejected-'' @ dec_of (te_now te),
           me_org_id := org_key org, me_status := ''candidate''\<rparr>]\<rparr>) (load_doc f)))"
  using assms by (simp add: train_candidate_def training_entries_def record_candidate_def Let_def save_doc_def last_n_def)

lemma slot_of_put [simp]: "slot_of org (put_slot org sl d) = sl"
  by (simp add: slot_of_def put_slot_def dget_or_def)

lemma slot_of_save [simp]: "slot_of org (load_doc (Some (put_slot org sl d))) = sl"
  by (simp add: load_doc_def)

lemma first_promotion:
  assumes "c_role ctx = ADMIN" "stripped_or body ''version'' '''' = Inr v" "v \<noteq> ''''"
    and "slot_of (Some (c_org_id ctx)) (load_doc f) = \<lparr>sl_current = None, sl_history = [e]\<rparr>"
    and "me_version e = v" "me_status e = ''candidate''"
  shows "fst (ml_promote True margin why body en ctx f st) = Inr (Promoted (Some (e\<lparr>me_status := ''active'', me_promoted_reason := Some why\<rparr>))) \<and>
    org_current (Some (c_org_id ctx)) (fst (snd (ml_promote True margin why body en ctx f st)))
      = Some (e\<lparr>me_status := ''active'', me_promoted_reason := Some why\<rparr>)"
proof -
  have "org_current (Some (c_org_id ctx)) f = None" by (simp add: org_current_def assms(4))
  then have "promotion_gate margin e (current_metrics_for (Some (c_org_id ctx)) f)"
    by (simp add: promotion_gate_def current_metrics_for_def)
  with assms show ?thesis
    by (simp add: ml_promote_def require_roles_def role_rank_def Let_def org_history_def last_n_def promote_candidate_def
        activate_def save_doc_def org_current_def case_prod_beta)
qed

text \<open>C33: A retraining run that was rejected for lack of labels is recorded as a candidate, and its promotion succeeds
  when the organisation has no model: the active model is then one that was never trained, without metrics and
  without a file.\<close>

theorem rejected_run_becomes_active:
  assumes "c_role ctx = ADMIN" "te_write te" "slot_of (Some (c_org_id ctx)) (load_doc f) = \<lparr>sl_current = None, sl_history = []\<rparr>"
    and "check_threshold (te_min_labels te) (build_analyst_dataset (Some (c_org_id ctx)) st) = Some reason"
    and "ml_retrain sk te en ctx f st = (r, f1, st1)"
    and "ml_promote True margin why [(''version'', JStr (''rejected-'' @ dec_of (te_now te)))] en ctx f1 st1 = (r2, f2, st2)"
  shows "r = Inr (Trained (Train_Rejected reason)) \<and>
    (\<exists>e. r2 = Inr (Promoted (Some e)) \<and> org_current (Some (c_org_id ctx)) f2 = Some e \<and> me_status e = ''active'' \<and>
       me_reason e = Some reason \<and> me_metrics e = None \<and> me_artifact e = None)"
proof -
  let ?org = "Some (c_org_id ctx)"
  have rr: "require_roles [ADMIN] ctx = Inr ctx" using assms(1) by (simp add: require_roles_def role_rank_def)
  note rec = rejected_run_recorded [OF assms(4,2), of f sk]
  have strip: "str_strip (''rejected-'' @ dec_of n) = ''rejected-'' @ dec_of n" for n
  proof -
    obtain c cs where c: "rev (dec_of n) = c # cs" by (metis dec_of_nonempty list.exhaust rev.simps(1) rev_rev_ident)
    then have "c \<in> set (dec_of n)" by (metis list.set_intros(1) set_rev)
    then have "\<not> is_space c" using dec_of_digits digit_not_space by blast
    with c show ?thesis by (simp add: str_strip_def is_space_def rev_swap)
  qed
  have body: "stripped_or [(''version'', JStr (''rejected-'' @ dec_of (te_now te)))] ''version'' '''' = Inr (''rejected-'' @ dec_of (te_now te))"
    using strip by (simp add: stripped_or_def get_val_def or_val_def)
  have f1: "r = Inr (Trained (Train_Rejected reason))"
    "f1 = Some (put_slot ?org \<lparr>sl_current = None, sl_history =
        [(blank_entry (length (build_analyst_dataset ?org st)))\<lparr>me_reason := Some reason, me_version := ''rejected-'' @ dec_of (te_now te),
           me_org_id := org_key ?org, me_status := ''candidate''\<rparr>]\<rparr> (load_doc f))"
    using assms(5) rec by (simp_all add: ml_retrain_def rr assms(3))
  define e where "e = (blank_entry (length (build_analyst_dataset ?org st)))\<lparr>me_reason := Some reason,
      me_version := ''rejected-'' @ dec_of (te_now te), me_org_id := org_key ?org, me_status := ''candidate''\<rparr>"
  have sl: "slot_of ?org (load_doc f1) = \<lparr>sl_current = None, sl_history = [e]\<rparr>" by (simp add: f1(2) e_def)
  have ne: "''rejected-'' @ dec_of (te_now te) \<noteq> ''''" by simp
  have ev: "me_version e = ''rejected-'' @ dec_of (te_now te)" "me_status e = ''candidate''" by (simp_all add: e_def)
  have "r2 = Inr (Promoted (Some (e\<lparr>me_status := ''active'', me_promoted_reason := Some why\<rparr>)))"
    "org_current ?org f2 = Some (e\<lparr>me_status := ''active'', me_promoted_reason := Some why\<rparr>)"
    using first_promotion [OF assms(1) body ne sl ev, of margin why en st1] unfolding assms(6) by simp_all
  with f1(1) show ?thesis by (simp add: e_def blank_entry_def)
qed

text \<open>Training the default scorer, which every analysis job of every organisation does, removes all promoted models and
  histories of all organisations from the registry.\<close>

theorem training_forgets_models:
  "org_current org (snd (record_training True n names f)) = None \<and> org_history org k (snd (record_training True n names f)) = [] \<and>
   current_version (snd (record_training True n names f)) = fst (record_training True n names f)"
  by (simp add: record_training_def Let_def org_current_def org_history_def slot_of_def load_save dget_or_def
      current_version_def last_n_def)

text \<open>A rollback restores the newest entry of another version, promoted or not: after a promotion and a retraining it
  activates the new candidate without asking the gate.\<close>

lemma rollback_activates_candidate:
  assumes "sl_current (slot_of org (load_doc f)) = Some cur" "sl_history (slot_of org (load_doc f)) = h @ [e]"
    and "me_status e = ''candidate''" "me_version e \<noteq> me_version cur"
  shows "org_current org (snd (rollback_org True org f)) =
    Some (e\<lparr>me_status := ''active'', me_promoted_reason := Some ''rollback''\<rparr>)"
proof -
  have "index_of (\<lambda>x. me_status x \<in> {''active'', ''candidate'', ''superseded''} \<and> Some (me_version x) \<noteq> Some (me_version cur)) (rev (h @ [e])) = Some 0"
    using assms(3,4) by simp
  with assms(1,2) show ?thesis
    by (simp add: rollback_org_def org_current_def activate_def Let_def load_save nth_append)
qed

text \<open>One session without a time next to one with a time, on different servers, ends the retraining with a type error.\<close>

lemma undated_session_breaks_retraining:
  assumes "server_key (lb_five_tuple a) \<noteq> server_key (lb_five_tuple b)" "lb_created_at a = None" "lb_created_at b = Some t"
  shows "grouped_entries [a, b] = Inl (RuntimeError [''TypeError''])"
  using assms by (simp add: grouped_entries_def group_items_def dget_or_def Let_def)

section \<open>Instances\<close>

definition demo_sk :: sklearn where
  "demo_sk = \<lparr>sk_precision = (\<lambda>ys ps. 0), sk_recall = (\<lambda>ys ps. 0), sk_f1 = (\<lambda>ys ps. if True \<in> set ps then 1 else 0),
     sk_auc = (\<lambda>ys ss. None)\<rparr>"

definition demo_train :: train_env where
  "demo_train = \<lparr>te_write = True, te_now = 7, te_fit = (\<lambda>a b. map (\<lambda>e. 1 / 2) b), te_artifact = ''m.pkl'', te_min_labels = 1,
     te_opt_in = []\<rparr>"

definition demo_labelled :: "string \<Rightarrow> bool \<Rightarrow> string \<Rightarrow> time \<Rightarrow> labelled" where
  "demo_labelled i y ft t = \<lparr>lb_session_id = i, lb_y = y, lb_five_tuple = ft, lb_created_at = Some t, lb_findings = [], lb_cipher = None\<rparr>"

definition demo_label :: "string \<Rightarrow> string \<Rightarrow> feedback" where
  "demo_label i v = \<lparr>fb_org_id = ''o'', fb_finding_id = 0, fb_rule_id = ''r'', fb_session_id = i, fb_verdict = v, fb_comment = [],
     fb_created_by = [], fb_created_at = 0\<rparr>"

definition demo_stored :: "string \<Rightarrow> time \<Rightarrow> api_session" where
  "demo_stored ft t = \<lparr>as_org_id = Some ''o'', as_job_id = [], as_protocol = [], as_five_tuple = ft, as_cipher = None,
     as_risk_score = None, as_created_at = Some t\<rparr>"

definition demo_tables :: org_tables where
  "demo_tables = no_rows\<lparr>ot_sessions := [(''s'', demo_stored ''a:1->b:25'' 1), (''t'', demo_stored ''a:1->c:25'' 2)],
     ot_feedback := [(0, demo_label ''s'' ''confirmed''), (1, demo_label ''t'' ''false_positive'')]\<rparr>"

lemma demo_dataset:
  "build_analyst_dataset (Some ''o'') demo_tables = [demo_labelled ''s'' True ''a:1->b:25'' 1, demo_labelled ''t'' False ''a:1->c:25'' 2]"
  by (simp add: build_analyst_dataset_def demo_tables_def no_rows_def demo_label_def demo_stored_def demo_labelled_def
      group_items_def dget_or_def label_of_def map_filter_simps)

lemma demo_servers: "server_key ''a:1->b:25'' = ''b:25''" "server_key ''a:1->c:25'' = ''c:25''"
  by (code_simp, code_simp)

lemma demo_split:
  "grouped_entries [demo_labelled ''s'' True ''a:1->b:25'' 1, demo_labelled ''t'' False ''a:1->c:25'' 2] =
     Inr ([demo_labelled ''s'' True ''a:1->b:25'' 1], [demo_labelled ''t'' False ''a:1->c:25'' 2])"
  by (simp add: grouped_entries_def demo_labelled_def demo_servers group_items_def dget_or_def grouped_time_split_def
      ordered_groups_def group_time_def map_filter_simps test_size_def last_n_def Let_def)

definition demo_requests :: "(env \<times> auth_ctx \<times> ml_cmd) list" where
  "demo_requests = [(demo_row_env, demo_ctx ''o'' ADMIN, Retrain demo_train), (demo_row_env, demo_ctx ''o'' ADMIN, Rollback True)]"

lemma demo_current:
  "\<exists>e. org_current (Some ''o'') (fst (fold (ml_step demo_sk) demo_requests (None, demo_tables))) = Some e \<and> me_metrics e \<noteq> None"
proof -
  have t: "check_threshold (te_min_labels demo_train) (build_analyst_dataset (Some ''o'') demo_tables) = None"
    by (simp add: demo_dataset check_threshold_def demo_labelled_def demo_train_def)
  obtain v e where tr: "train_candidate demo_sk demo_train (Some ''o'') False demo_tables None =
      (Inr (Candidate (e\<lparr>me_version := v\<rparr>)), record_candidate True (Some ''o'') v e None)" "me_metrics e \<noteq> None"
    using t by (simp add: train_candidate_def training_entries_def demo_dataset demo_split Let_def demo_train_def)
  have o: "c_org_id (demo_ctx ''o'' ADMIN) = ''o''" "require_roles [ADMIN] (demo_ctx ''o'' ADMIN) = Inr (demo_ctx ''o'' ADMIN)"
    by (simp_all add: demo_ctx_def require_roles_def role_rank_def)
  show ?thesis
    using tr(2)
    by (simp add: demo_requests_def ml_step_def ml_retrain_def ml_rollback_def o tr(1) record_candidate_def Let_def save_doc_def
        load_doc_def empty_doc_def rollback_org_def org_current_def activate_def slot_of_def put_slot_def dget_or_def
        org_key_def or_text_def last_n_def)
qed

lemma second_model_never_promoted_witness:
  "fst (snd (ml_promote True (1 / 50) ''x'' [] demo_row_env (demo_ctx ''o'' ADMIN)
     (fst (fold (ml_step demo_sk) demo_requests (None, demo_tables))) demo_tables))
   = fst (fold (ml_step demo_sk) demo_requests (None, demo_tables))"
proof -
  have law: "f1_law demo_sk" by (simp add: f1_law_def demo_sk_def)
  have pr: "probabilities te" if "(en, ctx, Retrain te) \<in> set demo_requests" for en ctx te
    using that by (auto simp: demo_requests_def probabilities_def demo_train_def list_all_iff)
  obtain e where "org_current (Some (c_org_id (demo_ctx ''o'' ADMIN))) (fst (fold (ml_step demo_sk) demo_requests (None, demo_tables))) = Some e"
    "me_metrics e \<noteq> None"
    using demo_current by (auto simp: demo_ctx_def)
  from second_model_never_promoted [OF law pr _ prod.collapse [symmetric] this] show ?thesis by simp
qed

lemma rejected_run_becomes_active_witness:
  "\<exists>f1 st1 f2 st2 e. ml_retrain demo_sk demo_train demo_row_env (demo_ctx ''o'' ADMIN) None no_rows = (Inr (Trained (Train_Rejected
       ''below threshold: need >=1/class, have pos=0 neg=0 (ranking-only mode)'')), f1, st1) \<and>
     ml_promote True (1 / 50) ''x'' [(''version'', JStr (''rejected-'' @ dec_of 7))] demo_row_env (demo_ctx ''o'' ADMIN) f1 st1
       = (Inr (Promoted (Some e)), f2, st2) \<and> me_artifact e = None"
proof -
  obtain r f1 st1 where 1: "ml_retrain demo_sk demo_train demo_row_env (demo_ctx ''o'' ADMIN) None no_rows = (r, f1, st1)"
    by (metis prod_cases3)
  obtain r2 f2 st2 where 2: "ml_promote True (1 / 50) ''x'' [(''version'', JStr (''rejected-'' @ dec_of (te_now demo_train)))] demo_row_env
      (demo_ctx ''o'' ADMIN) f1 st1 = (r2, f2, st2)" by (metis prod_cases3)
  have dec: "dec_of (Suc 0) = ''1''" "dec_of 0 = ''0''" using cef_levels(1) by (simp, code_simp)
  have t: "check_threshold (te_min_labels demo_train) (build_analyst_dataset (Some (c_org_id (demo_ctx ''o'' ADMIN))) no_rows) =
      Some ''below threshold: need >=1/class, have pos=0 neg=0 (ranking-only mode)''"
    by (simp add: check_threshold_def build_analyst_dataset_def no_rows_def group_items_def demo_train_def dec map_filter_simps)
  have "slot_of (Some (c_org_id (demo_ctx ''o'' ADMIN))) (load_doc None) = \<lparr>sl_current = None, sl_history = []\<rparr>"
    by (simp add: slot_of_def load_doc_def empty_doc_def dget_or_def)
  from rejected_run_becomes_active [OF _ _ this t 1 2] 1 2 show ?thesis
    by (auto simp: demo_ctx_def demo_train_def)
qed

end
