(* ===== verification/Scoring.thy ===== *)
theory Scoring
  imports ML_Registry
begin

text \<open>
  Numeric features of an analysed session (src/backend/app/ml/features.py), the scorer around the fitted
  models (src/backend/app/ml/ml_engine.py), the drift report and the scorer that the live worker uses
  (src/backend/app/live/baseline.py, \<open>_scorer_for\<close> of src/backend/app/live/analyze.py). The fitted
  classifier, the isolation forest and the SHAP values are parameters: scikit-learn and shap compute them.
  Floating-point numbers are reals.
\<close>

section \<open>Features\<close>

definition rule_prefixes :: "string list" where
  "rule_prefixes =
     [''tls-version'', ''rc4'', ''export'', ''non-pfs'', ''non-aead'', ''self-signed'', ''untrusted'', ''expired'',
      ''weak-signature'', ''short-key'', ''starttls-strip'', ''plaintext-mail'', ''weak-cipher'', ''3des'',
      ''no-tls-on-implicit'', ''unknown-cipher'', ''no-pfs-suites'']"

definition version_score :: "nat option \<Rightarrow> real" where
  "version_score v =
     (if v = Some 0x0301 then 1 else if v = Some 0x0302 then 2 else if v = Some 0x0303 then 3
      else if v = Some 0x0304 then 4 else 0)"

definition cipher_features :: "cipher_meta option \<Rightarrow> (string \<times> real) list" where
  "cipher_features cm =
     (let get = (\<lambda>g :: cipher_meta \<Rightarrow> real. case cm of None \<Rightarrow> 0 | Some m \<Rightarrow> g m)
      in [(''cipher_strength'', get c_strength), (''key_length'', get (\<lambda>m. real (c_key_len m))),
          (''pfs'', get (\<lambda>m. of_bool (c_pfs m))),
          (''cipher_category_aead'', get (\<lambda>m. of_bool (c_kind m = ''aead''))),
          (''cipher_category_cbc'', get (\<lambda>m. of_bool (c_kind m = ''cbc''))),
          (''cipher_category_stream'', get (\<lambda>m. of_bool (c_kind m = ''stream''))),
          (''is_export'', get (\<lambda>m. of_bool (c_export_class m = Some ''export''))),
          (''is_null'', get (\<lambda>m. of_bool (c_export_class m = Some ''null''))),
          (''is_rc4'', get (\<lambda>m. of_bool (c_export_class m = Some ''rc4'')))])"

definition min_days :: "cert_analysis list \<Rightarrow> real" where
  \<comment> \<open>0 when no certificate has a number of days\<close>
  "min_days cs = (case List.map_filter ca_days_remaining cs of [] \<Rightarrow> 0 | d # ds \<Rightarrow> of_int (fold min ds d))"

definition max_bits :: "cert_analysis list \<Rightarrow> real" where
  "max_bits cs = real (fold max (map (\<lambda>c. case ca_pubkey_bits c of None \<Rightarrow> 0 | Some b \<Rightarrow> b) cs) 0)"

definition cert_features :: "int \<Rightarrow> cert_analysis list \<Rightarrow> (string \<times> real) list" where
  "cert_features now cs =
     [(''cert_min_days_remaining'', min_days cs), (''cert_max_key_bits'', max_bits cs),
      (''any_weak_signature'', of_bool (list_ex weak_signature cs)),
      (''any_short_key'', of_bool (list_ex short_key cs)),
      (''any_self_signed'', of_bool (list_ex ca_self_signed cs)),
      (''any_expired'', of_bool (list_ex (cert_expired now) cs))]"

definition capped_share :: "nat \<Rightarrow> real" where
  "capped_share n = min (real n / 65536) 1"

definition rule_features :: "finding list \<Rightarrow> (string \<times> real) list" where
  "rule_features fs =
     map (\<lambda>p. (''rule_'' @ p, of_bool (list_ex (\<lambda>f. starts_with p (f_rule_id f)) fs))) rule_prefixes
     @ [(''rule_other'', of_bool (list_ex (\<lambda>f. \<not> list_ex (\<lambda>p. starts_with p (f_rule_id f)) rule_prefixes) fs))]"

definition extract_features :: "int \<Rightarrow> session_analysis \<Rightarrow> (string \<times> real) list" where
  "extract_features now sa =
     (''tls_version_rank'', version_score (sa_tls_version sa)) # cipher_features (sa_cipher_meta sa)
     @ [(''chain_valid'', of_bool (sa_chain_result sa = ''ok'')), (''cert_count'', real (length (sa_certs sa)))]
     @ cert_features now (sa_certs sa)
     @ [(''is_starttls'', of_bool (sa_is_starttls sa)), (''has_starttls_offer'', of_bool (sa_saw_starttls sa)),
        (''started_tls'', of_bool (sa_started_tls sa)), (''tls_bytes'', capped_share (sa_tls_bytes sa)),
        (''plaintext_bytes'', capped_share (sa_plaintext_bytes sa)),
        (''finding_count'', real (length (sa_findings sa))),
        (''max_severity'', real (fold max (map (sev_rank \<circ> f_severity) (sa_findings sa)) 0))]
     @ rule_features (sa_findings sa)"

fun insort_text :: "string \<Rightarrow> string list \<Rightarrow> string list" where
  "insort_text x [] = [x]"
| "insort_text x (y # ys) = (if text_less y x then y # insort_text x ys else x # y # ys)"

definition sorted_texts :: "string list \<Rightarrow> string list" where
  "sorted_texts xs = foldr insort_text xs []"

definition plain_names :: "string list" where
  \<comment> \<open>the names of \<open>FEATURE_NAMES\<close> before sorting\<close>
  "plain_names =
     [''tls_version_rank'', ''cipher_strength'', ''key_length'', ''pfs'', ''cipher_category_aead'', ''cipher_category_cbc'',
       ''cipher_category_stream'', ''is_export'', ''is_null'', ''is_rc4'', ''chain_valid'', ''cert_count'',
       ''cert_min_days_remaining'', ''cert_max_key_bits'', ''any_weak_signature'', ''any_short_key'', ''any_self_signed'',
       ''any_expired'', ''is_starttls'', ''has_starttls_offer'', ''started_tls'', ''tls_bytes'', ''plaintext_bytes'',
       ''finding_count'', ''max_severity''] @ map (\<lambda>p. ''rule_'' @ p) rule_prefixes"

definition feature_names :: "string list" where
  \<comment> \<open>\<open>FEATURE_NAMES\<close>\<close>
  "feature_names = sorted_texts plain_names"

definition vector_of :: "string list \<Rightarrow> (string \<times> real) list \<Rightarrow> real list" where
  "vector_of names feats = map (\<lambda>n. dget_or feats n 0) names"

definition session_features_matrix :: "int \<Rightarrow> session_analysis list \<Rightarrow> real list list \<times> string list \<times> string list" where
  "session_features_matrix now sas =
     (case sas of
        [] \<Rightarrow> ([], [], [])
      | sa # _ \<Rightarrow>
          (let names = sorted_texts (map fst (extract_features now sa))
           in (map (\<lambda>sa. vector_of names (extract_features now sa)) sas, names, map sa_five_tuple sas)))"

subsection \<open>One schema for all sessions\<close>

lemma feature_keys: "map fst (extract_features now sa) = plain_names @ [''rule_other'']"
  by (simp add: extract_features_def cipher_features_def cert_features_def rule_features_def Let_def plain_names_def)

lemma mset_insort_text [simp]: "mset (insort_text x ys) = add_mset x (mset ys)"
  by (induction ys) auto

lemma mset_sorted_texts [simp]: "mset (sorted_texts xs) = mset xs"
  by (induction xs) (simp_all add: sorted_texts_def)

lemma sorted_texts_facts [simp]: "set (sorted_texts xs) = set xs" "length (sorted_texts xs) = length xs"
  "distinct (sorted_texts xs) = distinct xs"
  using mset_sorted_texts [of xs] by (metis set_mset_mset, metis size_mset, metis mset_eq_imp_distinct_iff)

lemma plain_names_distinct: "distinct (plain_names @ [''rule_other''])"
  by (simp add: plain_names_def rule_prefixes_def)

lemma plain_names_length: "length plain_names = 42"
  by (simp add: plain_names_def rule_prefixes_def)

text \<open>Whatever sessions a model is trained and used on, its columns are the same 43 names: the 42 documented ones and
  the catch-all. Every row has one entry per column, and the entry is the value of the feature that names the
  column.\<close>

theorem matrix_matches_schema:
  assumes "session_features_matrix now sas = (rows, names, ids)" "sas \<noteq> []"
  shows "set names = insert ''rule_other'' (set feature_names) \<and> distinct names \<and> length names = 43 \<and>
    length rows = length sas \<and> ids = map sa_five_tuple sas \<and>
    list_all2 (\<lambda>row sa. list_all2 (\<lambda>x n. dget (extract_features now sa) n = Some x) row names) rows sas"
proof -
  have names: "names = sorted_texts (plain_names @ [''rule_other''])"
    and rows: "rows = map (\<lambda>sa. vector_of names (extract_features now sa)) sas" "ids = map sa_five_tuple sas"
    using assms by (auto simp: session_features_matrix_def Let_def feature_keys split: list.splits)
  have got: "\<exists>x. dget (extract_features t sa) n = Some x" if "n \<in> set names" for t sa n
  proof -
    have "n \<in> fst ` set (extract_features t sa)"
      using that feature_keys [of t sa] unfolding names by (metis list.set_map sorted_texts_facts(1))
    then show ?thesis by (metis map_of_eq_None_iff not_None_eq)
  qed
  have "list_all2 (\<lambda>x n. dget (extract_features now sa) n = Some x)
      (vector_of names (extract_features now sa)) names" for sa
    using got [of _ now sa] by (fastforce simp: vector_of_def list.rel_map list_all2_same dget_or_def)
  then have "list_all2 (\<lambda>row sa. list_all2 (\<lambda>x n. dget (extract_features now sa) n = Some x) row names) rows sas"
    by (simp add: rows list.rel_map list_all2_same)
  moreover have "set names = insert ''rule_other'' (set feature_names)" by (auto simp: names feature_names_def)
  moreover have "distinct names" "length names = 43"
    using plain_names_distinct plain_names_length by (simp_all only: names sorted_texts_facts length_append) simp
  ultimately show ?thesis using rows by simp
qed

text \<open>The rule \<open>client-no-pfs-suites\<close> does not start with the prefix that was meant for it; it counts as another rule.\<close>

lemma no_pfs_suites_is_other:
  "map_of (rule_features [f]) ''rule_no-pfs-suites'' = Some 0" "map_of (rule_features [f]) ''rule_other'' = Some 1"
  if "f_rule_id f = ''client-no-pfs-suites''"
  using that by (simp_all add: rule_features_def rule_prefixes_def starts_with_def)

section \<open>The scorer\<close>

record risk_model =
  rk_trained :: bool
  rk_proba :: "(real list \<Rightarrow> real) option" \<comment> \<open>probability of the class at risk, of the calibrated or plain classifier\<close>

record scorer =
  so_risk :: risk_model
  so_forest :: "(real list \<Rightarrow> bool \<times> real) option"
  so_names :: "string list"
  so_trained :: bool
  so_version :: "string option"

record fitting =
  fi_risk :: "real list list \<Rightarrow> bool list \<Rightarrow> real list \<Rightarrow> real"
  fi_forest :: "real list list \<Rightarrow> real list \<Rightarrow> bool \<times> real"
  fi_shap :: "real list \<Rightarrow> real list"

definition new_scorer :: scorer where
  "new_scorer = \<lparr>so_risk = \<lparr>rk_trained = False, rk_proba = None\<rparr>, so_forest = None, so_names = feature_names,
     so_trained = False, so_version = None\<rparr>"

definition train_risk :: "fitting \<Rightarrow> real list list \<Rightarrow> bool list \<Rightarrow> risk_model \<Rightarrow> risk_model" where
  \<comment> \<open>fewer than four rows: the fallback, which fits no classifier\<close>
  "train_risk fi rows ys m =
     m\<lparr>rk_trained := True, rk_proba := (if length rows < 4 then rk_proba m else Some (fi_risk fi rows ys))\<rparr>"

definition at_risk :: "session_analysis \<Rightarrow> bool" where
  "at_risk sa \<longleftrightarrow> max_severity (sa_findings sa) \<in> {Some MEDIUM, Some HIGH, Some CRITICAL}"

definition train_scorer ::
  "fitting \<Rightarrow> int \<Rightarrow> bool \<Rightarrow> session_analysis list \<Rightarrow> scorer \<Rightarrow> reg_file \<Rightarrow> scorer \<times> reg_file" where
  "train_scorer fi now ok sas so f =
     (if sas = [] then (so, f)
      else (case session_features_matrix now sas of (rows, names, ids) \<Rightarrow>
              (let (version, f) = record_training ok (length sas) names f
               in (so\<lparr>so_names := names, so_version := Some version, so_risk := train_risk fi rows (map at_risk sas) (so_risk so),
                     so_forest := (if length rows < 5 then so_forest so else Some (fi_forest fi rows)), so_trained := True\<rparr>, f))))"

definition predict_risk :: "risk_model \<Rightarrow> real list \<Rightarrow> real \<times> bool" where
  \<comment> \<open>the probability, and whether the label is \<open>at-risk\<close>\<close>
  "predict_risk m x =
     (case (rk_trained m, rk_proba m) of
        (True, Some p) \<Rightarrow> (p x, 50 \<le> py_round (p x * 100))
      | _ \<Rightarrow> (0, False))"

definition contributions :: "fitting \<Rightarrow> risk_model \<Rightarrow> string list \<Rightarrow> real list \<Rightarrow> (string \<times> real \<times> real) list" where
  \<comment> \<open>\<open>compute_shap\<close>: the twenty strongest, strongest first\<close>
  "contributions fi m names x =
     (if rk_proba m = None then []
      else (let vals = fi_shap fi x;
                cs = List.map_filter (\<lambda>(i, n). let v = (if i < length vals then vals ! i else 0)
                       in if 1 / 100000000 < \<bar>v\<bar> then Some (n, if i < length x then x ! i else 0, v) else None)
                     (zip [0..<length names] names)
            in take 20 (sort_key (\<lambda>(n, x, v). - \<bar>v\<bar>) cs)))"

record scored =
  sd_probability :: real
  sd_posture :: int
  sd_at_risk :: bool
  sd_version :: string
  sd_anomaly :: bool
  sd_shap :: "(string \<times> real \<times> real) list"
  sd_agreement :: string

definition agreement :: "bool \<Rightarrow> bool \<Rightarrow> string" where
  "agreement rules ml =
     (if rules = ml then ''agrees'' else if ml then ''disagrees-ml-more-severe'' else ''disagrees-rules-more-severe'')"

definition score_session :: "fitting \<Rightarrow> int \<Rightarrow> reg_file \<Rightarrow> scorer \<Rightarrow> session_analysis \<Rightarrow> scored" where
  "score_session fi now f so sa =
     (let x = vector_of (so_names so) (extract_features now sa); (prob, label) = predict_risk (so_risk so) x
      in \<lparr>sd_probability = prob, sd_posture = py_round (prob * 100), sd_at_risk = label,
          sd_version = (case so_version so of None \<Rightarrow> current_version f | Some v \<Rightarrow> v),
          sd_anomaly = (case so_forest so of None \<Rightarrow> False | Some p \<Rightarrow> fst (p x)),
          sd_shap = contributions fi (so_risk so) (so_names so) x, sd_agreement = agreement (at_risk sa) label\<rparr>)"

lemma py_round_bounds: "0 \<le> x \<Longrightarrow> x \<le> 100 \<Longrightarrow> 0 \<le> py_round x \<and> py_round x \<le> 100"
proof -
  assume x: "0 \<le> x" "x \<le> 100"
  define n where "n = \<lfloor>x\<rfloor>"
  have "0 \<le> n" "n \<le> 100" using x by (auto simp: n_def floor_le_iff)
  moreover have "x - of_int n < 1 / 2" if "n = 100" using x that by simp
  ultimately have "0 \<le> n \<and> n \<le> 100 \<and> (n = 100 \<longrightarrow> x - of_int n < 1 / 2)" by blast
  then show ?thesis unfolding py_round_def n_def [symmetric] Let_def by auto
qed

text \<open>Whatever the fitted model, as long as it answers with a probability: the posture score is between 0 and 100, the
  label is \<open>at-risk\<close> exactly from 50 on, and the scorer reports agreement exactly when the rules found something of
  medium severity or more.\<close>

theorem score_bounds:
  assumes "\<And>p x. rk_proba (so_risk so) = Some p \<Longrightarrow> 0 \<le> p x \<and> p x \<le> 1"
  shows "0 \<le> sd_posture (score_session fi now f so sa) \<and> sd_posture (score_session fi now f so sa) \<le> 100 \<and>
    (sd_at_risk (score_session fi now f so sa) \<longleftrightarrow> 50 \<le> sd_posture (score_session fi now f so sa)) \<and>
    (sd_agreement (score_session fi now f so sa) = ''agrees'' \<longleftrightarrow> (at_risk sa \<longleftrightarrow> 50 \<le> sd_posture (score_session fi now f so sa))) \<and>
    length (sd_shap (score_session fi now f so sa)) \<le> 20"
proof -
  obtain prob label where p: "predict_risk (so_risk so) (vector_of (so_names so) (extract_features now sa)) = (prob, label)"
    by (metis prod.exhaust)
  have "0 \<le> prob \<and> prob \<le> 1 \<and> (label \<longleftrightarrow> 50 \<le> py_round (prob * 100))"
    using p assms by (auto simp: predict_risk_def py_round_def split: bool.splits option.splits)
  moreover from this have "0 \<le> py_round (prob * 100) \<and> py_round (prob * 100) \<le> 100" by (intro py_round_bounds) auto
  moreover have "length (sd_shap (score_session fi now f so sa)) \<le> 20"
    by (simp add: score_session_def contributions_def Let_def split: prod.split)
  ultimately show ?thesis by (auto simp: score_session_def p Let_def agreement_def)
qed

text \<open>The scorer of a job is trained on the sessions of that job: with at most three of them it has no classifier and no
  forest, and every session is scored 0, healthy and no anomaly, whatever the rules found.\<close>

theorem small_capture_scores_zero:
  assumes "length sas \<le> 3" "train_scorer fi now ok sas new_scorer f = (so, f')" "s = score_session fi now' f' so sa"
  shows "sd_posture s = 0 \<and> \<not> sd_at_risk s \<and> \<not> sd_anomaly s \<and> sd_shap s = [] \<and>
    (at_risk sa \<longrightarrow> sd_agreement s = ''disagrees-rules-more-severe'')"
proof -
  have "length (fst (session_features_matrix now sas)) \<le> 3"
    using assms(1) by (auto simp: session_features_matrix_def Let_def split: list.split)
  then have so: "rk_proba (so_risk so) = None" "so_forest so = None"
    using assms(2) by (auto simp: train_scorer_def new_scorer_def train_risk_def split: prod.splits if_splits)
  then have "predict_risk (so_risk so) x = (0, False)" for x
    by (simp add: predict_risk_def split: bool.split)
  then show ?thesis
    using so by (simp add: assms(3) score_session_def Let_def contributions_def agreement_def py_round_def)
qed

section \<open>The scorer of the live worker\<close>

datatype live_scorer = Rolling_Baseline scorer | Session_Scorer scorer

record live_scorers =
  ls_by_org :: "(string, live_scorer) dict"
  ls_versions :: "(string, string option) dict"

definition new_live_scorer :: "bool \<Rightarrow> live_scorer" where
  \<comment> \<open>the baseline, or the plain scorer when it cannot be made\<close>
  "new_live_scorer ok = (if ok then Rolling_Baseline new_scorer else Session_Scorer new_scorer)"

fun with_model :: "risk_model \<Rightarrow> string list \<Rightarrow> live_scorer \<Rightarrow> live_scorer" where
  "with_model m names (Rolling_Baseline so) = Rolling_Baseline (so\<lparr>so_risk := m, so_names := names, so_trained := True\<rparr>)"
| "with_model m names (Session_Scorer so) = Session_Scorer (so\<lparr>so_risk := m, so_names := names, so_trained := True\<rparr>)"

definition scorer_for ::
  "bool \<Rightarrow> (string \<Rightarrow> (risk_model \<times> string list) option) \<Rightarrow> reg_file \<Rightarrow> string option \<Rightarrow> live_scorers \<Rightarrow> live_scorer \<times> live_scorers" where
  \<comment> \<open>\<open>load\<close> reads a model file, \<open>None\<close> when it fails\<close>
  "scorer_for ok load f org st =
     (let key = org_key org; cur = org_current (if key = ''global'' then None else Some key) f;
          version = map_option me_version cur;
          seen = (case dget (ls_versions st) key of None \<Rightarrow> None | Some v \<Rightarrow> v);
          artifact = (case Option.bind cur me_artifact of None \<Rightarrow> '''' | Some a \<Rightarrow> a)
      in case dget (ls_by_org st) key of
           Some c \<Rightarrow>
             if seen = version then (c, st)
             else (let c = (if truthy_opt version \<and> artifact \<noteq> '''' \<and> \<not> starts_with ''unavailable'' artifact
                            then (case load artifact of None \<Rightarrow> c | Some (m, names) \<Rightarrow> with_model m names c) else c)
                   in (c, st\<lparr>ls_by_org := dset key c (ls_by_org st), ls_versions := dset key version (ls_versions st)\<rparr>))
         | None \<Rightarrow>
             (let c = new_live_scorer ok;
                  c = (if truthy_opt version \<and> seen \<noteq> version \<and> artifact \<noteq> '''' \<and> \<not> starts_with ''unavailable'' artifact
                       then (case load artifact of None \<Rightarrow> c | Some (m, names) \<Rightarrow> with_model m names c) else c)
              in (c, st\<lparr>ls_by_org := dset key c (ls_by_org st), ls_versions := dset key version (ls_versions st)\<rparr>)))"

definition scoring_of :: "scored \<Rightarrow> scoring" where
  "scoring_of sd = \<lparr>sc_posture = Some (of_int (sd_posture sd)), sc_anomaly = sd_anomaly sd,
     sc_model_version = Some (sd_version sd), sc_shap = sd_shap sd\<rparr>"

definition live_scoring :: "fitting \<Rightarrow> int \<Rightarrow> reg_file \<Rightarrow> live_scorer \<Rightarrow> session_analysis \<Rightarrow> scoring option" where
  \<comment> \<open>\<open>scorer.score(sa) if hasattr(scorer, "score") else None\<close>: the function \<open>score\<close> meant for \<open>RollingBaseline\<close> is
     nested, after its last \<open>return\<close>, in \<open>drift_from_db\<close>, so the class has no such attribute\<close>
  "live_scoring fi now f c sa =
     (case c of Rolling_Baseline so \<Rightarrow> None | Session_Scorer so \<Rightarrow> Some (scoring_of (score_session fi now f so sa)))"

definition all_rolling :: "live_scorers \<Rightarrow> bool" where
  "all_rolling st \<longleftrightarrow> (\<forall>c \<in> snd ` set (ls_by_org st). \<exists>so. c = Rolling_Baseline so)"

lemma with_model_rolling: "\<exists>so'. with_model m names (Rolling_Baseline so) = Rolling_Baseline so'"
  by simp

lemma all_rolling_get: "all_rolling st \<Longrightarrow> dget (ls_by_org st) key = Some c \<Longrightarrow> \<exists>so. c = Rolling_Baseline so"
  by (force simp: all_rolling_def dest: map_of_SomeD)

lemma all_rolling_set: "all_rolling st \<Longrightarrow> all_rolling (st\<lparr>ls_by_org := dset key (Rolling_Baseline so) (ls_by_org st), ls_versions := v\<rparr>)"
  by (auto simp: all_rolling_def dest!: set_dset)

lemma scorer_for_rolling:
  assumes "all_rolling st"
  shows "(\<exists>so. fst (scorer_for True load f org st) = Rolling_Baseline so) \<and> all_rolling (snd (scorer_for True load f org st))"
proof (cases "dget (ls_by_org st) (org_key org)")
  case None
  then show ?thesis
    using all_rolling_set [OF assms]
    by (auto simp: scorer_for_def Let_def new_live_scorer_def split: option.splits)
next
  case (Some c)
  then obtain so where "c = Rolling_Baseline so" using all_rolling_get [OF assms] by blast
  with Some show ?thesis
    using all_rolling_set [OF assms] assms
    by (auto simp: scorer_for_def Let_def split: option.splits)
qed

text \<open>C23: The live worker scores nothing: as long as the baseline can be made, every scorer that it ever holds is a baseline,
  which has no function to score, and every session it stores has no risk score, no anomaly and no SHAP row, with or
  without a promoted model.\<close>

theorem live_sessions_unscored:
  assumes "all_rolling st" "wc_score cfg = (\<lambda>org sa. live_scoring fi now f (fst (scorer_for True load f org st)) sa)"
    and "process_one cfg d p w = (Inr (k, True), w')"
  shows "all_rolling (snd (scorer_for True load f org st)) \<and>
    (\<exists>row. dget (st_sessions (w_store w')) k = Some row \<and> r_risk_score row = None \<and> \<not> r_is_anomaly row) \<and>
    st_shap (w_store w') = st_shap (w_store w)"
proof -
  obtain sess sa where sa: "p_session p = Inr sess" "analyze_session (wc_pki cfg) sess = Inr sa"
    using assms(3) by (auto simp: process_one_def split: sum.splits)
  have none: "wc_score cfg (p_org_id p) sa = None"
    using scorer_for_rolling [OF assms(1), of load f "p_org_id p"] by (auto simp: assms(2) live_scoring_def)
  obtain q w1 where pe: "persist cfg d sa None (deterministic_session_id (p_fields p) (d_uuid d)) (p_org_id p) w = (q, w1)"
    by fastforce
  with assms(3) sa none have q: "\<exists>org sa'. q = Inr (True, org, sa')" "w_store w' = w_store w1"
    "k = deterministic_session_id (p_fields p) (d_uuid d)"
    by (auto simp: process_one_def Let_def split: sum.splits prod.splits bool.splits)
  from pe q(1) have "(\<exists>row. dget (st_sessions (w_store w1)) k = Some row \<and> r_risk_score row = None \<and> \<not> r_is_anomaly row) \<and>
      st_shap (w_store w1) = st_shap (w_store w)"
    by (auto simp: persist_def q(3) Let_def session_row_of_def split: if_splits option.splits prod.splits)
  with q(2) scorer_for_rolling [OF assms(1)] show ?thesis by simp
qed

section \<open>Drift\<close>

definition edge :: "real \<Rightarrow> real \<Rightarrow> nat \<Rightarrow> nat \<Rightarrow> real" where
  "edge lo hi bins i = lo + (hi - lo) * real i / real bins"

definition in_bin :: "real \<Rightarrow> real \<Rightarrow> nat \<Rightarrow> nat \<Rightarrow> real \<Rightarrow> bool" where
  \<comment> \<open>bins are half open, the last one is closed\<close>
  "in_bin lo hi bins i x \<longleftrightarrow>
     edge lo hi bins i \<le> x \<and> (x < edge lo hi bins (i + 1) \<or> i + 1 = bins \<and> x \<le> edge lo hi bins (i + 1))"

definition bin_share :: "real \<Rightarrow> real \<Rightarrow> nat \<Rightarrow> real list \<Rightarrow> nat \<Rightarrow> real" where
  "bin_share lo hi bins xs i =
     (real (length (filter (in_bin lo hi bins i) xs)) + 1 / 2) / (real (length xs) + real bins / 2)"

definition psi :: "nat \<Rightarrow> real list \<Rightarrow> real list \<Rightarrow> real" where
  \<comment> \<open>the population stability index of two samples that are not empty\<close>
  "psi bins expected actual =
     (let both = expected @ actual; lo = fold min both (hd both); hi = fold max both (hd both)
      in if lo = hi then 0
         else sum_list (map (\<lambda>i. (bin_share lo hi bins actual i - bin_share lo hi bins expected i) *
                                ln (bin_share lo hi bins actual i / bin_share lo hi bins expected i)) [0..<bins]))"

definition column :: "real list list \<Rightarrow> nat \<Rightarrow> real list" where
  "column rows i = map (\<lambda>r. r ! i) rows"

definition mean :: "real list \<Rightarrow> real" where
  "mean xs = sum_list xs / real (length xs)"

definition variance :: "real list \<Rightarrow> real" where
  "variance xs = mean (map (\<lambda>x. (x - mean xs)\<^sup>2) xs)"

record feature_drift =
  fd_name :: string
  fd_ref_mean :: real
  fd_recent_mean :: real
  fd_z :: real
  fd_flagged :: bool
  fd_psi :: real

record drift =
  dr_features :: "feature_drift list"
  dr_drifted :: "string list"
  dr_verdict :: string
  dr_psi_max :: real

definition feature_drift_of :: "real \<Rightarrow> real list list \<Rightarrow> real list list \<Rightarrow> nat \<times> string \<Rightarrow> feature_drift" where
  "feature_drift_of z_threshold reference recent =
     (\<lambda>(i, name). let a = column reference i; b = column recent i;
                      std = sqrt ((variance a + variance b) / 2); shift = mean b - mean a;
                      z = (if 1 / 1000000000 < std then shift / std else 0)
                  in \<lparr>fd_name = name, fd_ref_mean = mean a, fd_recent_mean = mean b, fd_z = z,
                      fd_flagged = (z_threshold \<le> \<bar>z\<bar> \<and> 1 / 1000000000 < \<bar>shift\<bar>), fd_psi = psi 10 a b\<rparr>)"

definition compute_drift :: "nat \<Rightarrow> real \<Rightarrow> string list \<Rightarrow> real list list \<Rightarrow> real list list \<Rightarrow> drift" where
  \<comment> \<open>the matrices have a column for every name; the reported numbers before rounding\<close>
  "compute_drift min_features z_threshold names reference recent =
     (if length reference < 5 \<or> length recent < 5
      then \<lparr>dr_features = [], dr_drifted = [], dr_verdict = ''insufficient-data'', dr_psi_max = 0\<rparr>
      else (let fs = map (feature_drift_of z_threshold reference recent) (zip [0..<length names] names);
                drifted = map fd_name (filter fd_flagged fs)
            in \<lparr>dr_features = fs, dr_drifted = drifted,
                dr_verdict = (if min_features \<le> length drifted then ''drift'' else ''ok''),
                dr_psi_max = (case map fd_psi fs of [] \<Rightarrow> 0 | x # xs \<Rightarrow> fold max xs x)\<rparr>))"

lemma psi_term: "0 < a \<Longrightarrow> 0 < e \<Longrightarrow> 0 \<le> (a - e) * ln (a / (e :: real))"
  by (cases "e \<le> a") (simp_all add: mult_nonpos_nonpos ln_div)

lemma bin_share_pos: "1 \<le> bins \<Longrightarrow> 0 < bin_share lo hi bins xs i"
  by (simp add: bin_share_def add_nonneg_pos)

lemma psi_nonneg: "1 \<le> bins \<Longrightarrow> 0 \<le> psi bins e a"
  by (auto simp: psi_def Let_def bin_share_pos psi_term intro!: sum_list_nonneg)

lemma psi_same: "psi bins xs xs = 0"
proof -
  have "(bin_share lo hi bins xs i - bin_share lo hi bins xs i) * ln (bin_share lo hi bins xs i / bin_share lo hi bins xs i) = 0"
    for lo hi i by simp
  then show ?thesis by (simp add: psi_def Let_def)
qed

text \<open>The stability index is never negative, and a window compared with itself never drifts: no feature is flagged, all
  indices are 0 and the verdict is \<open>ok\<close> or that there is too little data.\<close>

theorem drift_sound:
  assumes "1 \<le> min_features" "0 < z_threshold"
  shows "list_all (\<lambda>d. 0 \<le> fd_psi d) (dr_features (compute_drift min_features z_threshold names reference recent)) \<and>
    dr_drifted (compute_drift min_features z_threshold names reference reference) = [] \<and>
    dr_verdict (compute_drift min_features z_threshold names reference reference) \<noteq> ''drift'' \<and>
    list_all (\<lambda>d. fd_psi d = 0) (dr_features (compute_drift min_features z_threshold names reference reference))"
proof -
  have "0 \<le> fd_psi (feature_drift_of z_threshold reference recent x)" for x
    using psi_nonneg [of 10] by (cases x) (simp add: feature_drift_of_def Let_def)
  moreover have "\<not> fd_flagged (feature_drift_of z_threshold reference reference x)"
    "fd_psi (feature_drift_of z_threshold reference reference x) = 0" for x
    using assms(2) by (cases x, simp add: feature_drift_of_def Let_def psi_same)+
  ultimately show ?thesis
    using assms(1) by (simp add: compute_drift_def list_all_iff Let_def o_def)
qed

section \<open>Instances\<close>

definition demo_fitting :: fitting where
  "demo_fitting = \<lparr>fi_risk = (\<lambda>rows ys x. 3 / 4), fi_forest = (\<lambda>rows x. (True, 0)), fi_shap = (\<lambda>x. [])\<rparr>"

lemma score_bounds_witness:
  "0 \<le> sd_posture (score_session demo_fitting 0 None (new_scorer\<lparr>so_risk := train_risk demo_fitting [[], [], [], []] [] (so_risk new_scorer)\<rparr>)
       (new_analysis ''s'' ''SMTP'' ''ft'' False))"
proof -
  let ?so = "new_scorer\<lparr>so_risk := train_risk demo_fitting [[], [], [], []] [] (so_risk new_scorer)\<rparr>"
  have "rk_proba (so_risk ?so) = Some p \<Longrightarrow> 0 \<le> p x \<and> p x \<le> 1" for p x
    by (auto simp: train_risk_def demo_fitting_def)
  then show ?thesis using score_bounds [of ?so demo_fitting 0 None "new_analysis ''s'' ''SMTP'' ''ft'' False"] by blast
qed

lemma small_capture_scores_zero_witness:
  "sd_posture (score_session demo_fitting 0 (snd (train_scorer demo_fitting 0 True [new_analysis ''s'' ''SMTP'' ''ft'' False] new_scorer None))
       (fst (train_scorer demo_fitting 0 True [new_analysis ''s'' ''SMTP'' ''ft'' False] new_scorer None))
       (new_analysis ''t'' ''SMTP'' ''ft'' False)) = 0"
  using small_capture_scores_zero [OF _ prod.collapse [symmetric] refl, of "[new_analysis ''s'' ''SMTP'' ''ft'' False]"] by simp

lemma matrix_matches_schema_witness:
  "length (fst (snd (session_features_matrix 0 [new_analysis ''s'' ''SMTP'' ''ft'' False]))) = 43"
proof -
  obtain rows names ids where m: "session_features_matrix 0 [new_analysis ''s'' ''SMTP'' ''ft'' False] = (rows, names, ids)"
    by (metis prod_cases3)
  from matrix_matches_schema [OF m] show ?thesis by (simp add: m)
qed

definition unscored_cfg :: worker_cfg where
  "unscored_cfg = demo_worker_cfg\<lparr>wc_score := (\<lambda>org sa. live_scoring demo_fitting 0 None
     (fst (scorer_for True (\<lambda>a. None) None org \<lparr>ls_by_org = [], ls_versions = []\<rparr>)) sa)\<rparr>"

lemma live_sessions_unscored_witness:
  "\<exists>k w' row. process_one unscored_cfg demo_delivery demo_payload demo_worker = (Inr (k, True), w') \<and>
     dget (st_sessions (w_store w')) k = Some row \<and> r_risk_score row = None"
proof -
  have "\<exists>sa. analyze_session (wc_pki unscored_cfg) ((new_session (''a'', 1) (''b'', 25) 0)\<lparr>s_plaintext := ascii ''EHLO''\<rparr>) = Inr sa"
    by (simp add: analyze_session_def start_analysis_def new_session_def new_analysis_def Let_def)
  then obtain sa where sa: "analyze_session (wc_pki unscored_cfg) ((new_session (''a'', 1) (''b'', 25) 0)\<lparr>s_plaintext := ascii ''EHLO''\<rparr>) = Inr sa" ..
  then have "\<exists>w'. process_one unscored_cfg demo_delivery demo_payload demo_worker
      = (Inr (deterministic_session_id (p_fields demo_payload) (d_uuid demo_delivery), True), w')"
    by (intro process_creates) (auto simp: demo_payload_def truthy_opt_def demo_worker_def demo_delivery_def)
  then obtain w' where p: "process_one unscored_cfg demo_delivery demo_payload demo_worker
      = (Inr (deterministic_session_id (p_fields demo_payload) (d_uuid demo_delivery), True), w')" ..
  have "all_rolling \<lparr>ls_by_org = [], ls_versions = []\<rparr>" by (simp add: all_rolling_def)
  from live_sessions_unscored [OF this _ p, of demo_fitting 0 None "\<lambda>a. None"] p show ?thesis by (auto simp: unscored_cfg_def)
qed

lemma drift_sound_witness: "dr_verdict (compute_drift 3 3 [''pfs''] [[0], [1], [1], [0], [1]] [[0], [1], [1], [0], [1]]) \<noteq> ''drift''"
  using drift_sound [of 3 3 "[''pfs'']"] by simp

end
