(* ===== verification/Jobs.thy ===== *)
theory Jobs
  imports Scoring
begin

text \<open>
  The analysis job of an uploaded capture (src/backend/app/services/tasks.py) over the tables of \<open>Org_Rows\<close>, and
  the gate in front of its report (src/backend/app/api/main.py, \<open>get_report\<close> and \<open>get_evidence\<close>). The lookup of a
  row is the ORM's and a parameter; what SQLAlchemy documents of it, that it takes a mapped class and raises
  \<open>ArgumentError\<close> for anything else, is the hypothesis \<open>orm_takes_classes\<close>.
\<close>

datatype entity = Table_Name string | Mapped_Class

type_synonym orm = "entity \<Rightarrow> string \<Rightarrow> org_tables \<Rightarrow> job option res"

definition orm_takes_classes :: "orm \<Rightarrow> bool" where
  "orm_takes_classes orm \<longleftrightarrow> (\<forall>n i st. orm (Table_Name n) i st = Inl (RuntimeError [''ArgumentError'']))"

record batch_row =
  \<comment> \<open>the columns of a session row beside those of \<open>api_session\<close>\<close>
  br_is_starttls :: bool
  br_tls_version :: "string option"
  br_strength :: "real option"
  br_key_length :: "nat option"
  br_pfs :: "bool option"
  br_chain_valid :: bool
  br_cert_age :: "int option"
  br_is_anomaly :: bool
  br_model_version :: string
  br_finding_count :: nat
  br_max_severity :: "severity option"

record job_tables =
  jt_rows :: org_tables
  jt_columns :: "(string, batch_row) dict"
  jt_shap :: "(string \<times> string \<times> real \<times> real) list"
  jt_summaries :: "(string \<times> string \<times> real) list"
  jt_certs :: inventory

record job_env =
  je_orm :: orm
  je_analyze :: "session_analysis list res"
  je_fitting :: fitting
  je_now :: int
  je_time :: time
  je_id :: "nat \<Rightarrow> string"
  je_write :: bool
  je_reports :: "unit res"

datatype job_reply = Job_Not_Found | Job_Failed pyerr | Job_Done nat nat real

definition set_job :: "string \<Rightarrow> (job \<Rightarrow> job) \<Rightarrow> job_tables \<Rightarrow> job_tables" where
  \<comment> \<open>assignments to the attributes of a loaded row, then a commit; the texts of progress and message are left out\<close>
  "set_job i g jt =
     (case dget (ot_jobs (jt_rows jt)) i of
        None \<Rightarrow> jt
      | Some j \<Rightarrow> jt\<lparr>jt_rows := (jt_rows jt)\<lparr>ot_jobs := dset i (g j) (ot_jobs (jt_rows jt))\<rparr>\<rparr>)"

definition cert_age :: "cert_analysis list \<Rightarrow> int option res" where
  \<comment> \<open>the smallest number of days; \<open>min\<close> of nothing raises\<close>
  "cert_age cs =
     (if cs = [] then Inr None
      else (case List.map_filter ca_days_remaining cs of
              [] \<Rightarrow> Inl (ValueError ''min() iterable argument is empty'')
            | d # ds \<Rightarrow> Inr (Some (fold min ds d))))"

definition batch_session :: "string \<Rightarrow> time \<Rightarrow> session_analysis \<Rightarrow> scored \<Rightarrow> api_session" where
  \<comment> \<open>the row has no organisation\<close>
  "batch_session i t sa sd =
     \<lparr>as_org_id = None, as_job_id = i, as_protocol = sa_protocol sa, as_five_tuple = sa_five_tuple sa,
      as_cipher = sa_cipher sa, as_risk_score = Some (of_int (sd_posture sd)), as_created_at = Some t\<rparr>"

definition batch_columns :: "int option \<Rightarrow> session_analysis \<Rightarrow> scored \<Rightarrow> batch_row" where
  "batch_columns age sa sd =
     \<lparr>br_is_starttls = sa_is_starttls sa, br_tls_version = sa_version_name sa, br_strength = sa_cipher_strength sa,
      br_key_length = map_option c_key_len (sa_cipher_meta sa), br_pfs = map_option c_pfs (sa_cipher_meta sa),
      br_chain_valid = (sa_chain_result sa = ''ok''), br_cert_age = age, br_is_anomaly = sd_anomaly sd,
      br_model_version = sd_version sd, br_finding_count = length (sa_findings sa),
      br_max_severity = max_severity (sa_findings sa)\<rparr>"

definition next_finding :: "org_tables \<Rightarrow> nat" where
  "next_finding st = fold max (map (Suc \<circ> fst) (ot_findings st)) 0"

definition add_finding_row :: "string \<Rightarrow> finding \<Rightarrow> org_tables \<Rightarrow> org_tables" where
  "add_finding_row sid f st =
     st\<lparr>ot_findings := dset (next_finding st)
          \<lparr>fr_session_id = sid, fr_rule_id = f_rule_id f, fr_severity = f_severity f, fr_legal_hold = False\<rparr> (ot_findings st)\<rparr>"

definition job_owner :: "string \<Rightarrow> job_tables \<Rightarrow> string option" where
  "job_owner i jt = Option.bind (dget (ot_jobs (jt_rows jt)) i) jb_org_id"

definition add_session :: "string \<Rightarrow> time \<Rightarrow> string \<Rightarrow> int option \<Rightarrow> session_analysis \<Rightarrow> scored \<Rightarrow> job_tables \<Rightarrow> job_tables" where
  \<comment> \<open>the session, its findings, its SHAP rows and its certificates, which are the only rows with the organisation of the job\<close>
  "add_session i t sid age sa sd jt =
     (let st = (jt_rows jt)\<lparr>ot_sessions := dset sid (batch_session i t sa sd) (ot_sessions (jt_rows jt))\<rparr>
      in jt\<lparr>jt_rows := foldl (\<lambda>st f. add_finding_row sid f st) st (sa_findings sa),
            jt_columns := dset sid (batch_columns age sa sd) (jt_columns jt),
            jt_shap := jt_shap jt @ map (\<lambda>c. (sid, c)) (sd_shap sd),
            jt_certs := fst (track_session_certs t sa (job_owner i jt) (jt_certs jt))\<rparr>)"

fun persist_batch :: "string \<Rightarrow> time \<Rightarrow> (string \<times> session_analysis \<times> scored) list \<Rightarrow> job_tables \<Rightarrow> pyerr option \<times> job_tables" where
  "persist_batch i t [] jt = (None, jt)"
| "persist_batch i t ((sid, sa, sd) # rest) jt =
     (case cert_age (sa_certs sa) of
        Inl e \<Rightarrow> (Some e, jt)
      | Inr age \<Rightarrow> persist_batch i t rest (add_session i t sid age sa sd jt))"

definition average_posture :: "scored list \<Rightarrow> real" where
  "average_posture scores = of_int (sum_list (map sd_posture scores)) / real (max 1 (length scores))"

definition add_summaries :: "string \<Rightarrow> scored list \<Rightarrow> job_tables \<Rightarrow> job_tables" where
  "add_summaries i scores jt =
     jt\<lparr>jt_summaries := jt_summaries jt
          @ [(i, ''fleet_posture_score'', average_posture scores), (i, ''total_sessions'', real (length scores)),
             (i, ''anomaly_count'', real (length (filter sd_anomaly scores)))]\<rparr>"

definition fail_job :: "job_env \<Rightarrow> string \<Rightarrow> pyerr \<Rightarrow> job_tables \<Rightarrow> job_tables \<Rightarrow> job_reply res \<times> job_tables" where
  \<comment> \<open>the handler looks the job up again, and commits what is pending; when that raises too, the error leaves the task and
     what is pending is lost: the last argument is the last commit\<close>
  "fail_job je i e jt saved =
     (case je_orm je (Table_Name ''analysis_jobs'') i (jt_rows jt) of
        Inl e' \<Rightarrow> (Inl e', saved)
      | Inr None \<Rightarrow> (Inr (Job_Failed e), saved)
      | Inr (Some j) \<Rightarrow> (Inr (Job_Failed e), set_job i (\<lambda>j. j\<lparr>jb_status := ''failed''\<rparr>) jt))"

definition score_batch :: "job_env \<Rightarrow> session_analysis list \<Rightarrow> reg_file \<Rightarrow> scored list \<times> reg_file" where
  \<comment> \<open>a new scorer is trained on the sessions of the job itself\<close>
  "score_batch je sas f =
     (let (so, f) = train_scorer (je_fitting je) (je_now je) (je_write je) sas new_scorer f
      in (map (score_session (je_fitting je) (je_now je) f so) sas, f))"

definition store_job :: "job_env \<Rightarrow> string \<Rightarrow> session_analysis list \<Rightarrow> scored list \<Rightarrow> job_tables \<Rightarrow> job_reply res \<times> job_tables" where
  \<comment> \<open>the rows are committed before the reports are written\<close>
  "store_job je i sas scores jt =
     (case persist_batch i (je_time je) (zip (map (je_id je) [0..<length sas]) (zip sas scores)) jt of
        (Some e, jt') \<Rightarrow> fail_job je i e jt' jt
      | (None, jt') \<Rightarrow>
          (let jt' = add_summaries i scores jt'
           in case je_reports je of
                Inl e \<Rightarrow> fail_job je i e jt' jt'
              | Inr _ \<Rightarrow>
                  (Inr (Job_Done (length sas) (sum_list (map (length \<circ> sa_findings) sas)) (average_posture scores)),
                   set_job i (\<lambda>j. j\<lparr>jb_status := ''completed''\<rparr>) jt')))"

definition process_analysis_job :: "job_env \<Rightarrow> string \<Rightarrow> job_tables \<Rightarrow> reg_file \<Rightarrow> job_reply res \<times> job_tables \<times> reg_file" where
  "process_analysis_job je i jt f =
     (case je_orm je (Table_Name ''analysis_jobs'') i (jt_rows jt) of
        Inl e \<Rightarrow> (case fail_job je i e jt jt of (r, jt) \<Rightarrow> (r, jt, f))
      | Inr None \<Rightarrow> (Inr Job_Not_Found, jt, f)
      | Inr (Some j) \<Rightarrow>
          (let jt = set_job i (\<lambda>j. j\<lparr>jb_status := ''processing''\<rparr>) jt
           in case je_analyze je of
                Inl e \<Rightarrow> (case fail_job je i e jt jt of (r, jt) \<Rightarrow> (r, jt, f))
              | Inr sas \<Rightarrow>
                  (let (scores, f) = score_batch je sas f
                   in case store_job je i sas scores jt of (r, jt) \<Rightarrow> (r, jt, f))))"

section \<open>The report of a job\<close>

definition report_gate :: "string \<Rightarrow> auth_ctx \<Rightarrow> org_tables \<Rightarrow> http_error + job" where
  \<comment> \<open>what both downloads check first\<close>
  "report_gate i ctx st =
     bindR (get_org_job i ctx st) (\<lambda>j. guardR (jb_status j \<noteq> ''completed'') (HTTPException 409 ''Job not yet completed'') (Inr j))"


section \<open>What a job would store\<close>

lemma add_findings_sessions [simp]:
  "ot_sessions (foldl (\<lambda>st f. add_finding_row sid f st) st fs) = ot_sessions st"
  "ot_jobs (foldl (\<lambda>st f. add_finding_row sid f st) st fs) = ot_jobs st"
  by (induction fs arbitrary: st) (simp_all add: add_finding_row_def)

definition unowned :: "string set \<Rightarrow> org_tables \<Rightarrow> bool" where
  "unowned ids st \<longleftrightarrow> dict_ok (ot_sessions st) \<and> (\<forall>sid \<in> ids. \<exists>s. dget (ot_sessions st) sid = Some s \<and> as_org_id s = None)"

lemma add_session_rows:
  "ot_sessions (jt_rows (add_session i t sid age sa sd jt)) = dset sid (batch_session i t sa sd) (ot_sessions (jt_rows jt))"
  "ot_jobs (jt_rows (add_session i t sid age sa sd jt)) = ot_jobs (jt_rows jt)"
  by (simp_all add: add_session_def Let_def)

lemma add_session_unowned:
  "unowned ids (jt_rows jt) \<Longrightarrow> unowned (insert sid ids) (jt_rows (add_session i t sid age sa sd jt))"
  by (auto simp: unowned_def add_session_rows batch_session_def)

lemma persist_batch_unowned:
  assumes "persist_batch i t rows jt = (None, jt')" "unowned ids (jt_rows jt)"
  shows "unowned (ids \<union> fst ` set rows) (jt_rows jt')"
  using assms
proof (induction rows arbitrary: jt ids)
  case (Cons x rows)
  obtain sid sa sd where x: "x = (sid, sa, sd)" by (cases x) auto
  from Cons.prems(1) obtain age where p: "persist_batch i t rows (add_session i t sid age sa sd jt) = (None, jt')"
    by (auto simp: x split: sum.splits)
  from Cons.IH [OF p add_session_unowned [OF Cons.prems(2)]] show ?case by (simp add: x insert_commute)
qed simp

lemma set_map_filter: "set (List.map_filter g xs) = {y. \<exists>x \<in> set xs. g x = Some y}"
  by (induction xs) (auto split: option.splits)

lemma listed_is_owned:
  assumes "dict_ok (ot_sessions st)" "(sid, s) \<in> set (list_sessions protocol sev lo ctx st)"
  shows "dget (ot_sessions st) sid = Some s \<and> as_org_id s = Some (c_org_id ctx)"
proof -
  have ins: "set (by_id_desc xs) = set xs" for xs :: "(string \<times> api_session) list"
  proof -
    have one: "set (insort_id x ys) = insert x (set ys)" for x and ys :: "(string \<times> api_session) list" by (induction ys) auto
    show ?thesis unfolding by_id_desc_def by (induction xs) (simp_all add: one)
  qed
  have "set (by_risk_desc xs) \<subseteq> set xs" for xs by (auto simp: by_risk_desc_def)
  moreover have "dget (ot_sessions st) k = Some v" if "(k, v) \<in> set (joined_sessions w st)" for k v w
    using that unfolding joined_sessions_def set_map_filter by (auto split: if_splits)
  moreover have "dget (ot_sessions st) k = Some v" if "(k, v) \<in> set (ot_sessions st)" for k v
    using that assms(1) by (simp add: dict_ok_def map_of_is_SomeI)
  moreover have "(sid, s) \<in> set (case sev of None \<Rightarrow> by_id_desc (ot_sessions st) | Some v \<Rightarrow> by_risk_desc (joined_sessions v st))"
    and o: "as_org_id s = Some (c_org_id ctx)"
    using assms(2) by (auto simp: list_sessions_def page_of_def dest!: in_set_takeD in_set_dropD)
  ultimately have "dget (ot_sessions st) sid = Some s" by (cases sev) (simp_all add: ins, meson subsetD)
  with o show ?thesis by simp
qed


text \<open>One session whose certificates all lack a validity ends the job: what was stored before is committed with the failure.\<close>

lemma undated_certificates_fail_the_job:
  assumes "sa_certs sa = [c]" "ca_days_remaining c = None"
  shows "fst (persist_batch i t [(sid, sa, sd)] jt) = Some (ValueError ''min() iterable argument is empty'')"
  using assms by (simp add: cert_age_def map_filter_simps)

text \<open>A job whose report cannot be written is failed although its rows are stored.\<close>

lemma failed_job_keeps_rows:
  assumes "je_orm je (Table_Name ''analysis_jobs'') i = (\<lambda>st. Inr (dget (ot_jobs st) i))" "je_reports je = Inl e"
    "persist_batch i (je_time je) (zip (map (je_id je) [0..<length sas]) (zip sas scores)) jt = (None, jt')"
    "dget (ot_jobs (jt_rows jt')) i = Some j"
  shows "store_job je i sas scores jt = (Inr (Job_Failed e), set_job i (\<lambda>j. j\<lparr>jb_status := ''failed''\<rparr>) (add_summaries i scores jt'))"
  using assms by (simp add: store_job_def fail_job_def add_summaries_def)

section \<open>Instances\<close>

definition demo_job_env :: job_env where
  "demo_job_env = \<lparr>je_orm = (\<lambda>e i st. case e of Table_Name n \<Rightarrow> Inl (RuntimeError [''ArgumentError'']) | Mapped_Class \<Rightarrow> Inr (dget (ot_jobs st) i)),
     je_analyze = Inr [], je_fitting = \<lparr>fi_risk = (\<lambda>x y r. 0), fi_forest = (\<lambda>x r. (False, 0)), fi_shap = (\<lambda>x. [])\<rparr>,
     je_now = 0, je_time = 0, je_id = dec_of, je_write = True, je_reports = Inr ()\<rparr>"

definition job_tables_of :: "org_tables \<Rightarrow> job_tables" where
  "job_tables_of st = \<lparr>jt_rows = st, jt_columns = [], jt_shap = [], jt_summaries = [], jt_certs = []\<rparr>"


definition demo_scored :: scored where
  "demo_scored = \<lparr>sd_probability = 0, sd_posture = 0, sd_at_risk = False, sd_version = '''', sd_anomaly = False, sd_shap = [],
     sd_agreement = ''agrees''\<rparr>"


end
