(* ===== verification/Reads.thy ===== *)
theory Reads
  imports Jobs
begin

text \<open>
  The read endpoints of src/backend/app/api/main.py: listings, statistics and summaries over the rows of an
  organisation, with the compliance summary of src/backend/app/proactive/compliance.py. A query is a function
  of the tables. Where the database leaves the order of equal rows open, they keep the order of the table. The data
  file of the compliance mapping is a parameter.
\<close>

section \<open>Tables as the queries see them\<close>

record seen_session =
  sx_org_id :: "string option"
  sx_job_id :: string
  sx_protocol :: string
  sx_five_tuple :: string
  sx_is_starttls :: bool
  sx_tls_version :: "string option"
  sx_strength :: "real option"
  sx_chain_valid :: "bool option"
  sx_cipher :: "string option"
  sx_risk_score :: "real option"
  sx_is_anomaly :: bool
  sx_max_severity :: "string option"
  sx_created_at :: "time option"
  sx_fingerprints :: "(string, string) dict"
  sx_not_observable :: "string list"
  sx_tls13 :: bool
  sx_pq_negotiated :: bool
  sx_pq_offered :: bool

record seen_finding =
  fx_session_id :: string
  fx_rule_id :: string
  fx_rule_name :: string
  fx_severity :: severity
  fx_title :: string
  fx_created_at :: "time option"

record shap_row =
  sp_session_id :: string
  sp_feature :: string
  sp_impact :: real

record flow_row =
  fw_org_id :: "string option"
  fw_flow :: flow

record alert_row =
  ar_org_id :: "string option"
  ar_severity :: string
  ar_title :: string
  ar_five_tuple :: string
  ar_rule_id :: "string option"
  ar_owner :: "string option"
  ar_channel :: "string option"
  ar_ts :: time

record tables =
  tb_sessions :: "(string, seen_session) dict"
  tb_findings :: "(nat, seen_finding) dict"
  tb_shap :: "shap_row list"
  tb_jobs :: "(string, job) dict"
  tb_flows :: "(string, flow_row) dict"
  tb_alerts :: "(string, alert_row) dict"
  tb_audit :: "audit_log list"
  tb_labels :: "feedback list"
  tb_sups :: "suppression list"

definition own_sessions :: "string \<Rightarrow> tables \<Rightarrow> (string \<times> seen_session) list" where
  "own_sessions o' db = filter (\<lambda>(k, s). sx_org_id s = Some o') (tb_sessions db)"

definition finding_session :: "string \<Rightarrow> tables \<Rightarrow> seen_finding \<Rightarrow> seen_session option" where
  \<comment> \<open>the join with the sessions of an organisation\<close>
  "finding_session o' db f =
     (case dget (tb_sessions db) (fx_session_id f) of
        None \<Rightarrow> None
      | Some s \<Rightarrow> if sx_org_id s = Some o' then Some s else None)"

definition own_findings :: "string \<Rightarrow> tables \<Rightarrow> (nat \<times> seen_finding \<times> seen_session) list" where
  "own_findings o' db =
     List.map_filter (\<lambda>(k, f). map_option (\<lambda>s. (k, f, s)) (finding_session o' db f)) (tb_findings db)"

definition approved :: "time \<Rightarrow> string \<Rightarrow> tables \<Rightarrow> suppression list" where
  \<comment> \<open>\<open>_active_suppressions\<close>\<close>
  "approved now o' db = filter_active now (filter (\<lambda>s. sup_org_id s = o' \<and> sup_status s = ''approved'') (tb_sups db))"

definition tuple_event :: "string \<Rightarrow> event" where
  "tuple_event ft = \<lparr>ev = [(''five_tuple'', JStr ft)], ev_findings = [], ev_evidence = [], ev_risk = None, ev_first_seen = None,
     ev_last_seen = None, ev_ts = None\<rparr>"

definition round_to :: "nat \<Rightarrow> real \<Rightarrow> real" where
  "round_to n x = of_int (py_round (x * 10 ^ n)) / 10 ^ n"

section \<open>Listings\<close>

definition list_audit :: "nat \<Rightarrow> string option \<Rightarrow> auth_ctx \<Rightarrow> tables \<Rightarrow> http_error + audit_log list" where
  "list_audit limit action ctx db =
     (if c_role ctx \<noteq> ADMIN \<and> c_role ctx \<noteq> AUDITOR then Inl (HTTPException 403 ''Admins and auditors only'')
      else Inr (take limit (rev (filter (\<lambda>a. a_org_id a = c_org_id ctx \<and> selects action (a_action a)) (tb_audit db)))))"

fun with_suppression ::
  "time \<Rightarrow> suppression list \<Rightarrow> (nat \<times> seen_finding \<times> seen_session) list \<Rightarrow> http_error + (nat \<times> seen_finding \<times> nat option) list" where
  \<comment> \<open>a scope that raises turns the listing into a 500\<close>
  "with_suppression now sups [] = Inr []"
| "with_suppression now sups ((k, f, s) # rows) =
     (case match_suppression now (fx_rule_id f) (tuple_event (sx_five_tuple s)) sups of
        None \<Rightarrow> Inl (Uncaught (RuntimeError [''AttributeError'']))
      | Some m \<Rightarrow> bindR (with_suppression now sups rows) (\<lambda>out. Inr ((k, f, map_option sup_id m) # out)))"

definition list_findings ::
  "time \<Rightarrow> severity option \<Rightarrow> string option \<Rightarrow> int \<times> int \<Rightarrow> auth_ctx \<Rightarrow> tables \<Rightarrow> http_error + (nat \<times> seen_finding \<times> nat option) list" where
  \<comment> \<open>most severe first; the page comes from \<open>paginate\<close>\<close>
  "list_findings now sev protocol lo ctx db =
     with_suppression now (approved now (c_org_id ctx) db)
       (page_of lo (sort_key (\<lambda>(k, f, s). 4 - sev_rank (fx_severity f))
         (filter (\<lambda>(k, f, s). (case sev of None \<Rightarrow> True | Some v \<Rightarrow> fx_severity f = v) \<and> selects protocol (sx_protocol s))
           (own_findings (c_org_id ctx) db))))"

definition fingerprint_inventory :: "string \<Rightarrow> nat \<Rightarrow> auth_ctx \<Rightarrow> tables \<Rightarrow> http_error + (string \<times> nat) list" where
  "fingerprint_inventory typ limit ctx db =
     (if typ \<notin> {''ja3'', ''ja4'', ''ja3s'', ''ja4s''} then Inl (HTTPException 400 ''fp_type must be ja3|ja4|ja3s|ja4s'')
      else Inr (take limit (rev (sort_key snd
             (fold bump (List.map_filter (\<lambda>(k, s). dget (sx_fingerprints s) typ) (own_sessions (c_org_id ctx) db)) [])))))"

definition own_flows :: "string \<Rightarrow> tables \<Rightarrow> (string \<times> flow_row) list" where
  "own_flows o' db = filter (\<lambda>(k, f). fw_org_id f = Some o') (tb_flows db)"

definition list_flows ::
  "time \<Rightarrow> nat option \<Rightarrow> int \<Rightarrow> int option \<Rightarrow> int option \<Rightarrow> auth_ctx \<Rightarrow> tables \<Rightarrow> (string \<times> flow_row) list" where
  \<comment> \<open>the offset that \<open>_paginate\<close> computes is dropped\<close>
  "list_flows now days limit page per_page ctx db =
     take (nat (fst (paginate limit 0 page per_page 500)))
       (sort_key (\<lambda>(k, f). - int (fl_plaintext (fw_flow f)))
         (filter (\<lambda>(k, f). case days of None \<Rightarrow> True
                  | Some n \<Rightarrow> 0 < fl_plaintext (fw_flow f) \<and> now - 86400 * real n \<le> fl_last_seen (fw_flow f))
           (own_flows (c_org_id ctx) db)))"

definition flow_history ::
  "time \<Rightarrow> string \<Rightarrow> nat \<Rightarrow> auth_ctx \<Rightarrow> tables \<Rightarrow> http_error + (flow \<times> (time \<times> string option \<times> string option) list)" where
  \<comment> \<open>both hosts of the flow occur somewhere in the text of the five-tuple\<close>
  "flow_history now fid days ctx db =
     (case dget (tb_flows db) fid of
        None \<Rightarrow> Inl (HTTPException 404 ''Flow not found'')
      | Some f \<Rightarrow>
          if fw_org_id f \<noteq> Some (c_org_id ctx) then Inl (HTTPException 404 ''Flow not found'')
          else Inr (fw_flow f, sort_key fst (List.map_filter (\<lambda>(k, s).
                 case sx_created_at s of
                   None \<Rightarrow> None
                 | Some t \<Rightarrow>
                     if t < now - 86400 * real days \<or> \<not> contains (fl_client_host (fw_flow f)) (sx_five_tuple s)
                        \<or> \<not> contains (fl_server_host (fw_flow f)) (sx_five_tuple s) then None
                     else Some (t, sx_tls_version s, sx_cipher s)) (own_sessions (c_org_id ctx) db))))"

definition list_alerts :: "nat \<Rightarrow> auth_ctx \<Rightarrow> tables \<Rightarrow> (string \<times> alert_row) list" where
  "list_alerts limit ctx db =
     take limit (rev (sort_key (\<lambda>(k, a). ar_ts a) (filter (\<lambda>(k, a). ar_org_id a = Some (c_org_id ctx)) (tb_alerts db))))"

definition remediation_verified :: "string \<Rightarrow> bool" where
  \<comment> \<open>the rules with a snippet; the snippets themselves are text\<close>
  "remediation_verified rule \<longleftrightarrow>
     rule \<in> {''tls-version-tls1-0'', ''tls-version-tls1-1'', ''plaintext-mail-protocol'', ''weak-cipher-suite'', ''rc4-cipher'',
             ''non-aead-bulk-cipher'', ''starttls-strip-attempt''}"

record explanation =
  ex_alert :: alert_row
  ex_rule :: string
  ex_rationale :: "string \<times> string \<times> string"
  ex_remediation :: bool
  ex_owner :: "string option"
  ex_channel :: "string option"

definition explain_alert ::
  "(string \<Rightarrow> (string \<times> string \<times> string) option) \<Rightarrow> string \<Rightarrow> auth_ctx \<Rightarrow> tables \<Rightarrow> http_error + explanation" where
  \<comment> \<open>\<open>catalog\<close> holds title, description and reference of the rules that the rule catalog lists\<close>
  "explain_alert catalog i ctx db =
     (case dget (tb_alerts db) i of
        None \<Rightarrow> Inl (HTTPException 404 ''Alert not found'')
      | Some a \<Rightarrow>
          if ar_org_id a \<noteq> Some (c_org_id ctx) then Inl (HTTPException 404 ''Alert not found'')
          else (let rule = (case ar_rule_id a of None \<Rightarrow> ''unknown'' | Some r \<Rightarrow> if r = '''' then ''unknown'' else r)
                in Inr \<lparr>ex_alert = a, ex_rule = rule,
                     ex_rationale = (case catalog rule of None \<Rightarrow> (ar_title a, '''', '''') | Some c \<Rightarrow> c),
                     ex_remediation = remediation_verified rule, ex_owner = ar_owner a, ex_channel = ar_channel a\<rparr>))"

section \<open>Summaries\<close>

fun chunks :: "nat \<Rightarrow> nat \<Rightarrow> 'a list \<Rightarrow> (nat \<times> 'a list) list" where
  "chunks at' n xs = (if xs = [] \<or> n = 0 then [] else (at', take n xs) # chunks (at' + n) n (drop n xs))"

declare chunks.simps [simp del]

definition fleet_trend :: "auth_ctx \<Rightarrow> tables \<Rightarrow> (nat \<times> real) list" where
  "fleet_trend ctx db =
     (let scores = List.map_filter (\<lambda>(k, s). sx_risk_score s) (own_sessions (c_org_id ctx) db)
      in map (\<lambda>(i, c). (i, round_to 1 (mean c))) (chunks 0 (max 1 (length scores div 20)) scores))"

definition stats :: "auth_ctx \<Rightarrow> tables \<Rightarrow> nat \<times> (string, nat) dict" where
  "stats ctx db =
     (let own = filter (\<lambda>(k, j). jb_org_id j = Some (c_org_id ctx)) (tb_jobs db)
      in (length own, fold bump (map (jb_status \<circ> snd) own) []))"

record pq_flow =
  pq_server :: string
  pq_total :: nat
  pq_negotiated :: nat
  pq_not_selected :: nat

definition count_pq :: "seen_session \<Rightarrow> (string, pq_flow) dict \<Rightarrow> (string, pq_flow) dict" where
  "count_pq s d =
     (case flow_endpoints (sx_five_tuple s) of (client, server, port) \<Rightarrow>
        let key = client @ ''->'' @ server @ '':'' @ dec_int port;
            q = dget_or d key \<lparr>pq_server = server, pq_total = 0, pq_negotiated = 0, pq_not_selected = 0\<rparr>;
            q = q\<lparr>pq_total := pq_total q + 1\<rparr>
        in dset key (if sx_pq_negotiated s then q\<lparr>pq_negotiated := pq_negotiated q + 1\<rparr>
                     else if sx_pq_offered s then q\<lparr>pq_not_selected := pq_not_selected q + 1\<rparr> else q) d)"

definition appears_unable :: "pq_flow \<Rightarrow> bool" where
  "appears_unable q \<longleftrightarrow> pq_negotiated q = 0 \<and> 0 < pq_not_selected q"

definition pq_share :: "pq_flow \<Rightarrow> real" where
  "pq_share q = round_to 3 (real (pq_negotiated q) / real (pq_total q))"

definition quantum_posture :: "auth_ctx \<Rightarrow> tables \<Rightarrow> (string \<times> pq_flow) list" where
  "quantum_posture ctx db =
     (let out = fold count_pq (map snd (own_sessions (c_org_id ctx) db)) []
      in sort_key (\<lambda>(k, q). appears_unable q) (sort_key (\<lambda>(k, q). pq_share q) out))"

subsection \<open>Compliance\<close>

record tag =
  tg_framework :: string
  tg_control :: string

record control_group =
  cg_tag :: tag
  cg_count :: nat
  cg_severities :: "(string, nat) dict"
  cg_rules :: "string list"

type_synonym mapping = "(string \<times> tag list) list"

definition compliance_for :: "mapping \<Rightarrow> string \<Rightarrow> tag list" where
  "compliance_for mp rule = concat (map snd (filter (\<lambda>(pat, tags). glob pat rule) mp))"

definition group_key :: "tag \<Rightarrow> string" where
  "group_key t = tg_framework t @ '':'' @ tg_control t"

definition count_tag :: "string \<Rightarrow> string \<Rightarrow> tag \<Rightarrow> (string, control_group) dict \<Rightarrow> (string, control_group) dict" where
  "count_tag rule sev t d =
     (let g = dget_or d (group_key t) \<lparr>cg_tag = t, cg_count = 0, cg_severities = [], cg_rules = []\<rparr>
      in dset (group_key t) (g\<lparr>cg_count := cg_count g + 1, cg_severities := bump sev (cg_severities g),
           cg_rules := List.insert rule (cg_rules g)\<rparr>) d)" \<comment> \<open>the code sorts the rules in the end\<close>

definition tags_of :: "mapping \<Rightarrow> string option \<Rightarrow> string \<Rightarrow> tag list" where
  "tags_of mp framework rule = filter (\<lambda>t. selects framework (tg_framework t)) (compliance_for mp rule)"

definition count_finding ::
  "mapping \<Rightarrow> string option \<Rightarrow> string \<times> severity \<Rightarrow> (string, control_group) dict \<times> nat \<Rightarrow> (string, control_group) dict \<times> nat" where
  "count_finding mp framework f st =
     (case tags_of mp framework (fst f) of
        [] \<Rightarrow> (fst st, snd st + 1)
      | ts \<Rightarrow> (fold (count_tag (fst f) (sev_str (snd f))) ts (fst st), snd st))"

definition summary_for_findings ::
  "mapping \<Rightarrow> string option \<Rightarrow> (string \<times> severity) list \<Rightarrow> control_group list \<times> nat" where
  \<comment> \<open>the groups, largest first, and the findings without a control\<close>
  "summary_for_findings mp framework fs =
     (let (groups, uncovered) = fold (count_finding mp framework) fs ([], 0)
      in (sort_key (\<lambda>g. - int (cg_count g)) (map snd groups), uncovered))"

fun split_suppressed ::
  "time \<Rightarrow> bool \<Rightarrow> suppression list \<Rightarrow> (nat \<times> seen_finding \<times> seen_session) list \<Rightarrow> http_error + ((string \<times> severity) list \<times> nat)" where
  \<comment> \<open>the findings that count, and the number of accepted risks\<close>
  "split_suppressed now include sups [] = Inr ([], 0)"
| "split_suppressed now include sups ((k, f, s) # rows) =
     (case match_suppression now (fx_rule_id f) (tuple_event (sx_five_tuple s)) sups of
        None \<Rightarrow> Inl (Uncaught (RuntimeError [''AttributeError'']))
      | Some m \<Rightarrow>
          bindR (split_suppressed now include sups rows) (\<lambda>(live, accepted).
            Inr (if m \<noteq> None \<and> \<not> include then (live, accepted + 1) else ((fx_rule_id f, fx_severity f) # live, accepted))))"

definition compliance_summary ::
  "mapping \<Rightarrow> string list \<Rightarrow> time \<Rightarrow> string option \<Rightarrow> bool \<Rightarrow> auth_ctx \<Rightarrow> tables \<Rightarrow>
   http_error + ((control_group list \<times> nat) \<times> nat \<times> (string, nat) dict)" where
  \<comment> \<open>the groups, the accepted risks and the checks that could not be made\<close>
  "compliance_summary mp frameworks now framework include ctx db =
     (if \<not> list_ex (selects framework) frameworks \<and> framework \<noteq> None \<and> framework \<noteq> Some ''''
      then Inl (HTTPException 400 ''Unknown framework'')
      else bindR (split_suppressed now include (approved now (c_org_id ctx) db) (own_findings (c_org_id ctx) db))
        (\<lambda>(live, accepted). Inr (summary_for_findings mp framework live, accepted,
           fold bump (concat (map (sx_not_observable \<circ> snd) (own_sessions (c_org_id ctx) db))) [])))"

subsection \<open>Quality of the rules\<close>

record quality =
  qu_findings :: nat
  qu_alerts :: nat
  qu_labels :: rule_labels
  qu_suppressed :: nat
  qu_tta_hours :: "real list"

definition no_quality :: quality where
  "no_quality = \<lparr>qu_findings = 0, qu_alerts = 0,
     qu_labels = \<lparr>rl_confirmed = 0, rl_false_positive = 0, rl_accepted_risk = 0\<rparr>, qu_suppressed = 0, qu_tta_hours = []\<rparr>"

definition on_rule :: "string \<Rightarrow> (quality \<Rightarrow> quality) \<Rightarrow> (string, quality) dict \<Rightarrow> (string, quality) dict" where
  "on_rule rule g d = dset rule (g (dget_or d rule no_quality)) d"

definition note_label :: "(nat \<times> seen_finding \<times> seen_session) list \<Rightarrow> feedback \<Rightarrow> quality \<Rightarrow> quality" where
  \<comment> \<open>the label and the hours since the finding\<close>
  "note_label own fb q =
     (let q = q\<lparr>qu_labels := count_label (fb_verdict fb) (qu_labels q)\<rparr>
      in case map_of (map (\<lambda>(k, f, s). (k, fx_created_at f)) own) (fb_finding_id fb) of
           Some (Some t) \<Rightarrow> q\<lparr>qu_tta_hours := qu_tta_hours q @ [round_to 2 ((fb_created_at fb - t) / 3600)]\<rparr>
         | _ \<Rightarrow> q)"

definition qualities :: "time \<Rightarrow> string \<Rightarrow> tables \<Rightarrow> (string, quality) dict" where
  "qualities now o' db =
     (let own = own_findings o' db;
          d = fold (\<lambda>(k, f, s). on_rule (fx_rule_id f) (\<lambda>q. q\<lparr>qu_findings := qu_findings q + 1\<rparr>)) own [];
          d = fold (\<lambda>(k, a). on_rule (case ar_rule_id a of None \<Rightarrow> ''unknown'' | Some r \<Rightarrow> if r = '''' then ''unknown'' else r)
                     (\<lambda>q. q\<lparr>qu_alerts := qu_alerts q + 1\<rparr>))
                (take 5000 (filter (\<lambda>(k, a). ar_org_id a = Some o') (tb_alerts db))) d;
          d = fold (\<lambda>fb. on_rule (fb_rule_id fb) (note_label own fb)) (filter (\<lambda>fb. fb_org_id fb = o') (tb_labels db)) d
      in fold (\<lambda>s. on_rule (sup_rule_id s) (\<lambda>q. q\<lparr>qu_suppressed := qu_suppressed q + 1\<rparr>))
           (filter_active now (filter (\<lambda>s. sup_org_id s = o') (tb_sups db))) d)"

definition median_hours :: "quality \<Rightarrow> real option" where
  "median_hours q = (if qu_tta_hours q = [] then None else Some (sort (qu_tta_hours q) ! (length (qu_tta_hours q) div 2)))"

definition needs_review :: "quality \<Rightarrow> bool" where
  "needs_review q \<longleftrightarrow> 10 \<le> qu_alerts q \<and> rl_confirmed (qu_labels q) + rl_false_positive (qu_labels q) = 0"

definition alert_quality ::
  "time \<Rightarrow> auth_ctx \<Rightarrow> tables \<Rightarrow> http_error + (string \<times> quality \<times> real option \<times> real option \<times> bool) list" where
  \<comment> \<open>busiest rule first, with its precision, the median of the hours and the flag\<close>
  "alert_quality now ctx db =
     bindR (require_roles [ANALYST] ctx) (\<lambda>_. Inr (map (\<lambda>(r, q). (r, q, precision_of (qu_labels q), median_hours q, needs_review q))
       (sort_key (\<lambda>(r, q). - int (qu_alerts q + qu_findings q)) (qualities now (c_org_id ctx) db))))"

section \<open>Queries of a job\<close>

definition job_gate :: "string \<Rightarrow> auth_ctx \<Rightarrow> tables \<Rightarrow> http_error + job" where
  \<comment> \<open>\<open>_get_org_job\<close>\<close>
  "job_gate i ctx db =
     (case dget (tb_jobs db) i of
        None \<Rightarrow> Inl (HTTPException 404 ''Job not found'')
      | Some j \<Rightarrow> guardR (jb_org_id j \<noteq> None \<and> jb_org_id j \<noteq> Some (c_org_id ctx)) (HTTPException 404 ''Job not found'') (Inr j))"

definition job_sessions :: "string \<Rightarrow> tables \<Rightarrow> (string \<times> seen_session) list" where
  "job_sessions i db = filter (\<lambda>(k, s). sx_job_id s = i) (tb_sessions db)"

definition by_risk :: "('a \<Rightarrow> seen_session) \<Rightarrow> 'a list \<Rightarrow> 'a list" where
  \<comment> \<open>\<open>risk_score.desc().nullslast()\<close>\<close>
  "by_risk g xs =
     sort_key (\<lambda>x. - the (sx_risk_score (g x))) (filter (\<lambda>x. sx_risk_score (g x) \<noteq> None) xs)
     @ filter (\<lambda>x. sx_risk_score (g x) = None) xs"

definition get_sessions :: "string \<Rightarrow> auth_ctx \<Rightarrow> tables \<Rightarrow> http_error + (string \<times> seen_session) list" where
  "get_sessions i ctx db = bindR (job_gate i ctx db) (\<lambda>j. Inr (by_risk snd (job_sessions i db)))"

definition job_findings :: "string \<Rightarrow> tables \<Rightarrow> (nat \<times> seen_finding \<times> seen_session) list" where
  "job_findings i db =
     List.map_filter (\<lambda>(k, f). case dget (tb_sessions db) (fx_session_id f) of
        None \<Rightarrow> None | Some s \<Rightarrow> if sx_job_id s = i then Some (k, f, s) else None) (tb_findings db)"

definition get_findings :: "string \<Rightarrow> severity option \<Rightarrow> auth_ctx \<Rightarrow> tables \<Rightarrow> http_error + (nat \<times> seen_finding \<times> seen_session) list" where
  "get_findings i sev ctx db =
     bindR (job_gate i ctx db) (\<lambda>j. Inr (sort_key (\<lambda>(k, f, s). 4 - sev_rank (fx_severity f))
       (by_risk (\<lambda>(k, f, s). s) (filter (\<lambda>(k, f, s). case sev of None \<Rightarrow> True | Some v \<Rightarrow> fx_severity f = v) (job_findings i db)))))"

definition get_shap :: "string \<Rightarrow> auth_ctx \<Rightarrow> tables \<Rightarrow> http_error + shap_row list" where
  "get_shap i ctx db =
     bindR (job_gate i ctx db) (\<lambda>j. Inr (sort_key (\<lambda>r. - \<bar>sp_impact r\<bar>)
       (filter (\<lambda>r. case dget (tb_sessions db) (sp_session_id r) of None \<Rightarrow> False | Some s \<Rightarrow> sx_job_id s = i) (tb_shap db))))"

record fleet =
  ft_total :: nat
  ft_score :: real
  ft_anomalies :: nat
  ft_severities :: "(string, nat) dict"
  ft_tls13 :: nat
  ft_not_observable :: "(string, nat) dict"
  ft_sessions :: "seen_session list"

definition fleet_of :: "seen_session list \<Rightarrow> fleet" where
  "fleet_of ss =
     \<lparr>ft_total = length ss,
      ft_score = (if ss = [] then 0 else round_to 1 (sum_list (map (\<lambda>s. case sx_risk_score s of None \<Rightarrow> 0 | Some r \<Rightarrow> r) ss) / real (length ss))),
      ft_anomalies = length (filter sx_is_anomaly ss),
      ft_severities = fold bump (map (\<lambda>s. case sx_max_severity s of None \<Rightarrow> ''none'' | Some v \<Rightarrow> if v = '''' then ''none'' else v) ss) [],
      ft_tls13 = length (filter sx_tls13 ss), ft_not_observable = fold bump (concat (map sx_not_observable ss)) [],
      ft_sessions = ss\<rparr>"

definition get_fleet_summary :: "string \<Rightarrow> auth_ctx \<Rightarrow> tables \<Rightarrow> http_error + fleet" where
  "get_fleet_summary i ctx db = bindR (job_gate i ctx db) (\<lambda>j. Inr (fleet_of (map snd (job_sessions i db))))"

section \<open>Nobody sees rows of another organisation\<close>

definition own_rows :: "string \<Rightarrow> tables \<Rightarrow> tables" where
  \<comment> \<open>the tables without the rows of all other organisations\<close>
  "own_rows o' db =
     db\<lparr>tb_sessions := filter (\<lambda>(k, s). sx_org_id s = Some o') (tb_sessions db),
        tb_findings := filter (\<lambda>(k, f). finding_session o' db f \<noteq> None) (tb_findings db),
        tb_jobs := filter (\<lambda>(k, j). jb_org_id j = Some o') (tb_jobs db),
        tb_flows := filter (\<lambda>(k, f). fw_org_id f = Some o') (tb_flows db),
        tb_alerts := filter (\<lambda>(k, a). ar_org_id a = Some o') (tb_alerts db),
        tb_audit := filter (\<lambda>a. a_org_id a = o') (tb_audit db),
        tb_labels := filter (\<lambda>fb. fb_org_id fb = o') (tb_labels db),
        tb_sups := filter (\<lambda>s. sup_org_id s = o') (tb_sups db)\<rparr>"

lemma dget_filter:
  "dict_ok d \<Longrightarrow> dget (filter (\<lambda>(k, v). P v) d) k = (case dget d k of None \<Rightarrow> None | Some v \<Rightarrow> if P v then Some v else None)"
proof (induction d)
  case (Cons x d)
  have "k \<notin> fst ` set d \<Longrightarrow> dget (filter (\<lambda>(k, v). P v) d) k = None"
    by (auto simp: map_of_eq_None_iff)
  with Cons show ?case by (cases x) (auto simp: dict_ok_def)
qed simp

lemma map_filter_filter: "(\<And>x. g x \<noteq> None \<Longrightarrow> P x) \<Longrightarrow> List.map_filter g (filter P xs) = List.map_filter g xs"
  by (induction xs) (auto split: option.split)

lemma filter_twice: "filter P (filter P xs) = filter P xs"
  by simp

lemma own_rows_tables [simp]:
  "tb_sessions (own_rows o' db) = filter (\<lambda>(k, s). sx_org_id s = Some o') (tb_sessions db)"
  "tb_findings (own_rows o' db) = filter (\<lambda>(k, f). finding_session o' db f \<noteq> None) (tb_findings db)"
  "tb_jobs (own_rows o' db) = filter (\<lambda>(k, j). jb_org_id j = Some o') (tb_jobs db)"
  "tb_flows (own_rows o' db) = filter (\<lambda>(k, f). fw_org_id f = Some o') (tb_flows db)"
  "tb_alerts (own_rows o' db) = filter (\<lambda>(k, a). ar_org_id a = Some o') (tb_alerts db)"
  "tb_audit (own_rows o' db) = filter (\<lambda>a. a_org_id a = o') (tb_audit db)"
  "tb_labels (own_rows o' db) = filter (\<lambda>fb. fb_org_id fb = o') (tb_labels db)"
  "tb_sups (own_rows o' db) = filter (\<lambda>s. sup_org_id s = o') (tb_sups db)"
  by (simp_all add: own_rows_def)

lemma same_own:
  "own_sessions o' (own_rows o' db) = own_sessions o' db"
  "own_flows o' (own_rows o' db) = own_flows o' db"
  "approved now o' (own_rows o' db) = approved now o' db"
proof -
  have "filter (\<lambda>s. sup_org_id s = o' \<and> sup_status s = ''approved'') (filter (\<lambda>s. sup_org_id s = o') (tb_sups db))
      = filter (\<lambda>s. sup_org_id s = o' \<and> sup_status s = ''approved'') (tb_sups db)"
    unfolding filter_filter by (rule filter_cong) auto
  then show "approved now o' (own_rows o' db) = approved now o' db" by (simp add: approved_def del: filter_filter)
qed (simp_all add: own_sessions_def own_flows_def filter_twice del: filter_filter)

lemma same_findings:
  assumes "dict_ok (tb_sessions db)"
  shows "own_findings o' (own_rows o' db) = own_findings o' db"
proof -
  have s: "finding_session o' (own_rows o' db) f = finding_session o' db f" for f
    using assms by (simp add: finding_session_def dget_filter split: option.split)
  have "List.map_filter (\<lambda>(k, f). map_option (\<lambda>s. (k, f, s)) (finding_session o' db f))
      (filter (\<lambda>(k, f). finding_session o' db f \<noteq> None) (tb_findings db)) = own_findings o' db"
    unfolding own_findings_def by (rule map_filter_filter) auto
  then show ?thesis unfolding own_findings_def s own_rows_tables .
qed

lemma same_qualities: "dict_ok (tb_sessions db) \<Longrightarrow> qualities now o' (own_rows o' db) = qualities now o' db"
  by (simp add: qualities_def same_findings Let_def filter_twice del: filter_filter)

lemma same_lookups:
  assumes "dict_ok (tb_flows db)" "dict_ok (tb_alerts db)"
  shows "flow_history now fid days ctx (own_rows (c_org_id ctx) db) = flow_history now fid days ctx db"
    "explain_alert catalog i ctx (own_rows (c_org_id ctx) db) = explain_alert catalog i ctx db"
  using assms
  by (auto simp: flow_history_def explain_alert_def dget_filter same_own split: option.split)


definition jobs_owned :: "tables \<Rightarrow> bool" where
  \<comment> \<open>the sessions of a job belong to the organisation of the job or to nobody\<close>
  "jobs_owned db \<longleftrightarrow> dict_ok (tb_sessions db) \<and>
     list_all (\<lambda>(k, s). case dget (tb_jobs db) (sx_job_id s) of None \<Rightarrow> True
       | Some j \<Rightarrow> sx_org_id s = None \<or> sx_org_id s = jb_org_id j) (tb_sessions db)"

lemma set_by_risk [simp]: "set (by_risk g xs) = set xs"
  by (auto simp: by_risk_def)

lemma job_gate_owned: "job_gate i ctx db = Inr j \<Longrightarrow> dget (tb_jobs db) i = Some j \<and> jb_org_id j \<in> {None, Some (c_org_id ctx)}"
  by (auto simp: job_gate_def guardR_eq_Inr split: option.splits)

lemma job_session_owned:
  assumes "jobs_owned db" "job_gate i ctx db = Inr j" "(k, s) \<in> set (job_sessions i db)"
  shows "sx_org_id s \<in> {None, Some (c_org_id ctx)}"
  using assms job_gate_owned [OF assms(2)] by (fastforce simp: jobs_owned_def job_sessions_def list_all_iff)

lemma job_finding_session: "(k, f, s) \<in> set (job_findings i db) \<Longrightarrow> (fx_session_id f, s) \<in> set (job_sessions i db)"
  by (auto simp: job_findings_def job_sessions_def set_map_filter split: option.splits if_splits dest!: map_of_SomeD)

text \<open>The queries of a job show only sessions and findings of the organisation of the user or of nobody, as long as the
  sessions of a job belong to the organisation of the job.\<close>

theorem job_reads_own:
  assumes "jobs_owned db"
  shows "(\<forall>rows. get_sessions i ctx db = Inr rows \<longrightarrow> list_all (\<lambda>(k, s). sx_org_id s \<in> {None, Some (c_org_id ctx)}) rows) \<and>
    (\<forall>rows. get_findings i sev ctx db = Inr rows \<longrightarrow> list_all (\<lambda>(k, f, s). sx_org_id s \<in> {None, Some (c_org_id ctx)}) rows) \<and>
    (\<forall>fl. get_fleet_summary i ctx db = Inr fl \<longrightarrow> list_all (\<lambda>s. sx_org_id s \<in> {None, Some (c_org_id ctx)}) (ft_sessions fl))"
proof (intro conjI allI impI)
  fix rows assume "get_sessions i ctx db = Inr rows"
  then show "list_all (\<lambda>(k, s). sx_org_id s \<in> {None, Some (c_org_id ctx)}) rows"
    using job_session_owned [OF assms] by (fastforce simp: get_sessions_def bindR_eq_Inr list_all_iff)
next
  fix rows assume "get_findings i sev ctx db = Inr rows"
  then show "list_all (\<lambda>(k, f, s). sx_org_id s \<in> {None, Some (c_org_id ctx)}) rows"
    using job_session_owned [OF assms] job_finding_session by (fastforce simp: get_findings_def bindR_eq_Inr list_all_iff)
next
  fix fl assume "get_fleet_summary i ctx db = Inr fl"
  then show "list_all (\<lambda>s. sx_org_id s \<in> {None, Some (c_org_id ctx)}) (ft_sessions fl)"
    using job_session_owned [OF assms] by (fastforce simp: get_fleet_summary_def bindR_eq_Inr list_all_iff fleet_of_def)
qed

section \<open>Where the answers mislead\<close>

text \<open>Every page of the flows is the first one.\<close>

lemma flows_page_ignored:
  "1 \<le> n \<Longrightarrow> n \<le> 500 \<Longrightarrow> list_flows now days limit (Some (int k)) (Some n) ctx db = list_flows now days limit (Some 1) (Some n) ctx db"
  by (simp add: list_flows_def paginate_def Let_def)

text \<open>A job without organisation shows the sessions of every organisation to everybody.\<close>

lemma unowned_job_leaks:
  assumes "dget (tb_jobs db) i = Some j" "jb_org_id j = None" "(k, s) \<in> set (tb_sessions db)" "sx_job_id s = i"
  shows "\<exists>rows. get_sessions i ctx db = Inr rows \<and> (k, s) \<in> set rows"
  using assms by (simp add: get_sessions_def job_gate_def job_sessions_def)

text \<open>The history of a flow takes the sessions of other hosts whose address contains the one of the flow.\<close>

lemma history_by_substring:
  "contains ''10.0.0.1'' ''10.0.0.17:4000->10.0.0.25:25'' \<and> contains ''10.0.0.2'' ''10.0.0.17:4000->10.0.0.25:25''"
  by code_simp

section \<open>Instances\<close>

definition demo_seen :: "string \<Rightarrow> string \<Rightarrow> seen_session" where
  "demo_seen org job = \<lparr>sx_org_id = Some org, sx_job_id = job, sx_protocol = ''SMTP'', sx_five_tuple = ''a:1->b:25'', sx_is_starttls = False,
     sx_tls_version = None, sx_strength = None, sx_chain_valid = None,
     sx_cipher = None, sx_risk_score = Some 50, sx_is_anomaly = False, sx_max_severity = None, sx_created_at = None,
     sx_fingerprints = [], sx_not_observable = [], sx_tls13 = False, sx_pq_negotiated = False, sx_pq_offered = False\<rparr>"

definition demo_job :: job where
  "demo_job = \<lparr>jb_org_id = Some ''a'', jb_filename = ''f'', jb_status = ''completed'', jb_file_size = 1, jb_legal_hold = False,
     jb_created_at = 0\<rparr>"

definition demo_reads :: tables where
  "demo_reads = \<lparr>tb_sessions = [(''s'', demo_seen ''a'' ''j''), (''t'', demo_seen ''b'' ''k'')], tb_findings = [], tb_shap = [],
     tb_jobs = [(''j'', demo_job)], tb_flows = [], tb_alerts = [], tb_audit = [], tb_labels = [], tb_sups = []\<rparr>"


lemma job_reads_own_witness:
  "\<exists>rows. get_sessions ''j'' (demo_ctx ''a'' ANALYST) demo_reads = Inr rows \<and> rows \<noteq> [] \<and>
     list_all (\<lambda>(k, s). sx_org_id s \<in> {None, Some ''a''}) rows"
proof -
  have "jobs_owned demo_reads" by (simp add: jobs_owned_def demo_reads_def dict_ok_def demo_seen_def demo_job_def)
  moreover have "\<exists>rows. get_sessions ''j'' (demo_ctx ''a'' ANALYST) demo_reads = Inr rows \<and> rows \<noteq> []"
    by (simp add: get_sessions_def job_gate_def demo_reads_def demo_job_def demo_ctx_def job_sessions_def demo_seen_def by_risk_def)
  ultimately show ?thesis using job_reads_own [of demo_reads "''j''" "demo_ctx ''a'' ANALYST"] by (auto simp: demo_ctx_def)
qed

end
