(* ===== verification/Reports.thy ===== *)
theory Reports
  imports Reads Evidence
begin

text \<open>
  Reports (src/backend/app/reporting/generator.py) and the two downloads of a job in
  src/backend/app/api/main.py: the structured report of analysed sessions, the report that is rebuilt from the
  tables, and the evidence bundle over it. The prose of a finding (description and reference) is a function of the
  finding and a parameter, and so are the HTML template and the PDF library.
\<close>

section \<open>The structured report\<close>

record report_score =
  rc_posture :: real
  rc_anomaly :: bool
  rc_shap :: "(string \<times> real \<times> real) list"

definition score_of :: "scored \<Rightarrow> report_score" where
  "score_of sd = \<lparr>rc_posture = of_int (sd_posture sd), rc_anomaly = sd_anomaly sd, rc_shap = sd_shap sd\<rparr>"

record finding_entry =
  fe_rule_id :: string
  fe_severity :: severity
  fe_title :: string
  fe_prose :: "string \<times> string"
  fe_session :: string

record session_entry =
  se_five_tuple :: string
  se_protocol :: string
  se_tls_version :: "string option"
  se_cipher :: "string option"
  se_chain_result :: string
  se_posture :: int
  se_anomaly :: bool
  se_max_severity :: string

record pq_counts =
  pc_seen :: nat
  pc_negotiated :: nat
  pc_not_selected :: nat

record report_data =
  rd_generated_at :: string
  rd_filename :: string
  rd_total_sessions :: nat
  rd_total_findings :: nat
  rd_severities :: "(string, nat) dict"
  rd_fleet_score :: int
  rd_sessions :: "session_entry list"
  rd_findings :: "finding_entry list"
  rd_shap :: "(string \<times> real \<times> (string \<times> real \<times> real) list) list"
  rd_tls13 :: nat
  rd_not_observable :: "(string, nat) dict"
  rd_pq :: pq_counts
  rd_limitations :: "string list"

definition int_cut :: "real \<Rightarrow> int" where
  \<comment> \<open>\<open>int(x)\<close> cuts towards zero\<close>
  "int_cut x = (if 0 \<le> x then \<lfloor>x\<rfloor> else \<lceil>x\<rceil>)"

definition finding_entries :: "(finding \<Rightarrow> string \<times> string) \<Rightarrow> session_analysis list \<Rightarrow> finding_entry list" where
  "finding_entries prose sas =
     concat (map (\<lambda>sa. map (\<lambda>f. \<lparr>fe_rule_id = f_rule_id f, fe_severity = f_severity f, fe_title = f_title f,
       fe_prose = prose f, fe_session = sa_five_tuple sa\<rparr>) (sa_findings sa)) sas)"

definition severity_counts :: "finding_entry list \<Rightarrow> (string, nat) dict" where
  "severity_counts fes =
     fold bump (map (sev_str \<circ> fe_severity) fes) [(''critical'', 0), (''high'', 0), (''medium'', 0), (''low'', 0), (''info'', 0)]"

definition score_at :: "report_score list \<Rightarrow> nat \<Rightarrow> report_score option" where
  "score_at scores i = (if i < length scores then Some (scores ! i) else None)"

definition session_entry_of :: "session_analysis \<Rightarrow> report_score option \<Rightarrow> session_entry" where
  "session_entry_of sa sc =
     \<lparr>se_five_tuple = sa_five_tuple sa, se_protocol = sa_protocol sa, se_tls_version = version_name (sa_tls_version sa),
      se_cipher = sa_cipher sa, se_chain_result = sa_chain_result sa,
      se_posture = (case sc of None \<Rightarrow> 0 | Some c \<Rightarrow> int_cut (rc_posture c)),
      se_anomaly = (case sc of None \<Rightarrow> False | Some c \<Rightarrow> rc_anomaly c),
      se_max_severity = (case max_severity (sa_findings sa) of None \<Rightarrow> ''none'' | Some v \<Rightarrow> sev_str v)\<rparr>"

definition session_entries :: "session_analysis list \<Rightarrow> report_score list \<Rightarrow> session_entry list" where
  "session_entries sas scores = map (\<lambda>i. session_entry_of (sas ! i) (score_at scores i)) [0..<length sas]"

definition shap_details :: "session_analysis list \<Rightarrow> report_score list \<Rightarrow> (string \<times> real \<times> (string \<times> real \<times> real) list) list" where
  "shap_details sas scores =
     map (\<lambda>(sa, c). (sa_five_tuple sa, rc_posture c, take 10 (rc_shap c))) (filter (\<lambda>(sa, c). rc_shap c \<noteq> []) (zip sas scores))"

definition tls13_count :: "session_analysis list \<Rightarrow> nat" where
  "tls13_count sas = length (filter (\<lambda>sa. case sa_visibility sa of None \<Rightarrow> False | Some v \<Rightarrow> v_tls13 v) sas)"

definition pq_counts_of :: "session_analysis list \<Rightarrow> pq_counts" where
  "pq_counts_of sas =
     (let ps = List.map_filter sa_pq sas
      in \<lparr>pc_seen = length ps, pc_negotiated = length (filter pq_negotiated_pq ps),
          pc_not_selected = length (filter (\<lambda>p. \<not> pq_negotiated_pq p \<and> pq_offered_pq p) ps)\<rparr>)"

definition passive_limit :: string where
  "passive_limit =
     ''Passive visibility limit: a capture point downstream of an on-path '' @
     ''STARTTLS strip cannot see the original offer. Absence of TLS is '' @
     ''reported with any plaintext-continuation evidence; stripping is '' @
     ''alleged only when the offer itself is on the wire.''"

definition tls13_limit :: "nat \<Rightarrow> string" where
  "tls13_limit n =
     dec_of n @ '' TLS 1.3 session(s): certificate contents are '' @
     ''encrypted on the wire and not passively observable. Certificate '' @
     ''rules report not-observable (never pass/fail) for these sessions; '' @
     ''use `cipherpost probe host:port` (authorized hosts only) to record '' @
     ''their chains out-of-band.''"

definition skipped_limit :: "(string, nat) dict \<Rightarrow> string" where
  "skipped_limit d =
     ''Skipped for lack of observed data: ''
     @ join '', '' (map (\<lambda>k. k @ '' x'' @ dec_of (dget_or d k 0)) (sorted_texts (map fst d))) @ ''.''"

definition limitations :: "nat \<Rightarrow> (string, nat) dict \<Rightarrow> string list" where
  "limitations n d =
     [passive_limit] @ (if n = 0 then [] else [tls13_limit n]) @ (if d = [] then [] else [skipped_limit d])"

definition build_report_data ::
  "(finding \<Rightarrow> string \<times> string) \<Rightarrow> string \<Rightarrow> session_analysis list \<Rightarrow> report_score list \<Rightarrow> string \<Rightarrow> report_data" where
  "build_report_data prose stamp sas scores filename =
     (let fes = finding_entries prose sas; rows = session_entries sas scores;
          unseen = fold bump (concat (map sa_not_observable sas)) []
      in \<lparr>rd_generated_at = stamp, rd_filename = filename, rd_total_sessions = length sas, rd_total_findings = length fes,
          rd_severities = severity_counts fes,
          rd_fleet_score = int_cut (of_int (sum_list (map se_posture rows)) / real (max 1 (length rows))),
          rd_sessions = rows, rd_findings = sort_key (\<lambda>f. 4 - sev_rank (fe_severity f)) fes,
          rd_shap = shap_details sas scores, rd_tls13 = tls13_count sas, rd_not_observable = unseen,
          rd_pq = pq_counts_of sas, rd_limitations = limitations (tls13_count sas) unseen\<rparr>)"

section \<open>The report of a stored job\<close>

definition version_hex :: "string option \<Rightarrow> nat option" where
  "version_hex v =
     (case v of
        None \<Rightarrow> None
      | Some s \<Rightarrow> map_of [(''SSLv3'', 0x0300), (''TLS 1.0'', 0x0301), (''TLS 1.1'', 0x0302), (''TLS 1.2'', 0x0303), (''TLS 1.3'', 0x0304)] s)"

definition stored_finding :: "seen_finding \<Rightarrow> finding" where
  "stored_finding f =
     \<lparr>f_rule_id = fx_rule_id f, f_rule_name = fx_rule_name f, f_severity = fx_severity f, f_title = fx_title f, f_evidence = []\<rparr>"

definition stored_analysis :: "tables \<Rightarrow> string \<Rightarrow> seen_session \<Rightarrow> session_analysis" where
  \<comment> \<open>everything else has its default: no visibility, nothing unobservable, no post-quantum posture\<close>
  "stored_analysis db sid s =
     (new_analysis sid (sx_protocol s) (sx_five_tuple s) (sx_is_starttls s))
       \<lparr>sa_tls_version := version_hex (sx_tls_version s), sa_cipher := sx_cipher s, sa_cipher_strength := sx_strength s,
        sa_chain_result := (if sx_chain_valid s = Some True then ''ok'' else ''untrusted''),
        sa_findings := map (stored_finding \<circ> snd) (filter (\<lambda>(k, f). fx_session_id f = sid) (tb_findings db))\<rparr>"

definition stored_score :: "seen_session \<Rightarrow> report_score" where
  "stored_score s =
     \<lparr>rc_posture = (case sx_risk_score s of None \<Rightarrow> 0 | Some r \<Rightarrow> r), rc_anomaly = sx_is_anomaly s, rc_shap = []\<rparr>"

definition load_analysis :: "string \<Rightarrow> tables \<Rightarrow> session_analysis list \<times> report_score list" where
  \<comment> \<open>\<open>_load_analysis_from_db\<close>\<close>
  "load_analysis i db =
     (map (\<lambda>(sid, s). stored_analysis db sid s) (job_sessions i db), map (\<lambda>(sid, s). stored_score s) (job_sessions i db))"

definition text_or_null :: "string option \<Rightarrow> jval" where
  "text_or_null v = (case v of None \<Rightarrow> JNull | Some s \<Rightarrow> JStr s)"

definition session_claims :: "session_entry \<Rightarrow> claims" where
  "session_claims e =
     [(''five_tuple'', JStr (se_five_tuple e)), (''protocol'', JStr (se_protocol e)), (''tls_version'', text_or_null (se_tls_version e)),
      (''cipher'', text_or_null (se_cipher e)), (''chain_result'', JStr (se_chain_result e)), (''posture'', JInt (se_posture e)),
      (''anomaly'', JBool (se_anomaly e)), (''max_severity'', JStr (se_max_severity e))]"

definition finding_claims :: "finding_entry \<Rightarrow> claims" where
  "finding_claims f =
     [(''rule_id'', JStr (fe_rule_id f)), (''severity'', JStr (sev_str (fe_severity f))), (''title'', JStr (fe_title f)),
      (''description'', JStr (fst (fe_prose f))), (''reference'', JStr (snd (fe_prose f))), (''session'', JStr (fe_session f))]"

definition report_of :: "report_data \<Rightarrow> report" where
  \<comment> \<open>what \<open>build_bundle\<close> reads of the dictionary\<close>
  "report_of rd =
     \<lparr>rp_filename = rd_filename rd, rp_generated_at = rd_generated_at rd, rp_sessions = map session_claims (rd_sessions rd),
      rp_findings = map finding_claims (rd_findings rd), rp_limitations = rd_limitations rd\<rparr>"

record report_env =
  re_prose :: "finding \<Rightarrow> string \<times> string"
  re_stamp :: string
  re_now :: time
  re_audit_ok :: bool
  re_session_days :: int
  re_tool :: string
  re_mapping :: string

definition note_export :: "report_env \<Rightarrow> auth_ctx \<Rightarrow> string \<Rightarrow> string \<Rightarrow> tables \<Rightarrow> tables" where
  "note_export en ctx action resource db =
     (if re_audit_ok en
      then db\<lparr>tb_audit := tb_audit db @ [\<lparr>a_org_id = c_org_id ctx, a_actor = c_email ctx, a_action = action, a_resource = resource\<rparr>]\<rparr>
      else db)"

definition completed_job :: "string \<Rightarrow> auth_ctx \<Rightarrow> tables \<Rightarrow> http_error + job" where
  "completed_job i ctx db =
     bindR (job_gate i ctx db) (\<lambda>j. guardR (jb_status j \<noteq> ''completed'') (HTTPException 409 ''Job not yet completed'') (Inr j))"

definition job_report :: "report_env \<Rightarrow> string \<Rightarrow> string \<Rightarrow> tables \<Rightarrow> report_data" where
  "job_report en i filename db =
     (case load_analysis i db of (sas, scores) \<Rightarrow> build_report_data (re_prose en) (re_stamp en) sas scores filename)"

definition evidence_of :: "report_env \<Rightarrow> string \<Rightarrow> string \<Rightarrow> auth_ctx \<Rightarrow> tables \<Rightarrow> evidence_bundle" where
  "evidence_of en i filename ctx db =
     build_bundle (report_of (job_report en i filename db))
       (map (\<lambda>s. [(''rule_id'', JStr (sup_rule_id s)), (''reason'', JStr (sup_reason s))]) (approved (re_now en) (c_org_id ctx) db))
       [(''sessions_days'', JInt (re_session_days en)), (''legal_hold'', JBool False)]
       [(''tool'', JStr (re_tool en)), (''rules'', JStr ''static''), (''mapping'', JStr (re_mapping en))]"

definition get_evidence :: "report_env \<Rightarrow> string \<Rightarrow> auth_ctx \<Rightarrow> tables \<Rightarrow> (http_error + evidence_bundle) \<times> tables" where
  "get_evidence en i ctx db =
     (case completed_job i ctx db of
        Inl err \<Rightarrow> (Inl err, db)
      | Inr j \<Rightarrow>
          (Inr (evidence_of en i (jb_filename j) ctx db), note_export en ctx ''report.evidence'' (jb_filename j) db))"

datatype 'a download = Html_Download 'a | Json_Download 'a | Pdf_Download 'a

definition get_report ::
  "report_env \<Rightarrow> (string \<Rightarrow> report_data \<Rightarrow> 'a option) \<Rightarrow> string \<Rightarrow> string \<Rightarrow> auth_ctx \<Rightarrow> tables \<Rightarrow> (string \<times> string, 'a) dict \<Rightarrow>
   (http_error + 'a download) \<times> tables \<times> (string \<times> string, 'a) dict" where
  \<comment> \<open>\<open>render\<close> makes the text of a format, \<open>None\<close> when the PDF library fails; the last argument holds the written files\<close>
  "get_report en render i fmt ctx db files =
     (if fmt \<notin> {''json'', ''html'', ''pdf''} then (Inl (HTTPException 400 ''Format must be json, html, or pdf''), db, files)
      else (case completed_job i ctx db of
        Inl err \<Rightarrow> (Inl err, db, files)
      | Inr j \<Rightarrow>
          (let db' = note_export en ctx ''report.export'' (jb_filename j) db;
               as_download = (if fmt = ''html'' then Html_Download else if fmt = ''json'' then Json_Download else Pdf_Download)
           in case dget files (i, fmt) of
                Some x \<Rightarrow> (Inr (as_download x), db', files)
              | None \<Rightarrow>
                  (case render fmt (job_report en i (jb_filename j) db') of
                     None \<Rightarrow> (Inl (HTTPException 500 ''PDF generation failed (WeasyPrint unavailable)''), db', files)
                   | Some x \<Rightarrow> (Inr (as_download x), db', dset (i, fmt) x files)))))"

section \<open>The report adds up\<close>

lemma bump_total: "sum_list (map snd (bump k d)) = sum_list (map snd d) + 1"
proof -
  have "sum_list (map snd (dset k v d)) + dget_or d k 0 = sum_list (map snd d) + v" for v
    by (induction d) (auto simp: dget_or_def)
  from this [of "dget_or d k 0 + 1"] show ?thesis by (simp add: bump_def)
qed

lemma fold_bump_total: "sum_list (map snd (fold bump ks d)) = sum_list (map snd d) + length ks"
  by (induction ks arbitrary: d) (simp_all add: bump_total)

lemma bump_counts: "dget_or (fold bump ks d) k 0 = dget_or d k 0 + count_list ks k"
  by (induction ks arbitrary: d) (auto simp: bump_def dget_or_def)

lemma session_entries_sound:
  "length (session_entries sas scores) = length sas"
  "map se_five_tuple (session_entries sas scores) = map sa_five_tuple sas"
  by (simp add: session_entries_def)
    (rule nth_equalityI, simp_all add: session_entries_def session_entry_of_def)

lemma int_cut_bounds: "0 \<le> x \<Longrightarrow> x \<le> 100 \<Longrightarrow> 0 \<le> int_cut x \<and> int_cut x \<le> 100"
  by (simp add: int_cut_def floor_le_iff)

lemma posture_bounds:
  assumes "list_all (\<lambda>c. 0 \<le> rc_posture c \<and> rc_posture c \<le> 100) scores" "e \<in> set (session_entries sas scores)"
  shows "0 \<le> se_posture e \<and> se_posture e \<le> 100"
proof -
  obtain i where e: "e = session_entry_of (sas ! i) (score_at scores i)"
    using assms(2) by (auto simp: session_entries_def)
  show ?thesis
  proof (cases "i < length scores")
    case True
    with assms(1) have "0 \<le> rc_posture (scores ! i) \<and> rc_posture (scores ! i) \<le> 100" by (auto simp: list_all_length)
    with True show ?thesis by (simp add: e session_entry_of_def score_at_def int_cut_bounds)
  qed (simp add: e session_entry_of_def score_at_def)
qed

lemma sum_bounds: "(\<And>x. x \<in> set xs \<Longrightarrow> 0 \<le> x \<and> x \<le> (100 :: int)) \<Longrightarrow> 0 \<le> sum_list xs \<and> sum_list xs \<le> 100 * int (length xs)"
proof (induction xs)
  case (Cons x xs)
  from Cons.IH Cons.prems have "0 \<le> sum_list xs \<and> sum_list xs \<le> 100 * int (length xs)" "0 \<le> x \<and> x \<le> 100" by simp_all
  then show ?case by simp
qed simp


section \<open>What the evidence leaves out\<close>

text \<open>The names under which versions are stored are not the ones that are read back.\<close>

lemma version_not_read_back: "version_hex (version_name v) = None"
  by (auto simp: version_name_def tls_version_names_def version_hex_def split: option.splits)

lemma version_name_None: "version_name None = None"
  by (simp add: version_name_def)

lemma stored_analysis_blank:
  "sa_visibility (stored_analysis db sid s) = None" "sa_not_observable (stored_analysis db sid s) = []"
  "sa_pq (stored_analysis db sid s) = None" "sa_chain_result (stored_analysis db sid s) \<in> {''ok'', ''untrusted''}"
  "sa_tls_version (stored_analysis db sid s) = version_hex (sx_tls_version s)"
  by (simp_all add: stored_analysis_def new_analysis_def)

lemma job_report_limits: "rd_limitations (job_report en i filename db) = [passive_limit]"
proof -
  define sas where "sas = map (\<lambda>(sid, s). stored_analysis db sid s) (job_sessions i db)"
  have "sa_not_observable sa = [] \<and> sa_visibility sa = None" if "sa \<in> set sas" for sa
    using that by (auto simp: sas_def stored_analysis_blank)
  then have "tls13_count sas = 0" "concat (map sa_not_observable sas) = []"
    by (auto simp: tls13_count_def filter_empty_conv)
  then show ?thesis
    by (simp add: job_report_def load_analysis_def build_report_data_def Let_def limitations_def sas_def [symmetric] del: concat_eq_Nil_conv)
qed

lemma job_report_rows:
  assumes "e \<in> set (rd_sessions (job_report en i filename db))"
  shows "\<exists>sid s sc. (sid, s) \<in> set (job_sessions i db) \<and> e = session_entry_of (stored_analysis db sid s) sc"
proof -
  obtain n where n: "n < length (job_sessions i db)"
    and e: "e = session_entry_of (map (\<lambda>(sid, s). stored_analysis db sid s) (job_sessions i db) ! n)
      (score_at (map (\<lambda>(sid, s). stored_score s) (job_sessions i db)) n)"
    using assms by (auto simp: job_report_def load_analysis_def build_report_data_def Let_def session_entries_def)
  obtain sid s where x: "job_sessions i db ! n = (sid, s)" by (cases "job_sessions i db ! n")
  with nth_mem [OF n] have "(sid, s) \<in> set (job_sessions i db)" by simp
  with e n x show ?thesis by auto
qed

lemma build_bundle_records:
  "set (map (\<lambda>r. (er_type r, er_body r)) (bu_records (build_bundle rp sups retention versions))) = set (bundle_entries rp sups)"
  using append_bodies [of genesis 0 "bundle_entries rp sups"] by (simp add: build_bundle_def case_prod_beta)

lemma build_bundle_types: "er_type ` set (bu_records (build_bundle rp sups retention versions)) = fst ` set (bundle_entries rp sups)"
  unfolding build_bundle_records [of rp sups retention versions, symmetric] by force

lemma build_bundle_entry:
  "r \<in> set (bu_records (build_bundle rp sups retention versions)) \<Longrightarrow> (er_type r, er_body r) \<in> set (bundle_entries rp sups)"
  unfolding build_bundle_records [of rp sups retention versions, symmetric] by simp


section \<open>Instances\<close>


definition demo_report_env :: report_env where
  "demo_report_env = \<lparr>re_prose = (\<lambda>f. ([], [])), re_stamp = ''now'', re_now = 0, re_audit_ok = True, re_session_days = 30,
     re_tool = ''1'', re_mapping = ''1''\<rparr>"


end
